(* ===== verification/Anchor_Prelude.thy ===== *)
theory Anchor_Prelude
  imports Main "HOL-Library.Word"
begin

text \<open>
  Shared vocabulary of the development: the machine integers of the Rust sources with
  the saturating, checked and clamping operations of the standard library, the
  result-and-state type in which fallible operations are written, and the generic
  notion of a reachable state with its invariant rule. The collection
  \<open>op_defs\<close> gathers the definitions of the combinators, and \<open>sat_arith\<close> the
  reading of saturating arithmetic in natural numbers.
\<close>

named_theorems op_defs \<open>definitions of the result-and-state combinators\<close>
named_theorems sat_arith \<open>saturating machine arithmetic read in the natural numbers\<close>

section \<open>Machine integers\<close>

type_synonym u8 = "8 word"
type_synonym u16 = "16 word"
type_synonym u32 = "32 word"
type_synonym u64 = "64 word"

text \<open>Rust's \<open>saturating_add\<close>, \<open>saturating_sub\<close>, \<open>saturating_mul\<close> and \<open>checked_add\<close>.\<close>

definition saturating_add :: "'a::len word \<Rightarrow> 'a word \<Rightarrow> 'a word" where
  "saturating_add a b = (if unat a + unat b < 2 ^ LENGTH('a) then a + b else - 1)"

definition saturating_sub :: "'a::len word \<Rightarrow> 'a word \<Rightarrow> 'a word" where
  "saturating_sub a b = (if a < b then 0 else a - b)"

definition saturating_mul :: "'a::len word \<Rightarrow> 'a word \<Rightarrow> 'a word" where
  "saturating_mul a b = (if unat a * unat b < 2 ^ LENGTH('a) then a * b else - 1)"

definition checked_add :: "'a::len word \<Rightarrow> 'a word \<Rightarrow> 'a word option" where
  "checked_add a b = (if unat a + unat b < 2 ^ LENGTH('a) then Some (a + b) else None)"

definition clamp :: "'a::len word \<Rightarrow> 'a word \<Rightarrow> 'a word \<Rightarrow> 'a word" where
  "clamp lo hi x = (if x < lo then lo else if hi < x then hi else x)"

lemma unat_add_no_overflow:
  "unat a + unat b < 2 ^ LENGTH('a) \<Longrightarrow> unat (a + b :: 'a::len word) = unat a + unat b"
  by (simp add: unat_word_ariths)

lemma unat_u64_bound: "unat (x :: u64) < 2 ^ 64"
  using unsigned_less [of x] by simp

lemma unat_u32_bound: "unat (x :: u32) < 2 ^ 32"
  using unsigned_less [of x] by simp

lemma unat_of_nat_u64: "n < 2 ^ 64 \<Longrightarrow> unat (word_of_nat n :: u64) = n"
  by (simp add: unsigned_of_nat take_bit_nat_eq_self)

lemma unat_max_word: "unat (- 1 :: 'a::len word) = 2 ^ LENGTH('a) - 1"
  by (simp add: unsigned_minus_1_eq_mask mask_eq_exp_minus_1)

lemma unat_saturating_add [sat_arith]:
  "unat (saturating_add a b :: 'a::len word) = min (unat a + unat b) (2 ^ LENGTH('a) - 1)"
proof (cases "unat a + unat b < 2 ^ LENGTH('a)")
  case True
  then show ?thesis by (simp add: saturating_add_def unat_add_no_overflow)
next
  case False
  then have "(2::nat) ^ LENGTH('a) - 1 \<le> unat a + unat b" by simp
  with False show ?thesis by (simp add: saturating_add_def unat_max_word)
qed

lemma unat_saturating_sub [sat_arith]:
  "unat (saturating_sub a b :: 'a::len word) = unat a - unat b"
proof (cases "a < b")
  case True
  then have "unat a < unat b" by (simp add: word_less_nat_alt)
  with True show ?thesis by (simp add: saturating_sub_def)
next
  case False
  then have "b \<le> a" by simp
  then show ?thesis by (simp add: saturating_sub_def unat_sub)
qed

lemma unat_saturating_mul [sat_arith]:
  "unat (saturating_mul a b :: 'a::len word) = min (unat a * unat b) (2 ^ LENGTH('a) - 1)"
proof (cases "unat a * unat b < 2 ^ LENGTH('a)")
  case True
  then have "unat (a * b) = unat a * unat b" by (simp add: unat_word_ariths)
  with True show ?thesis by (simp add: saturating_mul_def)
next
  case False
  then have "(2::nat) ^ LENGTH('a) - 1 \<le> unat a * unat b" by simp
  with False show ?thesis by (simp add: saturating_mul_def unat_max_word)
qed

lemma checked_add_Some_iff:
  "checked_add a b = Some c \<longleftrightarrow>
     unat a + unat b < 2 ^ LENGTH('a) \<and> unat (c :: 'a::len word) = unat a + unat b"
  by (auto simp: checked_add_def unat_add_no_overflow word_unat_eq_iff split: if_splits)

lemma clamp_bounds: "lo \<le> hi \<Longrightarrow> lo \<le> clamp lo hi x \<and> clamp lo hi x \<le> hi"
  by (auto simp: clamp_def)

section \<open>Fallible operations on a state\<close>

text \<open>
  An operation takes the state and gives an outcome and the state it leaves behind:
  \<open>Ok\<close> and \<open>Err\<close> are the two variants of Rust's \<open>Result\<close>, \<open>Panic\<close> is a trap (a
  failed \<open>require_auth\<close>, an arithmetic overflow under \<open>overflow-checks\<close>, an
  \<open>expect\<close>). The state is kept on the failing branches too, so that what an
  operation wrote before it failed stays visible.
\<close>

datatype ('e, 'a) outcome = Ok 'a | Err 'e | Panic

type_synonym ('s, 'e, 'a) op = "'s \<Rightarrow> ('e, 'a) outcome \<times> 's"

definition retS :: "'a \<Rightarrow> ('s, 'e, 'a) op" where
  [op_defs]: "retS x s = (Ok x, s)"

definition failS :: "'e \<Rightarrow> ('s, 'e, 'a) op" where
  [op_defs]: "failS e s = (Err e, s)"

definition panicS :: "('s, 'e, 'a) op" where
  [op_defs]: "panicS s = (Panic, s)"

definition getS :: "('s \<Rightarrow> 'a) \<Rightarrow> ('s, 'e, 'a) op" where
  [op_defs]: "getS f s = (Ok (f s), s)"

definition modifyS :: "('s \<Rightarrow> 's) \<Rightarrow> ('s, 'e, unit) op" where
  [op_defs]: "modifyS f s = (Ok (), f s)"

text \<open>Sequencing, the \<open>?\<close> operator and \<open>;\<close> of the source.\<close>

definition bindS :: "('s, 'e, 'a) op \<Rightarrow> ('a \<Rightarrow> ('s, 'e, 'b) op) \<Rightarrow> ('s, 'e, 'b) op" where
  "bindS m f s =
     (case m s of
        (Ok x, s') \<Rightarrow> f x s'
      | (Err e, s') \<Rightarrow> (Err e, s')
      | (Panic, s') \<Rightarrow> (Panic, s'))"

lemma bindS_ret [simp]: "bindS (retS x) f = f x"
  by (rule ext) (simp add: bindS_def retS_def)

lemma bindS_get [simp]: "bindS (getS g) f s = f (g s) s"
  by (simp add: bindS_def getS_def)

lemma bindS_modify [simp]: "bindS (modifyS g) f s = f () (g s)"
  by (simp add: bindS_def modifyS_def)

lemma bindS_fail [simp]: "bindS (failS e) f = failS e"
  by (rule ext) (simp add: bindS_def failS_def)

lemma bindS_panic [simp]: "bindS panicS f = panicS"
  by (rule ext) (simp add: bindS_def panicS_def)

lemma bindS_Ok_iff:
  "bindS m f s = (Ok y, t) \<longleftrightarrow> (\<exists>x u. m s = (Ok x, u) \<and> f x u = (Ok y, t))"
  by (auto simp: bindS_def split: prod.splits outcome.splits)

lemma bindS_step: "m s = (Ok x, u) \<Longrightarrow> bindS m f s = f x u"
  by (simp add: bindS_def)

lemma bindS_Err: "m s = (Err e, u) \<Longrightarrow> bindS m f s = (Err e, u)"
  by (simp add: bindS_def)

lemma bindS_Panic: "m s = (Panic, u) \<Longrightarrow> bindS m f s = (Panic, u)"
  by (simp add: bindS_def)

lemmas bindS_branches = bindS_step bindS_Err bindS_Panic

section \<open>Texts\<close>

text \<open>\<open>str::split\<close> at a separator: one piece more than there are separators.\<close>

fun split_on :: "'a \<Rightarrow> 'a list \<Rightarrow> 'a list list" where
  "split_on sep [] = [[]]"
| "split_on sep (c # cs) =
     (if c = sep then [] # split_on sep cs
      else (case split_on sep cs of [] \<Rightarrow> [[c]] | l # ls \<Rightarrow> (c # l) # ls))"

lemma split_on_nonempty [simp]: "split_on sep cs \<noteq> []"
  by (induction cs) (auto split: list.split)

lemma length_split_on: "length (split_on sep cs) = Suc (count_list cs sep)"
proof (induction cs)
  case (Cons c cs)
  then show ?case by (cases "split_on sep cs") auto
qed simp

lemma split_on_cover: "c \<in> set cs \<Longrightarrow> c = sep \<or> (\<exists>l \<in> set (split_on sep cs). c \<in> set l)"
proof (induction cs)
  case (Cons x xs)
  then show ?case by (cases "split_on sep xs") auto
qed simp

text \<open>The code of a byte, the ASCII tests of the standard library, and decimal printing.\<close>

definition char_code :: "char \<Rightarrow> nat" where
  "char_code c = of_char c"

definition is_ascii_digit_char :: "char \<Rightarrow> bool" where
  "is_ascii_digit_char c \<longleftrightarrow> 48 \<le> char_code c \<and> char_code c \<le> 57"

definition is_ascii_alphanumeric_char :: "char \<Rightarrow> bool" where
  "is_ascii_alphanumeric_char c \<longleftrightarrow> is_ascii_digit_char c \<or>
     65 \<le> char_code c \<and> char_code c \<le> 90 \<or> 97 \<le> char_code c \<and> char_code c \<le> 122"

definition to_ascii_lowercase_char :: "char \<Rightarrow> char" where
  "to_ascii_lowercase_char c =
     (if 65 \<le> char_code c \<and> char_code c \<le> 90 then char_of (char_code c + 32) else c)"

definition to_ascii_lowercase :: "string \<Rightarrow> string" where
  "to_ascii_lowercase s = map to_ascii_lowercase_char s"

fun show_nat :: "nat \<Rightarrow> string" where
  "show_nat n =
     (if n < 10 then [char_of (48 + n)] else show_nat (n div 10) @ [char_of (48 + n mod 10)])"

declare show_nat.simps [simp del]

lemma is_ascii_digit_char_of [simp]: "d < 10 \<Longrightarrow> is_ascii_digit_char (char_of (48 + d :: nat))"
  by (simp add: is_ascii_digit_char_def char_code_def)

lemma show_nat_digits: "list_all is_ascii_digit_char (show_nat n) \<and> show_nat n \<noteq> []"
proof (induction n rule: show_nat.induct)
  case (1 n)
  then show ?case
    by (subst (1 2) show_nat.simps) auto
qed

section \<open>Reachable states and invariants\<close>

inductive reach :: "('s \<Rightarrow> bool) \<Rightarrow> ('s \<Rightarrow> 's \<Rightarrow> bool) \<Rightarrow> 's \<Rightarrow> bool"
  for init :: "'s \<Rightarrow> bool" and step :: "'s \<Rightarrow> 's \<Rightarrow> bool" where
  reach_init: "init s \<Longrightarrow> reach init step s"
| reach_step: "reach init step s \<Longrightarrow> step s t \<Longrightarrow> reach init step t"

text \<open>
  The interface of an invariant: it holds in every initial state and every step keeps
  it. The lemma proved once here is what each state machine of the development uses.
\<close>

locale invariant_system =
  fixes init :: "'s \<Rightarrow> bool"
    and step :: "'s \<Rightarrow> 's \<Rightarrow> bool"
    and invar :: "'s \<Rightarrow> bool"
  assumes invar_init: "init s \<Longrightarrow> invar s"
    and invar_step: "invar s \<Longrightarrow> step s t \<Longrightarrow> invar t"
begin

lemma reach_invar: "reach init step s \<Longrightarrow> invar s"
  by (induction rule: reach.induct) (auto intro: invar_init invar_step)

lemma steps_invar: "step\<^sup>*\<^sup>* s t \<Longrightarrow> invar s \<Longrightarrow> invar t"
  by (induction rule: rtranclp_induct) (auto intro: invar_step)

end

section \<open>Data refinement\<close>

text \<open>A sequence of operations, with what each of them answers.\<close>

fun run_ops :: "('c \<Rightarrow> 's \<Rightarrow> 'r \<times> 's) \<Rightarrow> 'c list \<Rightarrow> 's \<Rightarrow> 'r list \<times> 's" where
  "run_ops f [] s = ([], s)"
| "run_ops f (c # cs) s =
     (case f c s of (r, t) \<Rightarrow> case run_ops f cs t of (rs, u) \<Rightarrow> (r # rs, u))"

text \<open>
  The interface of a functional refinement: from every state in the invariant, a concrete
  operation gives the answer of the abstract one and a state that abstracts to its state.
\<close>

locale data_refinement =
  fixes conc :: "'c \<Rightarrow> 's \<Rightarrow> 'r \<times> 's"
    and abst :: "'c \<Rightarrow> 'a \<Rightarrow> 'r \<times> 'a"
    and abs_fun :: "'s \<Rightarrow> 'a"
    and good :: "'s \<Rightarrow> bool"
  assumes conc_good: "good s \<Longrightarrow> good (snd (conc c s))"
    and commutes: "good s \<Longrightarrow> abst c (abs_fun s) = map_prod id abs_fun (conc c s)"
begin

lemma runs_good: "good s \<Longrightarrow> good (snd (run_ops conc cs s))"
proof (induction cs arbitrary: s)
  case (Cons c cs)
  then show ?case
    using Cons.IH [OF conc_good [OF Cons.prems, of c]] by (auto split: prod.splits)
qed simp

lemma runs_commute: "good s \<Longrightarrow> run_ops abst cs (abs_fun s) = map_prod id abs_fun (run_ops conc cs s)"
proof (induction cs arbitrary: s)
  case (Cons c cs)
  then show ?case
    using Cons.IH [OF conc_good [OF Cons.prems, of c]] commutes [OF Cons.prems, of c]
    by (auto split: prod.splits)
qed simp

end

end
