(* ===== verification/Contract_Types.thy ===== *)
theory Contract_Types
  imports Anchor_Prelude
begin

text \<open>
  The data of the on-chain contract: the error codes (\<open>src/errors.rs\<close>), the storage
  keys and stored structures (\<open>src/types.rs\<close>), the events with their publishing
  functions (\<open>src/events.rs\<close>), and the execution environment a contract call runs in.

  The environment has one slot for every constructor of \<open>DataKey\<close>, of the type the code
  stores under that key: a plain key is an optional value, a key with arguments a partial
  map. The remaining fields are what a call reads of the ledger and what it hands to the
  host: the ledger timestamp, the addresses whose authorisation the invocation
  carries, the events published and the storage-rent requests made so far.
\<close>

type_synonym Address = string
type_synonym Symbol = string
type_synonym Bytes32 = "256 word"

section \<open>Errors\<close>

datatype Error =
    NotInitialized | AlreadyInitialized | Unauthorized | ContractPaused
  | AttestorAlreadyRegistered | AttestorNotRegistered | AttestationNotFound
  | AttestationExpired | AttestationAlreadyRevoked | InvalidExpiration | InvalidDomain
  | EmptyBatch | ExceedsMaxTtl | InvalidPagination | AttestationTypeTooLong
  | InvalidThreshold | SignerNotFound | DuplicateSigner | InsufficientSignatures
  | InvalidSignature | EmptySignerList | DuplicateSignature

fun error_code :: "Error \<Rightarrow> u32" where
  "error_code NotInitialized = 1"
| "error_code AlreadyInitialized = 2"
| "error_code Unauthorized = 3"
| "error_code ContractPaused = 4"
| "error_code AttestorAlreadyRegistered = 5"
| "error_code AttestorNotRegistered = 6"
| "error_code AttestationNotFound = 7"
| "error_code AttestationExpired = 8"
| "error_code AttestationAlreadyRevoked = 9"
| "error_code InvalidExpiration = 10"
| "error_code InvalidDomain = 11"
| "error_code EmptyBatch = 12"
| "error_code ExceedsMaxTtl = 13"
| "error_code InvalidPagination = 14"
| "error_code AttestationTypeTooLong = 15"
| "error_code InvalidThreshold = 16"
| "error_code SignerNotFound = 17"
| "error_code DuplicateSigner = 18"
| "error_code InsufficientSignatures = 19"
| "error_code InvalidSignature = 20"
| "error_code EmptySignerList = 21"
| "error_code DuplicateSignature = 22"

section \<open>Stored structures\<close>

datatype DataKey =
    Admin | MultiSigConfigKey | Paused | Attestor Address
  | AttestationKey Address Symbol | AttestationCount | AttestationSeq Address Symbol
  | AttestationHistory Address Symbol u64 | MaxAttestationTtl Symbol
  | DefaultMaxAttestationTtl | SchemaVersion

datatype AttestationStatus = Active | Revoked

record BatchAttestEntry =
  be_subject :: Address
  be_attestation_type :: Symbol
  be_payload_hash :: Bytes32
  be_ttl_seconds :: u64

record Attestation =
  att_attestor :: Address
  att_subject :: Address
  att_attestation_type :: Symbol
  att_payload_hash :: Bytes32
  att_issued_at :: u64
  att_expires_at :: u64
  att_status :: AttestationStatus

record HistoryEntry =
  he_sequence :: u64
  he_attestor :: Address
  he_payload_hash :: Bytes32
  he_issued_at :: u64
  he_expires_at :: u64
  he_status :: AttestationStatus

record MultiSigConfig =
  ms_signers :: "Address list"
  ms_threshold :: u32
  ms_nonce :: u64

record SignatureInfo =
  si_signers :: "Address list"
  si_signatures :: "u8 list list"

section \<open>Events\<close>

datatype Event =
    InitializedEv Address
  | AdminChangedEv Address Address
  | AttestorAddedEv Address
  | AttestorRemovedEv Address
  | AttestorRenewedEv Address
  | AttestedEv Address Symbol Address Bytes32 u64
  | RevokedEv Address Symbol Address
  | AttestationRenewedEv Address Symbol Address
  | PauseToggledEv bool
  | DefaultMaxAttestationTtlChangedEv u64
  | MaxAttestationTtlChangedEv Symbol u64
  | SignersRotatedEv u32
  | SchemaMigratedEv u32 u32

section \<open>The execution environment\<close>

record env =
  inst_Admin :: "Address option"
  inst_MultiSigConfig :: "MultiSigConfig option"
  inst_Paused :: "bool option"
  inst_AttestationCount :: "u64 option"
  inst_MaxAttestationTtl :: "Symbol \<rightharpoonup> u64"
  inst_DefaultMaxAttestationTtl :: "u64 option"
  inst_SchemaVersion :: "u32 option"
  pers_Attestor :: "Address \<rightharpoonup> bool"
  pers_Attestation :: "Address \<times> Symbol \<rightharpoonup> Attestation"
  pers_AttestationSeq :: "Address \<times> Symbol \<rightharpoonup> u64"
  pers_AttestationHistory :: "Address \<times> Symbol \<times> u64 \<rightharpoonup> HistoryEntry"
  ledger_timestamp :: u64
  authorized :: "Address \<Rightarrow> bool"
  published :: "Event list"
  ttl_bumps :: "(DataKey \<times> u32 \<times> u32) list"

type_synonym 'a contract_op = "(env, Error, 'a) op"

definition empty_env :: env where
  "empty_env =
     \<lparr>inst_Admin = None, inst_MultiSigConfig = None, inst_Paused = None,
      inst_AttestationCount = None, inst_MaxAttestationTtl = (\<lambda>_. None),
      inst_DefaultMaxAttestationTtl = None, inst_SchemaVersion = None,
      pers_Attestor = (\<lambda>_. None), pers_Attestation = (\<lambda>_. None),
      pers_AttestationSeq = (\<lambda>_. None), pers_AttestationHistory = (\<lambda>_. None),
      ledger_timestamp = 0, authorized = (\<lambda>_. False), published = [], ttl_bumps = []\<rparr>"

text \<open>
  The host calls with no slot of their own: \<open>Address::require_auth\<close> traps unless the
  invocation carries the address's authorisation, \<open>publish\<close> appends to the event
  stream, and \<open>extend_ttl\<close> hands a rent request to the host, recorded with the key
  and the two ledger counts it asks for.
\<close>

definition require_auth :: "Address \<Rightarrow> unit contract_op" where
  "require_auth a e = (if authorized e a then (Ok (), e) else (Panic, e))"

definition publish :: "Event \<Rightarrow> env \<Rightarrow> env" where
  "publish ev e = e\<lparr>published := published e @ [ev]\<rparr>"

definition extend_ttl :: "DataKey \<Rightarrow> u32 \<Rightarrow> u32 \<Rightarrow> env \<Rightarrow> env" where
  "extend_ttl k threshold extend_to e = e\<lparr>ttl_bumps := ttl_bumps e @ [(k, threshold, extend_to)]\<rparr>"

section \<open>Publishing functions\<close>

definition ev_initialized :: "Address \<Rightarrow> env \<Rightarrow> env" where
  "ev_initialized admin = publish (InitializedEv admin)"

definition ev_admin_changed :: "Address \<Rightarrow> Address \<Rightarrow> env \<Rightarrow> env" where
  "ev_admin_changed previous new_admin = publish (AdminChangedEv previous new_admin)"

definition ev_attestor_added :: "Address \<Rightarrow> env \<Rightarrow> env" where
  "ev_attestor_added attestor = publish (AttestorAddedEv attestor)"

definition ev_attestor_removed :: "Address \<Rightarrow> env \<Rightarrow> env" where
  "ev_attestor_removed attestor = publish (AttestorRemovedEv attestor)"

definition ev_attestor_renewed :: "Address \<Rightarrow> env \<Rightarrow> env" where
  "ev_attestor_renewed attestor = publish (AttestorRenewedEv attestor)"

definition ev_attested :: "Address \<Rightarrow> Address \<Rightarrow> Symbol \<Rightarrow> Bytes32 \<Rightarrow> u64 \<Rightarrow> env \<Rightarrow> env" where
  "ev_attested attestor subject attestation_type payload_hash expires_at =
     publish (AttestedEv subject attestation_type attestor payload_hash expires_at)"

definition ev_revoked :: "Address \<Rightarrow> Symbol \<Rightarrow> Address \<Rightarrow> env \<Rightarrow> env" where
  "ev_revoked subject attestation_type revoked_by =
     publish (RevokedEv subject attestation_type revoked_by)"

definition ev_pause_toggled :: "bool \<Rightarrow> env \<Rightarrow> env" where
  "ev_pause_toggled paused = publish (PauseToggledEv paused)"

definition ev_attestation_renewed :: "Address \<Rightarrow> Symbol \<Rightarrow> Address \<Rightarrow> env \<Rightarrow> env" where
  "ev_attestation_renewed subject attestation_type renewed_by =
     publish (AttestationRenewedEv subject attestation_type renewed_by)"

definition ev_default_max_attestation_ttl_changed :: "u64 \<Rightarrow> env \<Rightarrow> env" where
  "ev_default_max_attestation_ttl_changed max_ttl_seconds =
     publish (DefaultMaxAttestationTtlChangedEv max_ttl_seconds)"

definition ev_max_attestation_ttl_changed :: "Symbol \<Rightarrow> u64 \<Rightarrow> env \<Rightarrow> env" where
  "ev_max_attestation_ttl_changed attestation_type max_ttl_seconds =
     publish (MaxAttestationTtlChangedEv attestation_type max_ttl_seconds)"

definition ev_signers_rotated :: "u32 \<Rightarrow> env \<Rightarrow> env" where
  "ev_signers_rotated new_threshold = publish (SignersRotatedEv new_threshold)"

definition ev_schema_migrated :: "u32 \<Rightarrow> u32 \<Rightarrow> env \<Rightarrow> env" where
  "ev_schema_migrated from_version to_version = publish (SchemaMigratedEv from_version to_version)"

text \<open>
  The first topic of each event, as its \<open>topics = [...]\<close> attribute gives it (for
  \<open>Initialized\<close>, which has none, the struct's name in snake case).
\<close>

fun event_topic :: "Event \<Rightarrow> string" where
  "event_topic (InitializedEv _) = ''initialized''"
| "event_topic (AdminChangedEv _ _) = ''admin_set''"
| "event_topic (AttestorAddedEv _) = ''attestor_add''"
| "event_topic (AttestorRemovedEv _) = ''attestor_del''"
| "event_topic (AttestorRenewedEv _) = ''attestor_renew''"
| "event_topic (AttestedEv _ _ _ _ _) = ''attest''"
| "event_topic (RevokedEv _ _ _) = ''revoke''"
| "event_topic (AttestationRenewedEv _ _ _) = ''renew''"
| "event_topic (PauseToggledEv _) = ''pause''"
| "event_topic (DefaultMaxAttestationTtlChangedEv _) = ''default_max_ttl''"
| "event_topic (MaxAttestationTtlChangedEv _ _) = ''max_ttl''"
| "event_topic (SignersRotatedEv _) = ''signers_rotate''"
| "event_topic (SchemaMigratedEv _ _) = ''schema_migrated''"

lemmas event_defs =
  ev_initialized_def ev_admin_changed_def ev_attestor_added_def ev_attestor_removed_def
  ev_attestor_renewed_def ev_attested_def ev_revoked_def ev_pause_toggled_def
  ev_attestation_renewed_def ev_default_max_attestation_ttl_changed_def
  ev_max_attestation_ttl_changed_def ev_signers_rotated_def ev_schema_migrated_def publish_def

lemma require_auth_Ok_iff: "require_auth a e = (Ok u, t) \<longleftrightarrow> authorized e a \<and> t = e"
  by (auto simp: require_auth_def)

lemma require_auth_bind:
  "bindS (require_auth a) f e = (if authorized e a then f () e else (Panic, e))"
  by (simp add: require_auth_def bindS_def)

end
