(* ===== verification/Storage.thy ===== *)
theory Storage
  imports Contract_Types
begin

text \<open>
  The storage layer \<open>src/storage.rs\<close>: the rent-window arithmetic and every accessor of
  the contract's slots, under the source's names prefixed by \<open>storage_\<close>. Then the
  facts about them: the bounds of the rent window, and the history of one (subject,
  type) pair as an append-only log, stated as the locale \<open>append_log\<close> and interpreted on
  \<open>storage_push_attestation_history\<close>.
\<close>

section \<open>The rent window\<close>

definition SECONDS_PER_LEDGER :: u64 where "SECONDS_PER_LEDGER = 5"
definition LEDGERS_PER_DAY :: u32 where "LEDGERS_PER_DAY = 17280"
definition MAX_ENTRY_TTL_LEDGERS :: u32 where "MAX_ENTRY_TTL_LEDGERS = 6312000"
definition ATTESTOR_TTL_THRESHOLD :: u32 where "ATTESTOR_TTL_THRESHOLD = LEDGERS_PER_DAY * 90"
definition ATTESTOR_TTL_EXTEND_TO :: u32 where "ATTESTOR_TTL_EXTEND_TO = MAX_ENTRY_TTL_LEDGERS"
definition MIN_ATTESTATION_TTL_EXTEND_TO :: u32 where
  "MIN_ATTESTATION_TTL_EXTEND_TO = LEDGERS_PER_DAY * 30"
definition MAX_ATTESTATION_TTL_EXTEND_TO :: u32 where
  "MAX_ATTESTATION_TTL_EXTEND_TO = MAX_ENTRY_TTL_LEDGERS"
definition DEFAULT_MAX_ATTESTATION_TTL_SECONDS :: u64 where
  "DEFAULT_MAX_ATTESTATION_TTL_SECONDS = 365 * 24 * 60 * 60"

text \<open>\<open>u32::try_from\<close> on a \<open>u64\<close>.\<close>

definition u32_try_from :: "u64 \<Rightarrow> u32 option" where
  "u32_try_from x = (if unat x < 2 ^ 32 then Some (ucast x) else None)"

definition attestation_extend_to :: "u64 \<Rightarrow> u32" where
  "attestation_extend_to remaining_seconds =
     (let ledgers = remaining_seconds div SECONDS_PER_LEDGER;
          ledgers = (case u32_try_from ledgers of None \<Rightarrow> - 1 | Some l \<Rightarrow> l)
      in clamp MIN_ATTESTATION_TTL_EXTEND_TO MAX_ATTESTATION_TTL_EXTEND_TO ledgers)"

definition attestation_ttl_window :: "u64 \<Rightarrow> u32 \<times> u32" where
  "attestation_ttl_window remaining_seconds =
     (let extend_to = attestation_extend_to remaining_seconds in (extend_to div 2, extend_to))"

section \<open>Administration and the allow-list\<close>

definition storage_get_admin :: "Address contract_op" where
  "storage_get_admin e =
     (case inst_Admin e of None \<Rightarrow> (Err NotInitialized, e) | Some a \<Rightarrow> (Ok a, e))"

definition storage_set_admin :: "Address \<Rightarrow> env \<Rightarrow> env" where
  "storage_set_admin admin e = e\<lparr>inst_Admin := Some admin\<rparr>"

definition storage_is_initialized :: "env \<Rightarrow> bool" where
  "storage_is_initialized e = (inst_Admin e \<noteq> None)"

definition storage_is_paused :: "env \<Rightarrow> bool" where
  "storage_is_paused e = (case inst_Paused e of None \<Rightarrow> False | Some b \<Rightarrow> b)"

definition storage_set_paused :: "bool \<Rightarrow> env \<Rightarrow> env" where
  "storage_set_paused paused e = e\<lparr>inst_Paused := Some paused\<rparr>"

definition storage_is_attestor :: "Address \<Rightarrow> env \<Rightarrow> bool" where
  "storage_is_attestor attestor e = (case pers_Attestor e attestor of None \<Rightarrow> False | Some b \<Rightarrow> b)"

definition storage_set_attestor :: "Address \<Rightarrow> bool \<Rightarrow> env \<Rightarrow> env" where
  "storage_set_attestor attestor allowed e =
     (if allowed
      then extend_ttl (Attestor attestor) ATTESTOR_TTL_THRESHOLD ATTESTOR_TTL_EXTEND_TO
             (e\<lparr>pers_Attestor := (pers_Attestor e)(attestor \<mapsto> True)\<rparr>)
      else e\<lparr>pers_Attestor := (pers_Attestor e)(attestor := None)\<rparr>)"

section \<open>Attestations\<close>

definition storage_get_attestation :: "Address \<Rightarrow> Symbol \<Rightarrow> env \<Rightarrow> Attestation option" where
  "storage_get_attestation subject attestation_type e = pers_Attestation e (subject, attestation_type)"

definition storage_set_attestation ::
  "Address \<Rightarrow> Symbol \<Rightarrow> Attestation \<Rightarrow> env \<Rightarrow> env" where
  "storage_set_attestation subject attestation_type attestation e =
     (let e1 = e\<lparr>pers_Attestation :=
                   (pers_Attestation e)((subject, attestation_type) \<mapsto> attestation)\<rparr>;
          remaining_seconds = saturating_sub (att_expires_at attestation) (ledger_timestamp e1);
          (threshold, extend_to) = attestation_ttl_window remaining_seconds
      in extend_ttl (AttestationKey subject attestation_type) threshold extend_to e1)"

definition storage_get_attestation_count :: "env \<Rightarrow> u64" where
  "storage_get_attestation_count e = (case inst_AttestationCount e of None \<Rightarrow> 0 | Some n \<Rightarrow> n)"

text \<open>\<open>count + 1\<close> overflows into a panic: the release profile keeps overflow checks on.\<close>

definition storage_bump_attestation_count :: "u64 contract_op" where
  "storage_bump_attestation_count e =
     (case checked_add (storage_get_attestation_count e) 1 of
        None \<Rightarrow> (Panic, e)
      | Some next_count \<Rightarrow> (Ok next_count, e\<lparr>inst_AttestationCount := Some next_count\<rparr>))"

section \<open>The attestation history\<close>

definition storage_get_attestation_seq :: "Address \<Rightarrow> Symbol \<Rightarrow> env \<Rightarrow> u64" where
  "storage_get_attestation_seq subject attestation_type e =
     (case pers_AttestationSeq e (subject, attestation_type) of None \<Rightarrow> 0 | Some n \<Rightarrow> n)"

definition storage_next_attestation_seq :: "Address \<Rightarrow> Symbol \<Rightarrow> u64 contract_op" where
  "storage_next_attestation_seq subject attestation_type e =
     (let current = (case pers_AttestationSeq e (subject, attestation_type) of None \<Rightarrow> 0 | Some n \<Rightarrow> n)
      in case checked_add current 1 of
           None \<Rightarrow> (Panic, e)
         | Some next_seq \<Rightarrow>
             (Ok next_seq,
              e\<lparr>pers_AttestationSeq :=
                  (pers_AttestationSeq e)((subject, attestation_type) \<mapsto> next_seq)\<rparr>))"

definition history_entry :: "u64 \<Rightarrow> Attestation \<Rightarrow> HistoryEntry" where
  "history_entry seq attestation =
     \<lparr>he_sequence = seq, he_attestor = att_attestor attestation,
      he_payload_hash = att_payload_hash attestation, he_issued_at = att_issued_at attestation,
      he_expires_at = att_expires_at attestation, he_status = att_status attestation\<rparr>"

definition storage_push_attestation_history ::
  "Address \<Rightarrow> Symbol \<Rightarrow> Attestation \<Rightarrow> unit contract_op" where
  "storage_push_attestation_history subject attestation_type attestation =
     bindS (storage_next_attestation_seq subject attestation_type) (\<lambda>seq.
     modifyS (\<lambda>e.
       let e1 = e\<lparr>pers_AttestationHistory :=
                    (pers_AttestationHistory e)
                      ((subject, attestation_type, seq) \<mapsto> history_entry seq attestation)\<rparr>;
           remaining_seconds = saturating_sub (att_expires_at attestation) (ledger_timestamp e1);
           (threshold, extend_to) = attestation_ttl_window remaining_seconds
       in extend_ttl (AttestationHistory subject attestation_type seq) threshold extend_to e1))"

text \<open>
  The two loops of \<open>list_attestation_history\<close>, each as a recursion on the number of
  iterations left (\<open>limit\<close>). The backward loop stops at 0 and otherwise counts down; the
  forward loop stops past \<open>total_seq\<close>. A sequence number with no entry is skipped but
  uses up an iteration. Producing the last \<open>u64\<close> from the range \<open>start_seq..\<close> overflows its
  successor, which is the panic \<open>None\<close>.
\<close>

definition history_at :: "Address \<Rightarrow> Symbol \<Rightarrow> env \<Rightarrow> u64 \<Rightarrow> HistoryEntry list" where
  "history_at subject attestation_type e seq =
     (case pers_AttestationHistory e (subject, attestation_type, seq) of
        None \<Rightarrow> [] | Some entry \<Rightarrow> [entry])"

fun history_backward :: "(u64 \<Rightarrow> 'v list) \<Rightarrow> nat \<Rightarrow> u64 \<Rightarrow> 'v list" where
  "history_backward read 0 current = []"
| "history_backward read (Suc n) current =
     (if current = 0 then []
      else read current @ history_backward read n (saturating_sub current 1))"

fun history_forward :: "(u64 \<Rightarrow> 'v list) \<Rightarrow> u64 \<Rightarrow> nat \<Rightarrow> u64 \<Rightarrow> 'v list option" where
  "history_forward read total_seq 0 current = Some []"
| "history_forward read total_seq (Suc n) current =
     (case checked_add current 1 of
        None \<Rightarrow> None
      | Some next \<Rightarrow>
          if current > total_seq then Some []
          else map_option (append (read current)) (history_forward read total_seq n next))"

definition storage_list_attestation_history ::
  "Address \<Rightarrow> Symbol \<Rightarrow> u64 \<Rightarrow> u32 \<Rightarrow> bool \<Rightarrow> env \<Rightarrow> (Error, HistoryEntry list) outcome" where
  "storage_list_attestation_history subject attestation_type start_seq limit reverse e =
     (if limit = 0 then Err InvalidPagination
      else
        let total_seq = storage_get_attestation_seq subject attestation_type e;
            read = history_at subject attestation_type e
        in if total_seq = 0 \<or> start_seq > total_seq then Ok []
           else if reverse then Ok (history_backward read (unat limit) start_seq)
           else (case history_forward read total_seq (unat limit) start_seq of
                   None \<Rightarrow> Panic | Some results \<Rightarrow> Ok results))"

section \<open>TTL limits, governance configuration and schema version\<close>

definition storage_get_max_attestation_ttl :: "Symbol \<Rightarrow> env \<Rightarrow> u64" where
  "storage_get_max_attestation_ttl attestation_type e =
     (case inst_MaxAttestationTtl e attestation_type of
        Some m \<Rightarrow> m
      | None \<Rightarrow>
          (case inst_DefaultMaxAttestationTtl e of
             Some m \<Rightarrow> m
           | None \<Rightarrow> DEFAULT_MAX_ATTESTATION_TTL_SECONDS))"

definition storage_set_default_max_attestation_ttl :: "u64 \<Rightarrow> env \<Rightarrow> env" where
  "storage_set_default_max_attestation_ttl max_ttl_seconds e =
     e\<lparr>inst_DefaultMaxAttestationTtl := Some max_ttl_seconds\<rparr>"

definition storage_set_max_attestation_ttl :: "Symbol \<Rightarrow> u64 \<Rightarrow> env \<Rightarrow> env" where
  "storage_set_max_attestation_ttl attestation_type max_ttl_seconds e =
     e\<lparr>inst_MaxAttestationTtl := (inst_MaxAttestationTtl e)(attestation_type \<mapsto> max_ttl_seconds)\<rparr>"

definition storage_get_multisig_config :: "MultiSigConfig contract_op" where
  "storage_get_multisig_config e =
     (case inst_MultiSigConfig e of None \<Rightarrow> (Err NotInitialized, e) | Some c \<Rightarrow> (Ok c, e))"

definition storage_set_multisig_config :: "MultiSigConfig \<Rightarrow> env \<Rightarrow> env" where
  "storage_set_multisig_config config e = e\<lparr>inst_MultiSigConfig := Some config\<rparr>"

definition storage_has_multisig_config :: "env \<Rightarrow> bool" where
  "storage_has_multisig_config e = (inst_MultiSigConfig e \<noteq> None)"

definition storage_get_schema_version :: "env \<Rightarrow> u32 option" where
  "storage_get_schema_version e = inst_SchemaVersion e"

definition storage_set_schema_version :: "u32 \<Rightarrow> env \<Rightarrow> env" where
  "storage_set_schema_version version e = e\<lparr>inst_SchemaVersion := Some version\<rparr>"

section \<open>The rent window in ledgers\<close>

lemmas ttl_consts =
  SECONDS_PER_LEDGER_def LEDGERS_PER_DAY_def MAX_ENTRY_TTL_LEDGERS_def ATTESTOR_TTL_THRESHOLD_def
  ATTESTOR_TTL_EXTEND_TO_def MIN_ATTESTATION_TTL_EXTEND_TO_def MAX_ATTESTATION_TTL_EXTEND_TO_def
  DEFAULT_MAX_ATTESTATION_TTL_SECONDS_def

lemma unat_u32_or_max:
  "unat (case u32_try_from x of None \<Rightarrow> - 1 | Some l \<Rightarrow> l) = min (unat x) (2 ^ 32 - 1)"
proof (cases "unat x < 2 ^ 32")
  case True
  then have "unat (ucast x :: u32) = unat x"
    by (simp add: unsigned_ucast_eq take_bit_nat_eq_self)
  with True show ?thesis by (simp add: u32_try_from_def)
next
  case False
  then show ?thesis by (simp add: u32_try_from_def unat_max_word)
qed

lemma unat_clamp:
  "lo \<le> hi \<Longrightarrow> unat (clamp lo hi x) = max (unat lo) (min (unat x) (unat hi))"
  by (auto simp: clamp_def word_less_nat_alt word_le_nat_alt)

lemma unat_attestation_extend_to:
  "unat (attestation_extend_to r) = max 518400 (min (unat r div 5) 6312000)"
  by (simp add: attestation_extend_to_def unat_clamp unat_u32_or_max ttl_consts unat_div)

section \<open>The history as an append-only log\<close>

text \<open>
  The interface of a log kept as numbered entries and a counter: exactly the numbers
  from 1 to the counter have an entry, and pushing writes the entry after the last one.
  The client lemmas are the two page reads of \<open>list_attestation_history\<close>.
\<close>

definition log_of :: "('s \<Rightarrow> u64) \<Rightarrow> ('s \<Rightarrow> u64 \<Rightarrow> 'v option) \<Rightarrow> 's \<Rightarrow> 'v list" where
  "log_of len entry s = map (\<lambda>i. the (entry s (word_of_nat i))) [1..<Suc (unat (len s))]"

definition read_of :: "('s \<Rightarrow> u64 \<Rightarrow> 'v option) \<Rightarrow> 's \<Rightarrow> u64 \<Rightarrow> 'v list" where
  "read_of entry s q = (case entry s q of None \<Rightarrow> [] | Some v \<Rightarrow> [v])"

locale append_log =
  fixes wf :: "'s \<Rightarrow> bool"
    and len :: "'s \<Rightarrow> u64"
    and entry :: "'s \<Rightarrow> u64 \<Rightarrow> 'v option"
    and push :: "'x \<Rightarrow> 's \<Rightarrow> 's \<Rightarrow> bool"
    and make :: "u64 \<Rightarrow> 'x \<Rightarrow> 'v"
  assumes entry_dom: "wf s \<Longrightarrow> (entry s q \<noteq> None) = (0 < q \<and> q \<le> len s)"
    and push_len: "wf s \<Longrightarrow> push x s t \<Longrightarrow> unat (len t) = Suc (unat (len s))"
    and push_entry: "wf s \<Longrightarrow> push x s t \<Longrightarrow> entry t = (entry s)(len t \<mapsto> make (len t) x)"
    and push_wf: "wf s \<Longrightarrow> push x s t \<Longrightarrow> wf t"
begin

lemma length_log: "length (log_of len entry s) = unat (len s)"
  by (simp add: log_of_def)

lemma nth_log:
  "i < unat (len s) \<Longrightarrow> log_of len entry s ! i = the (entry s (word_of_nat (Suc i)))"
  by (simp add: log_of_def del: upt_Suc)

lemma read_in_range:
  assumes "wf s" and "0 < unat q" and "unat q \<le> unat (len s)"
  shows "read_of entry s q = [log_of len entry s ! (unat q - 1)]"
proof -
  have "0 < q \<and> q \<le> len s"
    using assms by (simp add: word_le_nat_alt word_less_nat_alt)
  then obtain v where v: "entry s q = Some v"
    using entry_dom [OF assms(1)] by auto
  have "log_of len entry s ! (unat q - 1) = the (entry s (word_of_nat (Suc (unat q - 1))))"
    using assms by (intro nth_log) simp
  also have "word_of_nat (Suc (unat q - 1)) = q"
    using assms(2) by simp
  finally show ?thesis using v by (simp add: read_of_def)
qed

lemma log_push:
  assumes "wf s" and "push x s t"
  shows "log_of len entry t = log_of len entry s @ [make (len t) x]"
proof (rule nth_equalityI)
  show "length (log_of len entry t) = length (log_of len entry s @ [make (len t) x])"
    using push_len [OF assms] by (simp add: length_log)
next
  fix i
  assume i: "i < length (log_of len entry t)"
  note len_t = push_len [OF assms]
  have i': "i \<le> unat (len s)" using i len_t by (simp add: length_log)
  have bound: "unat (len t) < 2 ^ 64" by (rule unat_u64_bound)
  show "log_of len entry t ! i = (log_of len entry s @ [make (len t) x]) ! i"
  proof (cases "i = unat (len s)")
    case True
    then have "(word_of_nat (Suc i) :: u64) = len t"
      using len_t by (metis of_nat_unat ucast_id)
    with True i show ?thesis
      by (simp add: nth_log length_log nth_append push_entry [OF assms])
  next
    case False
    then have i_s: "i < unat (len s)" using i' by simp
    have "unat (word_of_nat (Suc i) :: u64) = Suc i"
      using i_s bound len_t by (intro unat_of_nat_u64) simp
    then have "(word_of_nat (Suc i) :: u64) \<noteq> len t"
      using i_s len_t by auto
    with i_s i show ?thesis
      by (simp add: nth_log length_log nth_append push_entry [OF assms])
  qed
qed

lemma log_push_prefix:
  "wf s \<Longrightarrow> push x s t \<Longrightarrow> i < unat (len s) \<Longrightarrow>
     log_of len entry t ! i = log_of len entry s ! i"
  by (simp add: log_push length_log nth_append)

lemma page_forward:
  assumes "wf s" and "0 < unat q" and "unat q \<le> Suc (unat (len s))"
    and "Suc (Suc (unat (len s))) < 2 ^ 64"
  shows "history_forward (read_of entry s) (len s) n q =
           Some (take n (drop (unat q - 1) (log_of len entry s)))"
  using assms(2,3)
proof (induction n arbitrary: q)
  case 0
  then show ?case by simp
next
  case (Suc n)
  have step: "checked_add q 1 = Some (q + 1)"
    using Suc.prems assms(4) by (simp add: checked_add_def)
  show ?case
  proof (cases "q > len s")
    case True
    then have "length (log_of len entry s) \<le> unat q - 1"
      by (simp add: length_log word_less_nat_alt)
    with True step show ?thesis by simp
  next
    case False
    then have q: "unat q \<le> unat (len s)" by (simp add: word_less_nat_alt)
    then have q1: "unat (q + 1) = Suc (unat q)"
      using assms(4) by (simp add: unat_word_ariths)
    have "drop (unat q - 1) (log_of len entry s) =
        log_of len entry s ! (unat q - 1) # drop (unat q) (log_of len entry s)"
      using q Suc.prems by (metis Cons_nth_drop_Suc One_nat_def Suc_diff_1 Suc_le_lessD length_log)
    with False q q1 Suc step show ?thesis
      by (simp add: read_in_range [OF assms(1)])
  qed
qed

lemma page_backward:
  assumes "wf s" and "unat q \<le> unat (len s)"
  shows "history_backward (read_of entry s) n q = take n (rev (take (unat q) (log_of len entry s)))"
  using assms(2)
proof (induction n arbitrary: q)
  case 0
  then show ?case by simp
next
  case (Suc n)
  show ?case
  proof (cases "q = 0")
    case True
    then show ?thesis by simp
  next
    case False
    then have q: "0 < unat q" by (simp add: unat_gt_0)
    have q1: "unat (saturating_sub q 1) = unat q - 1"
      by (simp add: unat_saturating_sub)
    have "take (unat q) (log_of len entry s) =
        take (unat q - 1) (log_of len entry s) @ [log_of len entry s ! (unat q - 1)]"
      using q Suc.prems by (metis One_nat_def Suc_diff_1 Suc_le_lessD length_log take_Suc_conv_app_nth)
    with False q q1 Suc show ?thesis
      by (simp add: read_in_range [OF assms(1)])
  qed
qed

end

section \<open>The stored history is such a log\<close>

text \<open>
  \<open>history_wf\<close> is the well-formedness of the history of one pair: the entries are those
  numbered 1 to the stored sequence number, each carrying its own number.
\<close>

definition history_wf :: "Address \<Rightarrow> Symbol \<Rightarrow> env \<Rightarrow> bool" where
  "history_wf subject attestation_type e \<longleftrightarrow>
     (\<forall>q. (pers_AttestationHistory e (subject, attestation_type, q) \<noteq> None) =
            (0 < q \<and> q \<le> storage_get_attestation_seq subject attestation_type e)) \<and>
     (\<forall>q h. pers_AttestationHistory e (subject, attestation_type, q) = Some h \<longrightarrow> he_sequence h = q)"

definition history_log :: "Address \<Rightarrow> Symbol \<Rightarrow> env \<Rightarrow> HistoryEntry list" where
  "history_log subject attestation_type =
     log_of (storage_get_attestation_seq subject attestation_type)
            (\<lambda>e q. pers_AttestationHistory e (subject, attestation_type, q))"

lemma next_attestation_seq_Ok_iff:
  "storage_next_attestation_seq s ty e = (Ok q, t) \<longleftrightarrow>
     unat (storage_get_attestation_seq s ty e) + 1 < 2 ^ 64 \<and>
     q = storage_get_attestation_seq s ty e + 1 \<and>
     t = e\<lparr>pers_AttestationSeq := (pers_AttestationSeq e)((s, ty) \<mapsto> q)\<rparr>"
  by (auto simp: storage_next_attestation_seq_def storage_get_attestation_seq_def Let_def
      checked_add_def split: option.splits if_splits)

lemma push_attestation_history_Ok_iff:
  "storage_push_attestation_history s ty att e = (Ok u, t) \<longleftrightarrow>
     unat (storage_get_attestation_seq s ty e) + 1 < 2 ^ 64 \<and>
     (\<exists>q w. q = storage_get_attestation_seq s ty e + 1 \<and>
        w = attestation_ttl_window (saturating_sub (att_expires_at att) (ledger_timestamp e)) \<and>
        t = e\<lparr>pers_AttestationSeq := (pers_AttestationSeq e)((s, ty) \<mapsto> q),
              pers_AttestationHistory :=
                (pers_AttestationHistory e)((s, ty, q) \<mapsto> history_entry q att),
              ttl_bumps := ttl_bumps e @ [(AttestationHistory s ty q, fst w, snd w)]\<rparr>)"
  by (auto simp: storage_push_attestation_history_def bindS_Ok_iff next_attestation_seq_Ok_iff
      modifyS_def extend_ttl_def Let_def split: prod.splits)

lemma unat_next_seq:
  "unat (q :: u64) + 1 < 2 ^ 64 \<Longrightarrow> unat (q + 1) = Suc (unat q)"
  by (simp add: unat_add_no_overflow)

lemma history_wf_push:
  assumes wf: "history_wf s ty e" and push: "storage_push_attestation_history s ty att e = (Ok u, t)"
  shows "history_wf s ty t"
proof -
  let ?n = "storage_get_attestation_seq s ty e"
  have bound: "unat ?n + 1 < 2 ^ 64"
    using push by (auto simp: push_attestation_history_Ok_iff)
  have seq: "storage_get_attestation_seq s ty t = ?n + 1"
    using push by (auto simp: push_attestation_history_Ok_iff storage_get_attestation_seq_def)
  have hist: "pers_AttestationHistory t =
      (pers_AttestationHistory e)((s, ty, ?n + 1) \<mapsto> history_entry (?n + 1) att)"
    using push by (auto simp: push_attestation_history_Ok_iff)
  have rng: "(0 < q \<and> q \<le> ?n + 1) = (q = ?n + 1 \<or> 0 < q \<and> q \<le> ?n)" for q
    using unat_next_seq [OF bound]
    by (auto simp: word_le_nat_alt word_less_nat_alt word_unat_eq_iff)
  show ?thesis
    using wf by (auto simp: history_wf_def seq hist rng history_entry_def)
qed

interpretation hist: append_log
  "history_wf s ty" "storage_get_attestation_seq s ty"
  "\<lambda>e q. pers_AttestationHistory e (s, ty, q)"
  "\<lambda>att e t. storage_push_attestation_history s ty att e = (Ok (), t)" history_entry
  for s ty
proof (unfold_locales, goal_cases)
  case (1 e q)
  then show ?case by (simp add: history_wf_def)
next
  case (2 e att t)
  then show ?case
    by (auto simp: push_attestation_history_Ok_iff storage_get_attestation_seq_def unat_next_seq)
next
  case (3 e att t)
  then show ?case
    by (auto simp: push_attestation_history_Ok_iff storage_get_attestation_seq_def)
next
  case (4 e att t)
  then show ?case by (rule history_wf_push)
qed

lemma history_at_read:
  "history_at s ty e = read_of (\<lambda>e q. pers_AttestationHistory e (s, ty, q)) e"
  by (rule ext) (simp add: history_at_def read_of_def)

lemmas history_log_push = hist.log_push [folded history_log_def]
lemmas history_log_length = hist.length_log [folded history_log_def]
lemmas history_page_forward = hist.page_forward [folded history_log_def history_at_read]
lemmas history_page_backward = hist.page_backward [folded history_log_def history_at_read]

text \<open>Reading a page when the history is well-formed, in each branch of the code.\<close>

lemma list_attestation_history_pages:
  assumes "history_wf s ty e"
    and "Suc (Suc (unat (storage_get_attestation_seq s ty e))) < 2 ^ 64"
  shows "storage_list_attestation_history s ty start limit rev_order e =
     (if limit = 0 then Err InvalidPagination
      else if unat start > length (history_log s ty e) then Ok []
      else if rev_order then Ok (take (unat limit) (rev (take (unat start) (history_log s ty e))))
      else if start = 0
        then Ok (take (unat limit - 1) (history_log s ty e))
      else Ok (take (unat limit) (drop (unat start - 1) (history_log s ty e))))"
proof -
  let ?n = "storage_get_attestation_seq s ty e"
  have len: "length (history_log s ty e) = unat ?n" by (rule history_log_length)
  have at0: "history_at s ty e 0 = []"
    using assms(1) by (auto simp: history_at_def history_wf_def split: option.split)
  have fwd0: "limit \<noteq> 0 \<Longrightarrow> history_forward (history_at s ty e) ?n (unat limit) 0 =
      Some (take (unat limit - Suc 0) (history_log s ty e))"
    using history_page_forward [OF assms(1) _ _ assms(2), of 1 "unat limit - 1"] at0
    by (cases "unat limit") (auto simp: unat_eq_zero checked_add_def)
  have empty: "?n = 0 \<Longrightarrow> history_log s ty e = []"
    using len by (simp flip: length_0_conv)
  show ?thesis
    using fwd0 empty
    by (auto simp: storage_list_attestation_history_def Let_def len word_less_nat_alt
        history_page_forward [OF assms(1) _ _ assms(2)] history_page_backward [OF assms(1)]
        unat_gt_0 not_less)
qed

end
