(* ===== verification/Multisig.thy ===== *)
theory Multisig
  imports Storage
begin

text \<open>
  Multi-signature governance (\<open>src/multisig.rs\<close>) and the schema-version bookkeeping
  (\<open>src/migrations.rs\<close>). A count of signers or signatures is a natural number: the
  source's \<open>u32\<close> counters count the elements of a vector whose length is a \<open>u32\<close>.
\<close>

unbundle bit_operations_syntax

section \<open>Operations\<close>

definition hash_message :: "u64 \<Rightarrow> u8 list \<Rightarrow> u8 list" where
  "hash_message nonce operation =
     [ucast nonce, ucast (drop_bit 8 nonce), ucast (drop_bit 16 nonce), ucast (drop_bit 24 nonce),
      ucast (drop_bit 32 nonce), ucast (drop_bit 40 nonce), ucast (drop_bit 48 nonce),
      ucast (drop_bit 56 nonce)] @ operation"

text \<open>The double loop that compares every pair \<open>i < j\<close>.\<close>

fun has_duplicate :: "'a list \<Rightarrow> bool" where
  "has_duplicate [] = False"
| "has_duplicate (x # xs) = (list_ex (\<lambda>y. x = y) xs \<or> has_duplicate xs)"

definition is_authorized_signer :: "MultiSigConfig \<Rightarrow> Address \<Rightarrow> bool" where
  "is_authorized_signer config signer = list_ex (\<lambda>s. s = signer) (ms_signers config)"

text \<open>
  The signature loop: each signature must be 65 bytes long, and the loop returns as soon
  as the threshold is met.
\<close>

fun count_signatures :: "nat \<Rightarrow> nat \<Rightarrow> u8 list list \<Rightarrow> (Error, unit) outcome" where
  "count_signatures threshold valid_count [] =
     (if valid_count \<ge> threshold then Ok () else Err InsufficientSignatures)"
| "count_signatures threshold valid_count (signature # rest) =
     (if length signature = 65
      then if valid_count + 1 \<ge> threshold then Ok ()
           else count_signatures threshold (valid_count + 1) rest
      else Err InvalidSignature)"

definition verify_multisig :: "u8 list \<Rightarrow> SignatureInfo \<Rightarrow> unit contract_op" where
  "verify_multisig msg_hash sig_info =
     bindS storage_get_multisig_config (\<lambda>config.
       if length (si_signers sig_info) \<noteq> length (si_signatures sig_info)
       then failS InvalidSignature
       else if length (si_signers sig_info) < unat (ms_threshold config)
       then failS InsufficientSignatures
       else if has_duplicate (si_signers sig_info) then failS DuplicateSigner
       else if list_ex (\<lambda>signer. \<not> is_authorized_signer config signer) (si_signers sig_info)
       then failS SignerNotFound
       else (\<lambda>e. (count_signatures (unat (ms_threshold config)) 0 (si_signatures sig_info), e)))"

definition multisig_initialize_multisig :: "Address list \<Rightarrow> u32 \<Rightarrow> unit contract_op" where
  "multisig_initialize_multisig signers threshold =
     (if length signers = 0 then failS EmptySignerList
      else if threshold = 0 \<or> unat threshold > length signers then failS InvalidThreshold
      else if has_duplicate signers then failS DuplicateSigner
      else modifyS (storage_set_multisig_config
             \<lparr>ms_signers = signers, ms_threshold = threshold, ms_nonce = 0\<rparr>))"

definition increment_nonce :: "unit contract_op" where
  "increment_nonce =
     bindS storage_get_multisig_config (\<lambda>config.
     modifyS (storage_set_multisig_config
       (config\<lparr>ms_nonce := saturating_add (ms_nonce config) 1\<rparr>)))"

definition multisig_get_multisig_config :: "(Address list \<times> u32) contract_op" where
  "multisig_get_multisig_config =
     bindS storage_get_multisig_config (\<lambda>config. retS (ms_signers config, ms_threshold config))"

definition multisig_rotate_signers :: "Address list \<Rightarrow> u32 \<Rightarrow> unit contract_op" where
  "multisig_rotate_signers new_signers new_threshold =
     (if length new_signers = 0 then failS EmptySignerList
      else if new_threshold = 0 \<or> unat new_threshold > length new_signers then failS InvalidThreshold
      else if has_duplicate new_signers then failS DuplicateSigner
      else bindS storage_get_multisig_config (\<lambda>config.
           modifyS (storage_set_multisig_config
             (config\<lparr>ms_signers := new_signers, ms_threshold := new_threshold,
                     ms_nonce := saturating_add (ms_nonce config) 1\<rparr>))))"

section \<open>Schema versions\<close>

definition CURRENT_SCHEMA_VERSION :: u32 where "CURRENT_SCHEMA_VERSION = 1"

text \<open>
  \<open>storage::get_schema_version(env)?\<close> applies \<open>?\<close> to an \<open>Option\<close> inside a function that
  returns a \<open>Result\<close>; what an absent version gives there is the parameter \<open>absent\<close>.
\<close>

definition run_pending_migrations :: "unit contract_op \<Rightarrow> unit contract_op" where
  "run_pending_migrations absent e =
     (case storage_get_schema_version e of
        None \<Rightarrow> absent e
      | Some stored_version \<Rightarrow>
          if stored_version = CURRENT_SCHEMA_VERSION then (Ok (), e)
          else if stored_version > CURRENT_SCHEMA_VERSION then (Err Unauthorized, e)
          else if stored_version = 1 then (Ok (), e)
          else (Err Unauthorized, e))"

definition migrations_get_schema_version :: "u32 contract_op" where
  "migrations_get_schema_version e =
     (case storage_get_schema_version e of
        None \<Rightarrow> (Ok CURRENT_SCHEMA_VERSION, e) | Some v \<Rightarrow> (Ok v, e))"

definition migrations_set_schema_version :: "u32 \<Rightarrow> unit contract_op" where
  "migrations_set_schema_version version = modifyS (storage_set_schema_version version)"

section \<open>Facts\<close>

lemma has_duplicate_iff: "has_duplicate xs \<longleftrightarrow> \<not> distinct xs"
  by (induction xs) (auto simp: list_ex_iff)

lemma is_authorized_signer_iff: "is_authorized_signer c a \<longleftrightarrow> a \<in> set (ms_signers c)"
  by (auto simp: is_authorized_signer_def list_ex_iff)

lemma get_multisig_config_Ok_iff:
  "storage_get_multisig_config e = (Ok c, t) \<longleftrightarrow> inst_MultiSigConfig e = Some c \<and> t = e"
  by (auto simp: storage_get_multisig_config_def split: option.splits)

text \<open>A governance configuration that the code accepts.\<close>

definition valid_config :: "MultiSigConfig \<Rightarrow> bool" where
  "valid_config c \<longleftrightarrow> ms_signers c \<noteq> [] \<and> distinct (ms_signers c) \<and>
     0 < ms_threshold c \<and> unat (ms_threshold c) \<le> length (ms_signers c)"

lemma initialize_multisig_Ok_iff:
  "multisig_initialize_multisig signers threshold e = (Ok u, t) \<longleftrightarrow>
     (\<exists>c. c = \<lparr>ms_signers = signers, ms_threshold = threshold, ms_nonce = 0\<rparr> \<and> valid_config c \<and>
          t = e\<lparr>inst_MultiSigConfig := Some c\<rparr>)"
  by (auto simp: multisig_initialize_multisig_def valid_config_def has_duplicate_iff failS_def
      modifyS_def storage_set_multisig_config_def word_neq_0_conv)

lemma rotate_signers_Ok_iff:
  "multisig_rotate_signers signers threshold e = (Ok u, t) \<longleftrightarrow>
     (\<exists>c c'. inst_MultiSigConfig e = Some c \<and>
        c' = c\<lparr>ms_signers := signers, ms_threshold := threshold,
               ms_nonce := saturating_add (ms_nonce c) 1\<rparr> \<and>
        valid_config c' \<and> t = e\<lparr>inst_MultiSigConfig := Some c'\<rparr>)"
  by (auto simp: multisig_rotate_signers_def valid_config_def has_duplicate_iff failS_def
      modifyS_def storage_set_multisig_config_def word_neq_0_conv bindS_Ok_iff
      get_multisig_config_Ok_iff)

lemma count_signatures_Ok_iff:
  "valid < threshold \<Longrightarrow> count_signatures threshold valid sigs = Ok u \<longleftrightarrow>
     threshold - valid \<le> length sigs \<and>
     list_all (\<lambda>s. length s = 65) (take (threshold - valid) sigs)"
proof (induction threshold valid sigs rule: count_signatures.induct)
  case (1 threshold valid)
  then show ?case by auto
next
  case (2 threshold valid sig rest)
  show ?case
  proof (cases "valid + 1 \<ge> threshold")
    case True
    with "2.prems" have "threshold - valid = 1" by simp
    with True show ?thesis by simp
  next
    case False
    then have "threshold - valid = Suc (threshold - (valid + 1))" by simp
    with False "2.IH" show ?thesis by auto
  qed
qed

lemma verify_multisig_Ok_iff:
  assumes "inst_MultiSigConfig e = Some c" and "valid_config c"
  shows "verify_multisig msg si e = (Ok (), e) \<longleftrightarrow>
     length (si_signers si) = length (si_signatures si) \<and>
     unat (ms_threshold c) \<le> length (si_signers si) \<and>
     distinct (si_signers si) \<and> set (si_signers si) \<subseteq> set (ms_signers c) \<and>
     list_all (\<lambda>s. length s = 65) (take (unat (ms_threshold c)) (si_signatures si))"
proof -
  have "0 < unat (ms_threshold c)"
    using assms(2) by (simp add: valid_config_def unat_gt_0 word_neq_0_conv)
  then show ?thesis
    using assms(1)
    by (auto simp: verify_multisig_def bindS_def storage_get_multisig_config_def failS_def
        has_duplicate_iff is_authorized_signer_iff list_ex_iff count_signatures_Ok_iff)
qed

lemma hash_message_inj:
  "hash_message n op = hash_message n' op' \<longleftrightarrow> n = n' \<and> op = op'"
proof
  assume "hash_message n op = hash_message n' op'"
  then have bytes: "(ucast (drop_bit k n) :: u8) = ucast (drop_bit k n')"
    if "k \<in> {0, 8, 16, 24, 32, 40, 48, 56}" for k
    using that by (auto simp: hash_message_def)
  have "bit n i = bit n' i" if "i < 64" for i
  proof -
    have "8 * (i div 8) \<in> {0, 8, 16, 24, 32, 40, 48, 56}"
    proof -
      have "i div 8 < 8" using that by simp
      then show ?thesis by auto
    qed
    then have "bit (ucast (drop_bit (8 * (i div 8)) n) :: u8) (i mod 8) =
        bit (ucast (drop_bit (8 * (i div 8)) n') :: u8) (i mod 8)"
      by (simp only: bytes)
    then show ?thesis by (simp add: bit_ucast_iff bit_drop_bit_eq)
  qed
  then have "n = n'" by (intro bit_word_eqI) simp
  with \<open>hash_message n op = hash_message n' op'\<close> show "n = n' \<and> op = op'"
    by (simp add: hash_message_def)
qed simp

end
