(* ===== verification/Contract.thy ===== *)
theory Contract
  imports Multisig
begin

text \<open>
  The entry points of the contract (\<open>src/contract.rs\<close>), one definition per method in
  the order of the source, each with all its guards and every call that changes state.
  A method that cannot fail and reads only is a function of the environment.
\<close>

definition MAX_ATTESTATION_TYPE_LEN :: nat where "MAX_ATTESTATION_TYPE_LEN = 24"

definition validate_attestation_type :: "Symbol \<Rightarrow> unit contract_op" where
  "validate_attestation_type attestation_type =
     (if length attestation_type > MAX_ATTESTATION_TYPE_LEN then failS AttestationTypeTooLong
      else retS ())"

section \<open>Administration\<close>

definition initialize :: "Address \<Rightarrow> unit contract_op" where
  "initialize admin =
     bindS (getS storage_is_initialized) (\<lambda>inited.
       if inited then failS AlreadyInitialized
       else
         bindS (require_auth admin) (\<lambda>_.
         bindS (modifyS (storage_set_admin admin)) (\<lambda>_.
         bindS (modifyS (storage_set_paused False)) (\<lambda>_.
         modifyS (ev_initialized admin)))))"

definition get_admin :: "Address contract_op" where
  "get_admin = storage_get_admin"

definition set_admin :: "Address \<Rightarrow> unit contract_op" where
  "set_admin new_admin =
     bindS storage_get_admin (\<lambda>current.
     bindS (require_auth current) (\<lambda>_.
     bindS (modifyS (storage_set_admin new_admin)) (\<lambda>_.
     modifyS (ev_admin_changed current new_admin))))"

definition is_paused :: "bool contract_op" where
  "is_paused =
     bindS (getS storage_is_initialized) (\<lambda>inited.
       if \<not> inited then failS NotInitialized else getS storage_is_paused)"

definition pause :: "unit contract_op" where
  "pause =
     bindS storage_get_admin (\<lambda>admin.
     bindS (require_auth admin) (\<lambda>_.
     bindS (modifyS (storage_set_paused True)) (\<lambda>_.
     modifyS (ev_pause_toggled True))))"

definition unpause :: "unit contract_op" where
  "unpause =
     bindS storage_get_admin (\<lambda>admin.
     bindS (require_auth admin) (\<lambda>_.
     bindS (modifyS (storage_set_paused False)) (\<lambda>_.
     modifyS (ev_pause_toggled False))))"

section \<open>The attestor allow-list\<close>

definition add_attestor :: "Address \<Rightarrow> unit contract_op" where
  "add_attestor attestor =
     bindS storage_get_admin (\<lambda>admin.
     bindS (require_auth admin) (\<lambda>_.
     bindS (getS (storage_is_attestor attestor)) (\<lambda>registered.
       if registered then failS AttestorAlreadyRegistered
       else
         bindS (modifyS (storage_set_attestor attestor True)) (\<lambda>_.
         modifyS (ev_attestor_added attestor)))))"

definition remove_attestor :: "Address \<Rightarrow> unit contract_op" where
  "remove_attestor attestor =
     bindS storage_get_admin (\<lambda>admin.
     bindS (require_auth admin) (\<lambda>_.
     bindS (getS (storage_is_attestor attestor)) (\<lambda>registered.
       if \<not> registered then failS AttestorNotRegistered
       else
         bindS (modifyS (storage_set_attestor attestor False)) (\<lambda>_.
         modifyS (ev_attestor_removed attestor)))))"

definition is_attestor :: "Address \<Rightarrow> env \<Rightarrow> bool" where
  "is_attestor = storage_is_attestor"

definition renew_attestor :: "Address \<Rightarrow> unit contract_op" where
  "renew_attestor attestor =
     bindS storage_get_admin (\<lambda>admin.
     bindS (require_auth admin) (\<lambda>_.
     bindS (getS (storage_is_attestor attestor)) (\<lambda>registered.
       if \<not> registered then failS AttestorNotRegistered
       else
         bindS (modifyS (storage_set_attestor attestor True)) (\<lambda>_.
         modifyS (ev_attestor_renewed attestor)))))"

section \<open>TTL limits\<close>

definition set_default_max_attestation_ttl :: "u64 \<Rightarrow> unit contract_op" where
  "set_default_max_attestation_ttl max_ttl_seconds =
     bindS storage_get_admin (\<lambda>admin.
     bindS (require_auth admin) (\<lambda>_.
       if max_ttl_seconds = 0 then failS InvalidExpiration
       else
         bindS (modifyS (storage_set_default_max_attestation_ttl max_ttl_seconds)) (\<lambda>_.
         modifyS (ev_default_max_attestation_ttl_changed max_ttl_seconds))))"

definition set_max_attestation_ttl :: "Symbol \<Rightarrow> u64 \<Rightarrow> unit contract_op" where
  "set_max_attestation_ttl attestation_type max_ttl_seconds =
     bindS storage_get_admin (\<lambda>admin.
     bindS (require_auth admin) (\<lambda>_.
       if max_ttl_seconds = 0 then failS InvalidExpiration
       else
         bindS (modifyS (storage_set_max_attestation_ttl attestation_type max_ttl_seconds)) (\<lambda>_.
         modifyS (ev_max_attestation_ttl_changed attestation_type max_ttl_seconds))))"

definition get_max_attestation_ttl :: "Symbol \<Rightarrow> env \<Rightarrow> u64" where
  "get_max_attestation_ttl = storage_get_max_attestation_ttl"

section \<open>Attesting\<close>

definition record_attestation ::
  "Address \<Rightarrow> Address \<Rightarrow> Symbol \<Rightarrow> Bytes32 \<Rightarrow> u64 \<Rightarrow> unit contract_op" where
  "record_attestation attestor subject attestation_type payload_hash ttl_seconds =
     (if ttl_seconds = 0 then failS InvalidExpiration
      else
        bindS (validate_attestation_type attestation_type) (\<lambda>_.
        bindS (getS (storage_get_max_attestation_ttl attestation_type)) (\<lambda>max_ttl.
          if ttl_seconds > max_ttl then failS ExceedsMaxTtl
          else
            bindS (getS ledger_timestamp) (\<lambda>issued_at.
              let expires_at = saturating_add issued_at ttl_seconds;
                  attestation =
                    \<lparr>att_attestor = attestor, att_subject = subject,
                     att_attestation_type = attestation_type, att_payload_hash = payload_hash,
                     att_issued_at = issued_at, att_expires_at = expires_at, att_status = Active\<rparr>
              in bindS (modifyS (storage_set_attestation subject attestation_type attestation)) (\<lambda>_.
                 bindS (storage_push_attestation_history subject attestation_type attestation) (\<lambda>_.
                 bindS storage_bump_attestation_count (\<lambda>_.
                 modifyS (ev_attested attestor subject attestation_type payload_hash expires_at))))))))"

definition attest ::
  "Address \<Rightarrow> Address \<Rightarrow> Symbol \<Rightarrow> Bytes32 \<Rightarrow> u64 \<Rightarrow> unit contract_op" where
  "attest attestor subject attestation_type payload_hash ttl_seconds =
     bindS (getS storage_is_paused) (\<lambda>paused.
       if paused then failS ContractPaused
       else
         bindS (require_auth attestor) (\<lambda>_.
         bindS (getS (storage_is_attestor attestor)) (\<lambda>registered.
           if \<not> registered then failS AttestorNotRegistered
           else record_attestation attestor subject attestation_type payload_hash ttl_seconds)))"

text \<open>The two loops of \<open>attest_batch\<close>: validate every entry, then record every entry.\<close>

fun validate_batch :: "BatchAttestEntry list \<Rightarrow> unit contract_op" where
  "validate_batch [] = retS ()"
| "validate_batch (entry # entries) =
     (if be_ttl_seconds entry = 0 then failS InvalidExpiration
      else
        bindS (validate_attestation_type (be_attestation_type entry)) (\<lambda>_.
        validate_batch entries))"

fun record_batch :: "Address \<Rightarrow> BatchAttestEntry list \<Rightarrow> unit contract_op" where
  "record_batch attestor [] = retS ()"
| "record_batch attestor (entry # entries) =
     bindS (record_attestation attestor (be_subject entry) (be_attestation_type entry)
              (be_payload_hash entry) (be_ttl_seconds entry)) (\<lambda>_.
     record_batch attestor entries)"

definition attest_batch :: "Address \<Rightarrow> BatchAttestEntry list \<Rightarrow> unit contract_op" where
  "attest_batch attestor entries =
     bindS (getS storage_is_paused) (\<lambda>paused.
       if paused then failS ContractPaused
       else
         bindS (require_auth attestor) (\<lambda>_.
         bindS (getS (storage_is_attestor attestor)) (\<lambda>registered.
           if \<not> registered then failS AttestorNotRegistered
           else if entries = [] then failS EmptyBatch
           else
             bindS (validate_batch entries) (\<lambda>_.
             record_batch attestor entries))))"

definition get_attestation :: "Address \<Rightarrow> Symbol \<Rightarrow> Attestation contract_op" where
  "get_attestation subject attestation_type e =
     (case storage_get_attestation subject attestation_type e of
        None \<Rightarrow> (Err AttestationNotFound, e) | Some a \<Rightarrow> (Ok a, e))"

definition is_valid :: "Address \<Rightarrow> Symbol \<Rightarrow> env \<Rightarrow> bool" where
  "is_valid subject attestation_type e =
     (case storage_get_attestation subject attestation_type e of
        Some a \<Rightarrow> att_status a = Active \<and> ledger_timestamp e < att_expires_at a
      | None \<Rightarrow> False)"

section \<open>Revoking and renewing\<close>

definition revoke :: "Address \<Rightarrow> Address \<Rightarrow> Symbol \<Rightarrow> unit contract_op" where
  "revoke caller subject attestation_type =
     bindS (getS storage_is_paused) (\<lambda>paused.
       if paused then failS ContractPaused
       else
         bindS (require_auth caller) (\<lambda>_.
         bindS (get_attestation subject attestation_type) (\<lambda>attestation.
         bindS storage_get_admin (\<lambda>admin.
           if caller \<noteq> admin \<and> caller \<noteq> att_attestor attestation then failS Unauthorized
           else if att_status attestation = Revoked then failS AttestationAlreadyRevoked
           else
             let attestation = attestation\<lparr>att_status := Revoked\<rparr>
             in bindS (modifyS (storage_set_attestation subject attestation_type attestation)) (\<lambda>_.
                bindS (storage_push_attestation_history subject attestation_type attestation) (\<lambda>_.
                modifyS (ev_revoked subject attestation_type caller)))))))"

definition renew_attestation :: "Address \<Rightarrow> Address \<Rightarrow> Symbol \<Rightarrow> unit contract_op" where
  "renew_attestation caller subject attestation_type =
     bindS (require_auth caller) (\<lambda>_.
     bindS (get_attestation subject attestation_type) (\<lambda>attestation.
     bindS storage_get_admin (\<lambda>admin.
       if caller \<noteq> admin \<and> caller \<noteq> att_attestor attestation then failS Unauthorized
       else
         bindS (modifyS (storage_set_attestation subject attestation_type attestation)) (\<lambda>_.
         modifyS (ev_attestation_renewed subject attestation_type caller)))))"

definition get_attestation_count :: "env \<Rightarrow> u64" where
  "get_attestation_count = storage_get_attestation_count"

definition list_attestation_history ::
  "Address \<Rightarrow> Symbol \<Rightarrow> u64 \<Rightarrow> u32 \<Rightarrow> bool \<Rightarrow> env \<Rightarrow> (Error, HistoryEntry list) outcome" where
  "list_attestation_history = storage_list_attestation_history"

section \<open>Governance\<close>

definition initialize_multisig :: "Address list \<Rightarrow> u32 \<Rightarrow> unit contract_op" where
  "initialize_multisig signers threshold =
     bindS (getS (\<lambda>e. storage_is_initialized e \<and> storage_has_multisig_config e)) (\<lambda>configured.
       if configured then failS AlreadyInitialized
       else multisig_initialize_multisig signers threshold)"

definition get_multisig_config :: "(Address list \<times> u32) contract_op" where
  "get_multisig_config = multisig_get_multisig_config"

text \<open>
  The count of \<open>rotate_signers\<close>: for every signer named in \<open>sig_info\<close>, one more if it is
  among the current signers.
\<close>

fun count_valid_signers :: "Address list \<Rightarrow> Address list \<Rightarrow> nat" where
  "count_valid_signers current [] = 0"
| "count_valid_signers current (signer # rest) =
     (if list_ex (\<lambda>s. s = signer) current then 1 else 0) + count_valid_signers current rest"

definition rotate_signers :: "Address list \<Rightarrow> u32 \<Rightarrow> SignatureInfo \<Rightarrow> unit contract_op" where
  "rotate_signers new_signers new_threshold sig_info =
     bindS storage_get_multisig_config (\<lambda>current_config.
       if count_valid_signers (ms_signers current_config) (si_signers sig_info)
            < unat (ms_threshold current_config)
       then failS InsufficientSignatures
       else
         bindS (multisig_rotate_signers new_signers new_threshold) (\<lambda>_.
         modifyS (ev_signers_rotated new_threshold)))"

end
