(* ===== verification/Contract_Facts.thy ===== *)
theory Contract_Facts
  imports Contract
begin

text \<open>
  What each entry point does when it succeeds, as an equivalence between the successful
  outcome and the guards together with the environment left behind, and the contract
  shared by the admin-only methods, stated once as the locale \<open>admin_gated\<close> and
  interpreted on the eight methods that have it.
\<close>

section \<open>The admin gate\<close>

text \<open>
  A method is admin-gated when it starts by reading the admin and requiring its
  authorisation; \<open>body\<close> is the rest of the method, given the admin.
\<close>

locale admin_gated =
  fixes entry :: "unit contract_op"
    and body :: "Address \<Rightarrow> unit contract_op"
  assumes gate: "entry =
    bindS storage_get_admin (\<lambda>admin. bindS (require_auth admin) (\<lambda>_. body admin))"
begin

lemma uninitialized: "inst_Admin e = None \<Longrightarrow> entry e = (Err NotInitialized, e)"
  by (simp add: gate bindS_def storage_get_admin_def)

lemma unauthorized: "inst_Admin e = Some a \<Longrightarrow> \<not> authorized e a \<Longrightarrow> entry e = (Panic, e)"
  by (simp add: gate bindS_def storage_get_admin_def require_auth_def)

lemma authorized_runs: "inst_Admin e = Some a \<Longrightarrow> authorized e a \<Longrightarrow> entry e = body a e"
  by (simp add: gate bindS_def storage_get_admin_def require_auth_def)

lemma succeeds_iff:
  "entry e = (Ok u, t) \<longleftrightarrow> (\<exists>a. inst_Admin e = Some a \<and> authorized e a \<and> body a e = (Ok u, t))"
  by (auto simp: gate bindS_Ok_iff storage_get_admin_def require_auth_Ok_iff split: option.splits)

lemma state_changes_only_as_admin:
  "snd (entry e) \<noteq> e \<Longrightarrow> \<exists>a. inst_Admin e = Some a \<and> authorized e a"
  by (cases "inst_Admin e") (auto simp: uninitialized dest: unauthorized)

end

interpretation set_admin_gate: admin_gated "set_admin new_admin"
  "\<lambda>current. bindS (modifyS (storage_set_admin new_admin)) (\<lambda>_.
     modifyS (ev_admin_changed current new_admin))" for new_admin
  by unfold_locales (simp add: set_admin_def)

interpretation pause_gate: admin_gated pause
  "\<lambda>_. bindS (modifyS (storage_set_paused True)) (\<lambda>_. modifyS (ev_pause_toggled True))"
  by unfold_locales (simp add: pause_def)

interpretation unpause_gate: admin_gated unpause
  "\<lambda>_. bindS (modifyS (storage_set_paused False)) (\<lambda>_. modifyS (ev_pause_toggled False))"
  by unfold_locales (simp add: unpause_def)

interpretation add_attestor_gate: admin_gated "add_attestor attestor"
  "\<lambda>_. bindS (getS (storage_is_attestor attestor)) (\<lambda>registered.
     if registered then failS AttestorAlreadyRegistered
     else bindS (modifyS (storage_set_attestor attestor True)) (\<lambda>_.
          modifyS (ev_attestor_added attestor)))" for attestor
  by unfold_locales (simp add: add_attestor_def)

interpretation remove_attestor_gate: admin_gated "remove_attestor attestor"
  "\<lambda>_. bindS (getS (storage_is_attestor attestor)) (\<lambda>registered.
     if \<not> registered then failS AttestorNotRegistered
     else bindS (modifyS (storage_set_attestor attestor False)) (\<lambda>_.
          modifyS (ev_attestor_removed attestor)))" for attestor
  by unfold_locales (simp add: remove_attestor_def)

interpretation renew_attestor_gate: admin_gated "renew_attestor attestor"
  "\<lambda>_. bindS (getS (storage_is_attestor attestor)) (\<lambda>registered.
     if \<not> registered then failS AttestorNotRegistered
     else bindS (modifyS (storage_set_attestor attestor True)) (\<lambda>_.
          modifyS (ev_attestor_renewed attestor)))" for attestor
  by unfold_locales (simp add: renew_attestor_def)

interpretation default_ttl_gate: admin_gated "set_default_max_attestation_ttl m"
  "\<lambda>_. if m = 0 then failS InvalidExpiration
     else bindS (modifyS (storage_set_default_max_attestation_ttl m)) (\<lambda>_.
          modifyS (ev_default_max_attestation_ttl_changed m))" for m
  by unfold_locales (simp add: set_default_max_attestation_ttl_def)

interpretation max_ttl_gate: admin_gated "set_max_attestation_ttl ty m"
  "\<lambda>_. if m = 0 then failS InvalidExpiration
     else bindS (modifyS (storage_set_max_attestation_ttl ty m)) (\<lambda>_.
          modifyS (ev_max_attestation_ttl_changed ty m))" for ty m
  by unfold_locales (simp add: set_max_attestation_ttl_def)

section \<open>Successful administration\<close>

abbreviation admin_authorized :: "env \<Rightarrow> bool" where
  "admin_authorized e \<equiv> \<exists>a. inst_Admin e = Some a \<and> authorized e a"

lemmas admin_op_simps =
  failS_def modifyS_def event_defs storage_set_admin_def storage_set_paused_def
  storage_set_attestor_def storage_set_default_max_attestation_ttl_def
  storage_set_max_attestation_ttl_def extend_ttl_def

lemma initialize_Ok_iff:
  "initialize admin e = (Ok u, t) \<longleftrightarrow>
     inst_Admin e = None \<and> authorized e admin \<and>
     t = e\<lparr>inst_Admin := Some admin, inst_Paused := Some False,
           published := published e @ [InitializedEv admin]\<rparr>"
  by (auto simp: initialize_def require_auth_bind storage_is_initialized_def admin_op_simps)

lemma set_admin_Ok_iff:
  "set_admin new_admin e = (Ok u, t) \<longleftrightarrow>
     (\<exists>a. inst_Admin e = Some a \<and> authorized e a \<and>
        t = e\<lparr>inst_Admin := Some new_admin,
              published := published e @ [AdminChangedEv a new_admin]\<rparr>)"
  by (auto simp: set_admin_gate.succeeds_iff admin_op_simps)

lemma pause_Ok_iff:
  "pause e = (Ok u, t) \<longleftrightarrow>
     admin_authorized e \<and>
     t = e\<lparr>inst_Paused := Some True, published := published e @ [PauseToggledEv True]\<rparr>"
  by (auto simp: pause_gate.succeeds_iff admin_op_simps)

lemma unpause_Ok_iff:
  "unpause e = (Ok u, t) \<longleftrightarrow>
     admin_authorized e \<and>
     t = e\<lparr>inst_Paused := Some False, published := published e @ [PauseToggledEv False]\<rparr>"
  by (auto simp: unpause_gate.succeeds_iff admin_op_simps)

lemma add_attestor_Ok_iff:
  "add_attestor a e = (Ok u, t) \<longleftrightarrow>
     admin_authorized e \<and> \<not> storage_is_attestor a e \<and>
     t = e\<lparr>pers_Attestor := (pers_Attestor e)(a \<mapsto> True),
           ttl_bumps := ttl_bumps e @ [(Attestor a, ATTESTOR_TTL_THRESHOLD, ATTESTOR_TTL_EXTEND_TO)],
           published := published e @ [AttestorAddedEv a]\<rparr>"
  by (auto simp: add_attestor_gate.succeeds_iff admin_op_simps)

lemma remove_attestor_Ok_iff:
  "remove_attestor a e = (Ok u, t) \<longleftrightarrow>
     admin_authorized e \<and> storage_is_attestor a e \<and>
     t = e\<lparr>pers_Attestor := (pers_Attestor e)(a := None),
           published := published e @ [AttestorRemovedEv a]\<rparr>"
  by (auto simp: remove_attestor_gate.succeeds_iff admin_op_simps)

lemma renew_attestor_Ok_iff:
  "renew_attestor a e = (Ok u, t) \<longleftrightarrow>
     admin_authorized e \<and> storage_is_attestor a e \<and>
     t = e\<lparr>pers_Attestor := (pers_Attestor e)(a \<mapsto> True),
           ttl_bumps := ttl_bumps e @ [(Attestor a, ATTESTOR_TTL_THRESHOLD, ATTESTOR_TTL_EXTEND_TO)],
           published := published e @ [AttestorRenewedEv a]\<rparr>"
  by (auto simp: renew_attestor_gate.succeeds_iff admin_op_simps)

lemma set_default_max_attestation_ttl_Ok_iff:
  "set_default_max_attestation_ttl m e = (Ok u, t) \<longleftrightarrow>
     admin_authorized e \<and> m \<noteq> 0 \<and>
     t = e\<lparr>inst_DefaultMaxAttestationTtl := Some m,
           published := published e @ [DefaultMaxAttestationTtlChangedEv m]\<rparr>"
  by (auto simp: default_ttl_gate.succeeds_iff admin_op_simps)

lemma set_max_attestation_ttl_Ok_iff:
  "set_max_attestation_ttl ty m e = (Ok u, t) \<longleftrightarrow>
     admin_authorized e \<and> m \<noteq> 0 \<and>
     t = e\<lparr>inst_MaxAttestationTtl := (inst_MaxAttestationTtl e)(ty \<mapsto> m),
           published := published e @ [MaxAttestationTtlChangedEv ty m]\<rparr>"
  by (auto simp: max_ttl_gate.succeeds_iff admin_op_simps)

section \<open>Successful attesting, revoking and renewing\<close>

text \<open>
  \<open>rent_window\<close> is the window requested for an attestation at the current time,
  \<open>stored\<close> the environment after \<open>set_attestation\<close> followed by \<open>push_attestation_history\<close>,
  and \<open>new_attestation\<close> the record \<open>attest\<close> writes.
\<close>

definition rent_window :: "Attestation \<Rightarrow> env \<Rightarrow> u32 \<times> u32" where
  "rent_window att e = attestation_ttl_window (saturating_sub (att_expires_at att) (ledger_timestamp e))"

definition next_seq :: "Address \<Rightarrow> Symbol \<Rightarrow> env \<Rightarrow> u64" where
  "next_seq s ty e = storage_get_attestation_seq s ty e + 1"

definition stored :: "Address \<Rightarrow> Symbol \<Rightarrow> Attestation \<Rightarrow> env \<Rightarrow> env" where
  "stored s ty att e =
     e\<lparr>pers_Attestation := (pers_Attestation e)((s, ty) \<mapsto> att),
       pers_AttestationSeq := (pers_AttestationSeq e)((s, ty) \<mapsto> next_seq s ty e),
       pers_AttestationHistory :=
         (pers_AttestationHistory e)((s, ty, next_seq s ty e) \<mapsto> history_entry (next_seq s ty e) att),
       ttl_bumps := ttl_bumps e @
         [(AttestationKey s ty, rent_window att e),
          (AttestationHistory s ty (next_seq s ty e), rent_window att e)]\<rparr>"

definition new_attestation ::
  "Address \<Rightarrow> Address \<Rightarrow> Symbol \<Rightarrow> Bytes32 \<Rightarrow> u64 \<Rightarrow> env \<Rightarrow> Attestation" where
  "new_attestation attestor subject ty payload_hash ttl e =
     \<lparr>att_attestor = attestor, att_subject = subject, att_attestation_type = ty,
      att_payload_hash = payload_hash, att_issued_at = ledger_timestamp e,
      att_expires_at = saturating_add (ledger_timestamp e) ttl, att_status = Active\<rparr>"

text \<open>The two counters the code increments under overflow checks have room.\<close>

definition seq_room :: "Address \<Rightarrow> Symbol \<Rightarrow> env \<Rightarrow> bool" where
  "seq_room s ty e \<longleftrightarrow> unat (storage_get_attestation_seq s ty e) + 1 < 2 ^ 64"

definition count_room :: "env \<Rightarrow> bool" where
  "count_room e \<longleftrightarrow> unat (storage_get_attestation_count e) + 1 < 2 ^ 64"

lemma set_then_push:
  "bindS (storage_push_attestation_history s ty att) f (storage_set_attestation s ty att e) =
   (if seq_room s ty e then f () (stored s ty att e)
    else (Panic, storage_set_attestation s ty att e))"
  by (auto simp: bindS_def modifyS_def storage_set_attestation_def
      storage_push_attestation_history_def storage_next_attestation_seq_def extend_ttl_def
      checked_add_def stored_def seq_room_def next_seq_def rent_window_def Let_def
      storage_get_attestation_seq_def split: prod.splits option.splits)

lemma bump_attestation_count_bind:
  "bindS storage_bump_attestation_count f e =
     (if count_room e
      then f (storage_get_attestation_count e + 1)
             (e\<lparr>inst_AttestationCount := Some (storage_get_attestation_count e + 1)\<rparr>)
      else (Panic, e))"
  by (simp add: bindS_def storage_bump_attestation_count_def checked_add_def count_room_def)

lemma not_Revoked_iff [simp]: "st \<noteq> Revoked \<longleftrightarrow> st = Active"
  by (cases st) simp_all

lemma stored_fields [simp]:
  "pers_Attestation (stored s ty att e) = (pers_Attestation e)((s, ty) \<mapsto> att)"
  "pers_AttestationHistory (stored s ty att e) =
     (pers_AttestationHistory e)((s, ty, next_seq s ty e) \<mapsto> history_entry (next_seq s ty e) att)"
  "inst_Admin (stored s ty att e) = inst_Admin e"
  "inst_Paused (stored s ty att e) = inst_Paused e"
  "inst_MultiSigConfig (stored s ty att e) = inst_MultiSigConfig e"
  "inst_MaxAttestationTtl (stored s ty att e) = inst_MaxAttestationTtl e"
  "inst_DefaultMaxAttestationTtl (stored s ty att e) = inst_DefaultMaxAttestationTtl e"
  "pers_Attestor (stored s ty att e) = pers_Attestor e"
  "ledger_timestamp (stored s ty att e) = ledger_timestamp e"
  "authorized (stored s ty att e) = authorized e"
  by (simp_all add: stored_def)

lemma count_stored [simp]:
  "storage_get_attestation_count (stored s ty att e) = storage_get_attestation_count e"
  "count_room (stored s ty att e) = count_room e"
  "published (stored s ty att e) = published e"
  by (simp_all add: stored_def storage_get_attestation_count_def count_room_def)

definition recorded ::
  "Address \<Rightarrow> Address \<Rightarrow> Symbol \<Rightarrow> Bytes32 \<Rightarrow> u64 \<Rightarrow> env \<Rightarrow> env" where
  "recorded attestor subject ty payload_hash ttl e =
     (stored subject ty (new_attestation attestor subject ty payload_hash ttl e) e)
       \<lparr>inst_AttestationCount := Some (storage_get_attestation_count e + 1),
        published := published e @
          [AttestedEv subject ty attestor payload_hash (saturating_add (ledger_timestamp e) ttl)]\<rparr>"

lemma record_attestation_Ok_iff:
  "record_attestation attestor subject ty payload_hash ttl e = (Ok u, t) \<longleftrightarrow>
     ttl \<noteq> 0 \<and> length ty \<le> 24 \<and> ttl \<le> storage_get_max_attestation_ttl ty e \<and>
     seq_room subject ty e \<and> count_room e \<and>
     t = recorded attestor subject ty payload_hash ttl e"
  by (auto simp: record_attestation_def validate_attestation_type_def MAX_ATTESTATION_TYPE_LEN_def
      failS_def set_then_push bump_attestation_count_bind modifyS_def event_defs recorded_def
      new_attestation_def Let_def)

lemma attest_Ok_iff:
  "attest attestor subject ty payload_hash ttl e = (Ok u, t) \<longleftrightarrow>
     \<not> storage_is_paused e \<and> authorized e attestor \<and> storage_is_attestor attestor e \<and>
     record_attestation attestor subject ty payload_hash ttl e = (Ok u, t)"
  by (auto simp: attest_def require_auth_bind failS_def)

lemma get_attestation_bind:
  "bindS (get_attestation s ty) f e =
     (case pers_Attestation e (s, ty) of None \<Rightarrow> (Err AttestationNotFound, e) | Some a \<Rightarrow> f a e)"
  by (simp add: bindS_def get_attestation_def storage_get_attestation_def split: option.splits)

lemma get_admin_bind:
  "bindS storage_get_admin f e =
     (case inst_Admin e of None \<Rightarrow> (Err NotInitialized, e) | Some a \<Rightarrow> f a e)"
  by (simp add: bindS_def storage_get_admin_def split: option.splits)

lemma revoke_Ok_iff:
  "revoke caller s ty e = (Ok u, t) \<longleftrightarrow>
     \<not> storage_is_paused e \<and> authorized e caller \<and> seq_room s ty e \<and>
     (\<exists>att admin. pers_Attestation e (s, ty) = Some att \<and> inst_Admin e = Some admin \<and>
        (caller = admin \<or> caller = att_attestor att) \<and> att_status att = Active \<and>
        t = (stored s ty (att\<lparr>att_status := Revoked\<rparr>) e)
              \<lparr>published := published e @ [RevokedEv s ty caller]\<rparr>)"
  by (auto simp: revoke_def require_auth_bind failS_def get_attestation_bind get_admin_bind
      set_then_push modifyS_def event_defs Let_def split: option.splits)

lemma renew_attestation_Ok_iff:
  "renew_attestation caller s ty e = (Ok u, t) \<longleftrightarrow>
     authorized e caller \<and>
     (\<exists>att admin. pers_Attestation e (s, ty) = Some att \<and> inst_Admin e = Some admin \<and>
        (caller = admin \<or> caller = att_attestor att) \<and>
        t = e\<lparr>ttl_bumps := ttl_bumps e @
                 [(AttestationKey s ty, rent_window att e)],
              published := published e @ [AttestationRenewedEv s ty caller]\<rparr>)"
  by (auto simp: renew_attestation_def require_auth_bind failS_def get_attestation_bind
      get_admin_bind modifyS_def event_defs storage_set_attestation_def extend_ttl_def
      rent_window_def Let_def map_upd_triv fun_upd_idem split: option.splits prod.splits)

lemma validate_batch_Ok_iff:
  "validate_batch entries e = (Ok u, t) \<longleftrightarrow>
     list_all (\<lambda>b. be_ttl_seconds b \<noteq> 0 \<and> length (be_attestation_type b) \<le> 24) entries \<and> t = e"
  by (induction entries)
    (auto simp: retS_def failS_def validate_attestation_type_def MAX_ATTESTATION_TYPE_LEN_def
      bindS_Ok_iff)

lemma attest_batch_Ok_iff:
  "attest_batch attestor entries e = (Ok u, t) \<longleftrightarrow>
     \<not> storage_is_paused e \<and> authorized e attestor \<and> storage_is_attestor attestor e \<and>
     entries \<noteq> [] \<and> validate_batch entries e = (Ok (), e) \<and>
     record_batch attestor entries e = (Ok u, t)"
  by (auto simp: attest_batch_def require_auth_bind failS_def bindS_Ok_iff validate_batch_Ok_iff)

lemma initialize_multisig_entry_Ok_iff:
  "initialize_multisig signers threshold e = (Ok u, t) \<longleftrightarrow>
     (inst_Admin e = None \<or> inst_MultiSigConfig e = None) \<and>
     multisig_initialize_multisig signers threshold e = (Ok u, t)"
  by (auto simp: initialize_multisig_def failS_def storage_is_initialized_def
      storage_has_multisig_config_def)

lemma get_multisig_config_bind:
  "bindS storage_get_multisig_config f e =
     (case inst_MultiSigConfig e of None \<Rightarrow> (Err NotInitialized, e) | Some c \<Rightarrow> f c e)"
  by (simp add: bindS_def storage_get_multisig_config_def split: option.splits)

lemma rotate_signers_entry_Ok_iff:
  "rotate_signers signers threshold si e = (Ok u, t) \<longleftrightarrow>
     (\<exists>c c'. inst_MultiSigConfig e = Some c \<and>
        unat (ms_threshold c) \<le> count_valid_signers (ms_signers c) (si_signers si) \<and>
        c' = c\<lparr>ms_signers := signers, ms_threshold := threshold,
               ms_nonce := saturating_add (ms_nonce c) 1\<rparr> \<and>
        valid_config c' \<and>
        t = e\<lparr>inst_MultiSigConfig := Some c',
              published := published e @ [SignersRotatedEv threshold]\<rparr>)"
  by (auto simp: rotate_signers_def get_multisig_config_bind failS_def bindS_Ok_iff
      rotate_signers_Ok_iff modifyS_def event_defs split: option.splits)

lemma count_valid_signers_filter:
  "count_valid_signers cur ss = length (filter (\<lambda>s. s \<in> set cur) ss)"
  by (induction ss) (auto simp: list_ex_iff)


end
