(* ===== verification/Contract_Machine.thy ===== *)
theory Contract_Machine
  imports Contract_Facts "HOL-Library.Sublist"
begin

text \<open>
  The contract as a state machine over the ledger: a step is a successful call of a
  state-changing entry point, the clock moving forward, or a new invocation carrying other
  authorisations. A call that returns an error or traps is discarded by the host with
  everything it wrote, so it is no step. The theory gives the well-formedness invariant of
  the storage and shows that every step keeps it, then the frame facts the security
  properties rest on.
\<close>

section \<open>Calls and steps\<close>

datatype call =
    Initialize Address | SetAdmin Address | Pause | Unpause
  | AddAttestor Address | RemoveAttestor Address | RenewAttestor Address
  | SetDefaultMaxTtl u64 | SetMaxTtl Symbol u64
  | Attest Address Address Symbol Bytes32 u64
  | AttestBatch Address "BatchAttestEntry list"
  | Revoke Address Address Symbol | RenewAttestation Address Address Symbol
  | InitializeMultisig "Address list" u32
  | RotateSigners "Address list" u32 SignatureInfo

fun run_call :: "call \<Rightarrow> unit contract_op" where
  "run_call (Initialize admin) = initialize admin"
| "run_call (SetAdmin new_admin) = set_admin new_admin"
| "run_call Pause = pause"
| "run_call Unpause = unpause"
| "run_call (AddAttestor a) = add_attestor a"
| "run_call (RemoveAttestor a) = remove_attestor a"
| "run_call (RenewAttestor a) = renew_attestor a"
| "run_call (SetDefaultMaxTtl m) = set_default_max_attestation_ttl m"
| "run_call (SetMaxTtl ty m) = set_max_attestation_ttl ty m"
| "run_call (Attest a s ty h ttl) = attest a s ty h ttl"
| "run_call (AttestBatch a entries) = attest_batch a entries"
| "run_call (Revoke c s ty) = revoke c s ty"
| "run_call (RenewAttestation c s ty) = renew_attestation c s ty"
| "run_call (InitializeMultisig signers threshold) = initialize_multisig signers threshold"
| "run_call (RotateSigners signers threshold si) = rotate_signers signers threshold si"

inductive contract_step :: "env \<Rightarrow> env \<Rightarrow> bool" where
  invoke: "run_call c e = (Ok (), t) \<Longrightarrow> contract_step e t"
| tick: "ledger_timestamp e \<le> now \<Longrightarrow> contract_step e (e\<lparr>ledger_timestamp := now\<rparr>)"
| sign: "contract_step e (e\<lparr>authorized := auths\<rparr>)"

text \<open>A freshly deployed instance: nothing stored, nothing published, any time and authorisations.\<close>

definition fresh :: "env \<Rightarrow> bool" where
  "fresh e \<longleftrightarrow> (\<exists>now auths. e = empty_env\<lparr>ledger_timestamp := now, authorized := auths\<rparr>)"

section \<open>The storage invariant\<close>

text \<open>
  \<open>latest_wf\<close>: a pair has a current attestation exactly when it has a history; the current
  attestation is filed under its own subject and type, respects the length cap, does not
  expire before it was issued, and is what the newest history entry records.
\<close>

definition latest_wf :: "Address \<Rightarrow> Symbol \<Rightarrow> env \<Rightarrow> bool" where
  "latest_wf s ty e \<longleftrightarrow>
     (case pers_Attestation e (s, ty) of
        None \<Rightarrow> storage_get_attestation_seq s ty e = 0
      | Some a \<Rightarrow>
          0 < storage_get_attestation_seq s ty e \<and>
          att_subject a = s \<and> att_attestation_type a = ty \<and> length ty \<le> 24 \<and>
          att_issued_at a \<le> att_expires_at a \<and>
          pers_AttestationHistory e (s, ty, storage_get_attestation_seq s ty e) =
            Some (history_entry (storage_get_attestation_seq s ty e) a))"

fun is_attested_event :: "Event \<Rightarrow> bool" where
  "is_attested_event (AttestedEv _ _ _ _ _) = True"
| "is_attested_event _ = False"

definition count_wf :: "env \<Rightarrow> bool" where
  "count_wf e \<longleftrightarrow>
     unat (storage_get_attestation_count e) = length (filter is_attested_event (published e))"

definition settings_wf :: "env \<Rightarrow> bool" where
  "settings_wf e \<longleftrightarrow>
     (inst_Admin e \<noteq> None \<longrightarrow> inst_Paused e \<noteq> None) \<and>
     (\<forall>c. inst_MultiSigConfig e = Some c \<longrightarrow> valid_config c) \<and>
     (\<forall>ty. inst_MaxAttestationTtl e ty \<noteq> Some 0) \<and>
     inst_DefaultMaxAttestationTtl e \<noteq> Some 0"

definition contract_inv :: "env \<Rightarrow> bool" where
  "contract_inv e \<longleftrightarrow>
     (\<forall>s ty. history_wf s ty e) \<and> (\<forall>s ty. latest_wf s ty e) \<and> count_wf e \<and> settings_wf e"

lemma max_ttl_positive: "settings_wf e \<Longrightarrow> storage_get_max_attestation_ttl ty e \<noteq> 0"
  by (auto simp: settings_wf_def storage_get_max_attestation_ttl_def
      DEFAULT_MAX_ATTESTATION_TTL_SECONDS_def split: option.splits)

lemmas inv_defs = contract_inv_def history_wf_def latest_wf_def count_wf_def settings_wf_def
  storage_get_attestation_seq_def storage_get_attestation_count_def

section \<open>Storing an attestation\<close>

lemma push_after_set:
  "seq_room s ty e \<Longrightarrow>
     storage_push_attestation_history s ty att (storage_set_attestation s ty att e) =
       (Ok (), stored s ty att e)"
  using set_then_push [of s ty att "retS" e] by (auto simp: bindS_def retS_def seq_room_def
      push_attestation_history_Ok_iff split: prod.splits outcome.splits)

lemma set_attestation_frame [simp]:
  "pers_AttestationHistory (storage_set_attestation s ty att e) = pers_AttestationHistory e"
  "storage_get_attestation_seq s' ty' (storage_set_attestation s ty att e) =
     storage_get_attestation_seq s' ty' e"
  "history_wf s' ty' (storage_set_attestation s ty att e) = history_wf s' ty' e"
  by (auto simp: storage_set_attestation_def extend_ttl_def storage_get_attestation_seq_def
      history_wf_def split: prod.splits)

lemma seq_stored:
  "storage_get_attestation_seq s' ty' (stored s ty att e) =
     (if (s', ty') = (s, ty) then next_seq s ty e else storage_get_attestation_seq s' ty' e)"
  by (auto simp: stored_def storage_get_attestation_seq_def)

lemma history_wf_stored:
  assumes "history_wf s' ty' e" and "seq_room s ty e"
  shows "history_wf s' ty' (stored s ty att e)"
proof (cases "(s', ty') = (s, ty)")
  case True
  then show ?thesis
    using assms history_wf_push [OF _ push_after_set [OF assms(2)]] by simp
next
  case False
  then show ?thesis
    using assms(1) by (auto simp: history_wf_def seq_stored)
qed

lemma history_log_stored:
  assumes "history_wf s ty e" and "seq_room s ty e"
  shows "history_log s' ty' (stored s ty att e) =
     (if (s', ty') = (s, ty) then history_log s ty e @ [history_entry (next_seq s ty e) att]
      else history_log s' ty' e)"
proof (cases "(s', ty') = (s, ty)")
  case True
  have "history_log s ty (storage_set_attestation s ty att e) = history_log s ty e"
    by (simp add: history_log_def log_of_def)
  with True show ?thesis
    using history_log_push [OF _ push_after_set [OF assms(2)]] assms(1)
    by (simp add: seq_stored)
next
  case False
  then show ?thesis
    by (auto simp: history_log_def log_of_def seq_stored)
qed

lemma latest_wf_stored:
  assumes "latest_wf s' ty' e" and "seq_room s ty e" and "att_subject att = s"
    and "att_attestation_type att = ty" and "length ty \<le> 24"
    and "att_issued_at att \<le> att_expires_at att"
  shows "latest_wf s' ty' (stored s ty att e)"
proof (cases "(s', ty') = (s, ty)")
  case True
  have "0 < next_seq s ty e"
    using assms(2) by (simp add: next_seq_def seq_room_def word_less_nat_alt unat_next_seq)
  with True assms show ?thesis
    by (simp add: latest_wf_def seq_stored)
next
  case False
  then show ?thesis
    using assms(1) by (auto simp: latest_wf_def seq_stored split: option.splits)
qed

section \<open>Every step keeps the invariant\<close>

text \<open>Two environments agree on everything an attestation call writes.\<close>

definition same_attestations :: "env \<Rightarrow> env \<Rightarrow> bool" where
  "same_attestations e t \<longleftrightarrow>
     pers_Attestation t = pers_Attestation e \<and> pers_AttestationSeq t = pers_AttestationSeq e \<and>
     pers_AttestationHistory t = pers_AttestationHistory e \<and>
     inst_AttestationCount t = inst_AttestationCount e"

lemma same_attestations_obs:
  assumes "same_attestations e t"
  shows "storage_get_attestation_seq s ty t = storage_get_attestation_seq s ty e"
    and "storage_get_attestation_count t = storage_get_attestation_count e"
    and "history_wf s ty t = history_wf s ty e"
    and "latest_wf s ty t = latest_wf s ty e"
    and "history_log s ty t = history_log s ty e"
  using assms
  by (simp_all add: same_attestations_def inv_defs history_log_def log_of_def split: option.split)

lemma contract_inv_frame:
  assumes "contract_inv e" and "same_attestations e t" and "settings_wf t"
    and "filter is_attested_event (published t) = filter is_attested_event (published e)"
  shows "contract_inv t"
  using assms by (simp add: contract_inv_def same_attestations_obs count_wf_def)

lemma latest_attestation_facts:
  assumes "contract_inv e" and "pers_Attestation e (s, ty) = Some a"
  shows "att_subject a = s" and "att_attestation_type a = ty" and "length ty \<le> 24"
    and "att_issued_at a \<le> att_expires_at a"
proof -
  have "latest_wf s ty e" using assms(1) by (simp add: contract_inv_def)
  then show "att_subject a = s" and "att_attestation_type a = ty" and "length ty \<le> 24"
    and "att_issued_at a \<le> att_expires_at a"
    using assms(2) by (simp_all add: latest_wf_def)
qed

lemma inv_stored:
  assumes "contract_inv e" and "seq_room s ty e" and "att_subject att = s"
    and "att_attestation_type att = ty" and "length ty \<le> 24"
    and "att_issued_at att \<le> att_expires_at att"
  shows "(\<forall>s' ty'. history_wf s' ty' (stored s ty att e)) \<and>
     (\<forall>s' ty'. latest_wf s' ty' (stored s ty att e))"
  using assms by (auto simp: contract_inv_def intro: history_wf_stored latest_wf_stored)

lemma settings_wf_cong:
  "inst_Admin t = inst_Admin e \<Longrightarrow> inst_Paused t = inst_Paused e \<Longrightarrow>
   inst_MultiSigConfig t = inst_MultiSigConfig e \<Longrightarrow>
   inst_MaxAttestationTtl t = inst_MaxAttestationTtl e \<Longrightarrow>
   inst_DefaultMaxAttestationTtl t = inst_DefaultMaxAttestationTtl e \<Longrightarrow>
   settings_wf t = settings_wf e"
  by (simp add: settings_wf_def)

lemma wf_published [simp]:
  "history_wf s ty (e\<lparr>published := evs\<rparr>) = history_wf s ty e"
  "latest_wf s ty (e\<lparr>published := evs\<rparr>) = latest_wf s ty e"
  "history_wf s ty (e\<lparr>inst_AttestationCount := n\<rparr>) = history_wf s ty e"
  "latest_wf s ty (e\<lparr>inst_AttestationCount := n\<rparr>) = latest_wf s ty e"
  by (simp_all add: inv_defs cong: option.case_cong)

lemma inv_record_attestation:
  assumes "contract_inv e" and "record_attestation attestor s ty h ttl e = (Ok u, t)"
  shows "contract_inv t"
proof -
  let ?att = "new_attestation attestor s ty h ttl e"
  have ok: "seq_room s ty e" "count_room e" "length ty \<le> 24"
    and t: "t = recorded attestor s ty h ttl e"
    using assms(2) by (auto simp: record_attestation_Ok_iff)
  have "ledger_timestamp e \<le> saturating_add (ledger_timestamp e) ttl"
    using unat_u64_bound [of "ledger_timestamp e"] by (simp add: word_le_nat_alt unat_saturating_add)
  then have wf: "(\<forall>s' ty'. history_wf s' ty' (stored s ty ?att e)) \<and>
      (\<forall>s' ty'. latest_wf s' ty' (stored s ty ?att e))"
    using assms(1) ok by (intro inv_stored) (auto simp: new_attestation_def)
  have "unat (storage_get_attestation_count e + 1) = Suc (unat (storage_get_attestation_count e))"
    using ok(2) by (simp add: count_room_def unat_next_seq)
  then have "count_wf t"
    using assms(1) by (simp add: t recorded_def count_wf_def contract_inv_def
        storage_get_attestation_count_def)
  moreover have "settings_wf t"
    using assms(1) by (simp add: t recorded_def contract_inv_def cong: settings_wf_cong)
  ultimately show ?thesis
    using wf by (simp add: contract_inv_def t recorded_def)
qed

lemma inv_record_batch:
  "contract_inv e \<Longrightarrow> record_batch attestor entries e = (Ok u, t) \<Longrightarrow> contract_inv t"
proof (induction entries arbitrary: e)
  case Nil
  then show ?case by (simp add: retS_def)
next
  case (Cons b entries)
  then show ?case by (auto simp: bindS_Ok_iff dest: inv_record_attestation)
qed

lemma inv_revoke:
  assumes "contract_inv e" and "revoke caller s ty e = (Ok u, t)"
  shows "contract_inv t"
proof -
  obtain att where att: "pers_Attestation e (s, ty) = Some att" and room: "seq_room s ty e"
    and t: "t = (stored s ty (att\<lparr>att_status := Revoked\<rparr>) e)
              \<lparr>published := published e @ [RevokedEv s ty caller]\<rparr>"
    using assms(2) by (auto simp: revoke_Ok_iff)
  have "(\<forall>s' ty'. history_wf s' ty' (stored s ty (att\<lparr>att_status := Revoked\<rparr>) e)) \<and>
      (\<forall>s' ty'. latest_wf s' ty' (stored s ty (att\<lparr>att_status := Revoked\<rparr>) e))"
    using latest_attestation_facts [OF assms(1) att] assms(1) room by (intro inv_stored) auto
  moreover have "count_wf t"
    using assms(1) by (simp add: t count_wf_def contract_inv_def storage_get_attestation_count_def
        stored_def)
  moreover have "settings_wf t"
    using assms(1) by (simp add: t contract_inv_def cong: settings_wf_cong)
  ultimately show ?thesis by (simp add: contract_inv_def t)
qed

lemmas call_Ok_iffs =
  initialize_Ok_iff set_admin_Ok_iff pause_Ok_iff unpause_Ok_iff add_attestor_Ok_iff
  remove_attestor_Ok_iff renew_attestor_Ok_iff set_default_max_attestation_ttl_Ok_iff
  set_max_attestation_ttl_Ok_iff renew_attestation_Ok_iff initialize_multisig_entry_Ok_iff
  initialize_multisig_Ok_iff rotate_signers_entry_Ok_iff

text \<open>The calls that touch no attestation.\<close>

fun attestation_call :: "call \<Rightarrow> bool" where
  "attestation_call (Attest _ _ _ _ _) = True"
| "attestation_call (AttestBatch _ _) = True"
| "attestation_call (Revoke _ _ _) = True"
| "attestation_call _ = False"

lemma other_call_same_attestations:
  "\<not> attestation_call c \<Longrightarrow> run_call c e = (Ok (), t) \<Longrightarrow>
     same_attestations e t \<and>
     filter is_attested_event (published t) = filter is_attested_event (published e)"
  by (cases c) (auto simp: call_Ok_iffs same_attestations_def)

lemma other_call_settings_wf:
  "\<not> attestation_call c \<Longrightarrow> run_call c e = (Ok (), t) \<Longrightarrow> settings_wf e \<Longrightarrow> settings_wf t"
  by (cases c) (auto simp: call_Ok_iffs settings_wf_def)

lemma inv_call:
  assumes "contract_inv e" and "run_call c e = (Ok (), t)"
  shows "contract_inv t"
proof (cases "attestation_call c")
  case True
  then show ?thesis
    using assms
    by (cases c) (auto simp: attest_Ok_iff attest_batch_Ok_iff
        intro: inv_record_attestation inv_record_batch inv_revoke)
next
  case False
  have "settings_wf t"
    using assms(1) other_call_settings_wf [OF False assms(2)] by (simp add: contract_inv_def)
  then show ?thesis
    using contract_inv_frame [OF assms(1)] other_call_same_attestations [OF False assms(2)] by simp
qed

lemma fresh_inv: "fresh e \<Longrightarrow> contract_inv e"
  by (auto simp: fresh_def inv_defs empty_env_def)

interpretation contract: invariant_system fresh contract_step contract_inv
proof (unfold_locales, goal_cases)
  case (1 e)
  then show ?case by (rule fresh_inv)
next
  case (2 e t)
  from \<open>contract_step e t\<close> show ?case
  proof cases
    case (invoke c)
    then show ?thesis using \<open>contract_inv e\<close> by (auto intro: inv_call)
  next
    case (tick now)
    then show ?thesis using \<open>contract_inv e\<close> by (simp add: inv_defs cong: option.case_cong)
  next
    case (sign auths)
    then show ?thesis using \<open>contract_inv e\<close> by (simp add: inv_defs cong: option.case_cong)
  qed
qed

section \<open>What a step does to one pair\<close>

lemma history_log_frame [simp]:
  "history_log s ty (e\<lparr>published := evs\<rparr>) = history_log s ty e"
  "history_log s ty (e\<lparr>inst_AttestationCount := n\<rparr>) = history_log s ty e"
  "history_log s ty (e\<lparr>ledger_timestamp := now\<rparr>) = history_log s ty e"
  "history_log s ty (e\<lparr>authorized := auths\<rparr>) = history_log s ty e"
  by (simp_all add: history_log_def log_of_def storage_get_attestation_seq_def)

lemma recorded_fields [simp]:
  "history_log s' ty' (recorded a s ty h ttl e) =
     history_log s' ty' (stored s ty (new_attestation a s ty h ttl e) e)"
  "pers_Attestation (recorded a s ty h ttl e) =
     (pers_Attestation e)((s, ty) \<mapsto> new_attestation a s ty h ttl e)"
  "published (recorded a s ty h ttl e) =
     published e @ [AttestedEv s ty a h (saturating_add (ledger_timestamp e) ttl)]"
  "inst_Admin (recorded a s ty h ttl e) = inst_Admin e"
  "inst_Paused (recorded a s ty h ttl e) = inst_Paused e"
  "inst_MultiSigConfig (recorded a s ty h ttl e) = inst_MultiSigConfig e"
  "inst_MaxAttestationTtl (recorded a s ty h ttl e) = inst_MaxAttestationTtl e"
  "inst_DefaultMaxAttestationTtl (recorded a s ty h ttl e) = inst_DefaultMaxAttestationTtl e"
  "pers_Attestor (recorded a s ty h ttl e) = pers_Attestor e"
  "ledger_timestamp (recorded a s ty h ttl e) = ledger_timestamp e"
  "authorized (recorded a s ty h ttl e) = authorized e"
  "storage_get_attestation_count (recorded a s ty h ttl e) = storage_get_attestation_count e + 1"
  by (simp_all add: recorded_def storage_get_attestation_count_def)

lemma seq_recorded:
  "storage_get_attestation_seq s' ty' (recorded a s ty h ttl e) =
     (if (s', ty') = (s, ty) then next_seq s ty e else storage_get_attestation_seq s' ty' e)"
  using seq_stored [of s' ty' s ty "new_attestation a s ty h ttl e" e]
  by (simp add: recorded_def storage_get_attestation_seq_def)

lemma log_record_attestation:
  assumes "contract_inv e" and "record_attestation a s ty h ttl e = (Ok u, t)"
  shows "prefix (history_log s' ty' e) (history_log s' ty' t)"
  using assms by (auto simp: record_attestation_Ok_iff history_log_stored contract_inv_def)

lemma log_record_batch:
  "contract_inv e \<Longrightarrow> record_batch a entries e = (Ok u, t) \<Longrightarrow>
     prefix (history_log s' ty' e) (history_log s' ty' t)"
proof (induction entries arbitrary: e)
  case Nil
  then show ?case by (simp add: retS_def)
next
  case (Cons b entries)
  then obtain f where f: "record_attestation a (be_subject b) (be_attestation_type b)
      (be_payload_hash b) (be_ttl_seconds b) e = (Ok (), f)"
    and rest: "record_batch a entries f = (Ok u, t)"
    by (auto simp: bindS_Ok_iff)
  have "prefix (history_log s' ty' e) (history_log s' ty' f)"
    using Cons.prems(1) f by (rule log_record_attestation)
  also have "prefix (history_log s' ty' f) (history_log s' ty' t)"
    using inv_record_attestation [OF Cons.prems(1) f] rest by (rule Cons.IH)
  finally show ?case .
qed

lemma step_log_prefix:
  assumes inv: "contract_inv e" and step: "contract_step e t"
  shows "prefix (history_log s ty e) (history_log s ty t)"
  using step
proof cases
  case (invoke c)
  show ?thesis
  proof (cases "attestation_call c")
    case True
    then show ?thesis
      using inv invoke
      by (cases c) (auto simp: attest_Ok_iff attest_batch_Ok_iff revoke_Ok_iff contract_inv_def
          history_log_stored intro: log_record_attestation log_record_batch)
  next
    case False
    then show ?thesis
      using other_call_same_attestations [OF False invoke]
      by (simp add: same_attestations_obs(5) [of e t])
  qed
next
  case (tick now)
  then show ?thesis by simp
next
  case (sign auths)
  then show ?thesis by simp
qed

lemma steps_log_prefix:
  "contract_step\<^sup>*\<^sup>* e t \<Longrightarrow> contract_inv e \<Longrightarrow> prefix (history_log s ty e) (history_log s ty t)"
proof (induction rule: rtranclp_induct)
  case base
  then show ?case by simp
next
  case (step f t)
  then have "contract_inv f" using contract.steps_invar by blast
  then show ?case using step step_log_prefix prefix_order.trans by blast
qed

section \<open>What a batch does\<close>

lemma record_batch_facts:
  "record_batch a entries e = (Ok u, t) \<Longrightarrow>
     (\<exists>evs. published t = published e @ evs \<and> length evs = length entries \<and>
        (\<forall>s ty. pers_Attestation t (s, ty) \<noteq> pers_Attestation e (s, ty) \<longrightarrow>
           (\<exists>h x. AttestedEv s ty a h x \<in> set evs))) \<and>
     inst_Admin t = inst_Admin e \<and> inst_Paused t = inst_Paused e \<and>
     pers_Attestor t = pers_Attestor e \<and> authorized t = authorized e \<and>
     ledger_timestamp t = ledger_timestamp e \<and>
     inst_MaxAttestationTtl t = inst_MaxAttestationTtl e \<and>
     inst_DefaultMaxAttestationTtl t = inst_DefaultMaxAttestationTtl e \<and>
     inst_MultiSigConfig t = inst_MultiSigConfig e"
proof (induction entries arbitrary: e)
  case Nil
  then show ?case by (simp add: retS_def)
next
  case (Cons b entries)
  let ?f = "recorded a (be_subject b) (be_attestation_type b) (be_payload_hash b) (be_ttl_seconds b) e"
  let ?x = "saturating_add (ledger_timestamp e) (be_ttl_seconds b)"
  have "record_batch a entries ?f = (Ok u, t)"
    using Cons.prems by (auto simp: bindS_Ok_iff record_attestation_Ok_iff)
  from Cons.IH [OF this] obtain evs where
    evs: "published t = published ?f @ evs" "length evs = length entries"
      "\<forall>s ty. pers_Attestation t (s, ty) \<noteq> pers_Attestation ?f (s, ty) \<longrightarrow>
           (\<exists>h x. AttestedEv s ty a h x \<in> set evs)"
    and same: "inst_Admin t = inst_Admin e" "inst_Paused t = inst_Paused e"
      "pers_Attestor t = pers_Attestor e" "authorized t = authorized e"
      "ledger_timestamp t = ledger_timestamp e"
      "inst_MaxAttestationTtl t = inst_MaxAttestationTtl e"
      "inst_DefaultMaxAttestationTtl t = inst_DefaultMaxAttestationTtl e"
      "inst_MultiSigConfig t = inst_MultiSigConfig e"
    by auto
  let ?ev = "AttestedEv (be_subject b) (be_attestation_type b) a (be_payload_hash b) ?x"
  have "published t = published e @ ?ev # evs" using evs(1) by simp
  moreover have "\<forall>s ty. pers_Attestation t (s, ty) \<noteq> pers_Attestation e (s, ty) \<longrightarrow>
      (\<exists>h x. AttestedEv s ty a h x \<in> set (?ev # evs))"
  proof (intro allI impI)
    fix s ty
    assume changed: "pers_Attestation t (s, ty) \<noteq> pers_Attestation e (s, ty)"
    show "\<exists>h x. AttestedEv s ty a h x \<in> set (?ev # evs)"
    proof (cases "(s, ty) = (be_subject b, be_attestation_type b)")
      case True
      then show ?thesis by auto
    next
      case False
      then have "pers_Attestation ?f (s, ty) = pers_Attestation e (s, ty)" by auto
      then show ?thesis using evs(3) changed by (metis list.set_intros(2))
    qed
  qed
  ultimately show ?case using evs(2) same by (metis length_Cons)
qed

section \<open>What a step publishes and who may cause it\<close>

text \<open>The events a step appends to the stream.\<close>

definition new_events :: "env \<Rightarrow> env \<Rightarrow> Event list" where
  "new_events e t = drop (length (published e)) (published t)"

lemma new_events_append: "published t = published e @ evs \<Longrightarrow> new_events e t = evs"
  by (simp add: new_events_def)

lemma attest_published:
  "attest a s ty h ttl e = (Ok u, t) \<Longrightarrow> \<exists>evs. published t = published e @ evs"
  by (auto simp: attest_Ok_iff record_attestation_Ok_iff)

lemma batch_published:
  "attest_batch a entries e = (Ok u, t) \<Longrightarrow> \<exists>evs. published t = published e @ evs"
  by (auto simp: attest_batch_Ok_iff dest!: record_batch_facts)

lemma revoke_published:
  "revoke c s ty e = (Ok u, t) \<Longrightarrow> \<exists>evs. published t = published e @ evs"
  by (auto simp: revoke_Ok_iff)

lemma step_published:
  assumes "contract_step e t"
  shows "published t = published e @ new_events e t"
proof -
  have "\<exists>evs. published t = published e @ evs"
    using assms
  proof cases
    case (invoke c)
    then show ?thesis
      by (cases c) (auto simp: call_Ok_iffs intro: attest_published batch_published revoke_published)
  qed auto
  then show ?thesis by (auto simp: new_events_def)
qed

lemma steps_published:
  "contract_step\<^sup>*\<^sup>* e t \<Longrightarrow> published t = published e @ new_events e t"
proof (induction rule: rtranclp_induct)
  case base
  then show ?case by (simp add: new_events_def)
next
  case (step f t)
  have "published t = published f @ new_events f t" using step(2) by (rule step_published)
  then have "published t = published e @ (new_events e f @ new_events f t)"
    by (simp only: step.IH append_assoc)
  then show ?case using new_events_append by metis
qed

lemma new_events_trans:
  "contract_step\<^sup>*\<^sup>* e f \<Longrightarrow> contract_step f t \<Longrightarrow> new_events e t = new_events e f @ new_events f t"
proof -
  assume "contract_step\<^sup>*\<^sup>* e f" and "contract_step f t"
  then have "published t = (published e @ new_events e f) @ new_events f t"
    by (simp only: flip: steps_published step_published)
  then show ?thesis by (intro new_events_append) (simp only: append_assoc)
qed

text \<open>
  The three ways a step may touch the current attestation of a pair: not at all, by an
  authorised and registered attestor issuing one, or by marking the one there revoked.
\<close>

definition issued_by :: "Address \<Rightarrow> Symbol \<Rightarrow> Address \<Rightarrow> env \<Rightarrow> env \<Rightarrow> bool" where
  "issued_by s ty a e t \<longleftrightarrow>
     \<not> storage_is_paused e \<and> authorized e a \<and> storage_is_attestor a e \<and>
     (\<exists>h x. AttestedEv s ty a h x \<in> set (new_events e t))"

definition revoked_by :: "Address \<Rightarrow> Symbol \<Rightarrow> Address \<Rightarrow> env \<Rightarrow> env \<Rightarrow> bool" where
  "revoked_by s ty c e t \<longleftrightarrow>
     \<not> storage_is_paused e \<and> authorized e c \<and>
     (\<exists>att. pers_Attestation e (s, ty) = Some att \<and> att_status att = Active \<and>
        (inst_Admin e = Some c \<or> c = att_attestor att) \<and>
        pers_Attestation t (s, ty) = Some (att\<lparr>att_status := Revoked\<rparr>))"

lemma step_attestation_cases:
  assumes "contract_step e t"
    and changed: "pers_Attestation t (s, ty) \<noteq> pers_Attestation e (s, ty)"
  shows "(\<exists>a. issued_by s ty a e t) \<or> (\<exists>c. revoked_by s ty c e t)"
  using assms(1)
proof cases
  case (invoke c)
  show ?thesis
  proof (cases "attestation_call c")
    case False
    with invoke changed other_call_same_attestations [OF False] show ?thesis
      by (auto simp: same_attestations_def)
  next
    case True
    then show ?thesis
      using invoke changed
      by (cases c)
        (auto simp: attest_Ok_iff record_attestation_Ok_iff attest_batch_Ok_iff revoke_Ok_iff
          issued_by_def revoked_by_def new_events_def split: if_splits dest!: record_batch_facts)
  qed
next
  case (tick now)
  with changed show ?thesis by simp
next
  case (sign auths)
  with changed show ?thesis by simp
qed

lemma step_time_mono: "contract_step e t \<Longrightarrow> ledger_timestamp e \<le> ledger_timestamp t"
proof (induction rule: contract_step.induct)
  case (invoke c e t)
  then have "ledger_timestamp t = ledger_timestamp e"
    by (cases c) (auto simp: call_Ok_iffs attest_Ok_iff record_attestation_Ok_iff
        attest_batch_Ok_iff revoke_Ok_iff dest!: record_batch_facts)
  then show ?case by simp
qed simp_all

lemma step_validity:
  assumes "contract_step e t" and "is_valid s ty t" and "\<not> is_valid s ty e"
  shows "\<exists>a. issued_by s ty a e t"
proof -
  have "pers_Attestation t (s, ty) \<noteq> pers_Attestation e (s, ty)"
    using assms step_time_mono [OF assms(1)]
    by (auto simp: is_valid_def storage_get_attestation_def split: option.splits)
  then show ?thesis
    using step_attestation_cases [OF assms(1), of s ty] assms(2)
    by (auto simp: revoked_by_def is_valid_def storage_get_attestation_def)
qed

lemma steps_validity:
  "contract_step\<^sup>*\<^sup>* e t \<Longrightarrow> is_valid s ty t \<Longrightarrow> \<not> is_valid s ty e \<Longrightarrow>
     \<exists>a h x. AttestedEv s ty a h x \<in> set (new_events e t)"
proof (induction rule: rtranclp_induct)
  case base
  then show ?case by simp
next
  case (step f t)
  show ?case
  proof (cases "is_valid s ty f")
    case True
    then show ?thesis using step new_events_trans [of e f t] by auto
  next
    case False
    then show ?thesis
      using step_validity [OF step(2), of s ty] step new_events_trans [of e f t]
      by (fastforce simp: issued_by_def)
  qed
qed

section \<open>Who may change the settings\<close>

definition same_settings :: "env \<Rightarrow> env \<Rightarrow> bool" where
  "same_settings e t \<longleftrightarrow>
     inst_Admin t = inst_Admin e \<and> inst_Paused t = inst_Paused e \<and>
     pers_Attestor t = pers_Attestor e \<and> inst_MaxAttestationTtl t = inst_MaxAttestationTtl e \<and>
     inst_DefaultMaxAttestationTtl t = inst_DefaultMaxAttestationTtl e"

lemma attestation_call_same_settings:
  "attestation_call c \<Longrightarrow> run_call c e = (Ok (), t) \<Longrightarrow> same_settings e t"
  by (cases c) (auto simp: same_settings_def attest_Ok_iff record_attestation_Ok_iff
      attest_batch_Ok_iff revoke_Ok_iff dest!: record_batch_facts)

lemma other_call_settings:
  "\<not> attestation_call c \<Longrightarrow> run_call c e = (Ok (), t) \<Longrightarrow>
     same_settings e t \<or> admin_authorized e \<or>
     inst_Admin e = None \<and> (\<exists>a. authorized e a \<and> inst_Admin t = Some a)"
  by (cases c) (auto simp: call_Ok_iffs same_settings_def)

lemma step_settings:
  assumes "contract_step e t"
  shows "same_settings e t \<or> admin_authorized e \<or>
     inst_Admin e = None \<and> (\<exists>a. authorized e a \<and> inst_Admin t = Some a)"
  using assms
proof cases
  case (invoke c)
  then show ?thesis
    using attestation_call_same_settings [of c] other_call_settings [of c] by blast
qed (auto simp: same_settings_def)

lemma step_admin_kept:
  assumes "contract_step e t" and "inst_Admin e \<noteq> None"
  shows "inst_Admin t \<noteq> None"
  using assms(1)
proof cases
  case (invoke c)
  show ?thesis
  proof (cases "attestation_call c")
    case True
    then show ?thesis
      using attestation_call_same_settings [OF True invoke] assms(2) by (auto simp: same_settings_def)
  next
    case False
    then show ?thesis using invoke assms(2) by (cases c) (auto simp: call_Ok_iffs)
  qed
qed (use assms(2) in auto)

lemma steps_admin_kept: "contract_step\<^sup>*\<^sup>* e t \<Longrightarrow> inst_Admin e \<noteq> None \<Longrightarrow> inst_Admin t \<noteq> None"
  by (induction rule: rtranclp_induct) (auto dest: step_admin_kept)

end
