(* ===== verification/Contract_Properties.thy ===== *)
theory Contract_Properties
  imports Contract_Machine
begin

text \<open>
  The properties of the on-chain contract, with a small concrete run that the
  witnesses share: an instance initialised by \<open>admin\<close>, with the attestor \<open>anchor\<close>
  registered and one attestation about \<open>alice\<close> recorded.
\<close>

section \<open>A concrete run\<close>

definition demo_fresh :: env where
  "demo_fresh = empty_env\<lparr>ledger_timestamp := 1000, authorized := (\<lambda>_. True)\<rparr>"

definition demo_initialized :: env where
  "demo_initialized = snd (initialize ''admin'' demo_fresh)"

definition demo_registered :: env where
  "demo_registered = snd (add_attestor ''anchor'' demo_initialized)"

definition demo_attested :: env where
  "demo_attested = snd (attest ''anchor'' ''alice'' ''kyc'' 7 600 demo_registered)"

definition demo_paused :: env where
  "demo_paused = snd (pause demo_attested)"

lemma demo_initialize: "initialize ''admin'' demo_fresh = (Ok (), demo_initialized)"
proof -
  have "\<exists>t. initialize ''admin'' demo_fresh = (Ok (), t)"
    by (simp add: initialize_Ok_iff demo_fresh_def empty_env_def)
  then show ?thesis by (auto simp: demo_initialized_def)
qed

lemma demo_initialized_eq:
  "demo_initialized = demo_fresh\<lparr>inst_Admin := Some ''admin'', inst_Paused := Some False,
     published := [InitializedEv ''admin'']\<rparr>"
  using demo_initialize by (simp add: initialize_Ok_iff demo_fresh_def empty_env_def)

lemma demo_add_attestor: "add_attestor ''anchor'' demo_initialized = (Ok (), demo_registered)"
proof -
  have "\<exists>t. add_attestor ''anchor'' demo_initialized = (Ok (), t)"
    by (simp add: add_attestor_Ok_iff demo_initialized_eq storage_is_attestor_def demo_fresh_def
        empty_env_def)
  then show ?thesis by (auto simp: demo_registered_def)
qed

lemma demo_registered_eq:
  "demo_registered = demo_initialized\<lparr>pers_Attestor := [''anchor'' \<mapsto> True],
     ttl_bumps := [(Attestor ''anchor'', ATTESTOR_TTL_THRESHOLD, ATTESTOR_TTL_EXTEND_TO)],
     published := [InitializedEv ''admin'', AttestorAddedEv ''anchor'']\<rparr>"
  using demo_add_attestor
  by (simp add: add_attestor_Ok_iff demo_initialized_eq demo_fresh_def empty_env_def)

lemmas demo_simps = demo_registered_eq demo_initialized_eq demo_fresh_def empty_env_def
  storage_is_paused_def storage_is_attestor_def storage_get_max_attestation_ttl_def
  DEFAULT_MAX_ATTESTATION_TTL_SECONDS_def seq_room_def count_room_def
  storage_get_attestation_seq_def storage_get_attestation_count_def

lemma demo_attest:
  "attest ''anchor'' ''alice'' ''kyc'' 7 600 demo_registered = (Ok (), demo_attested)"
proof -
  have "\<exists>t. attest ''anchor'' ''alice'' ''kyc'' 7 600 demo_registered = (Ok (), t)"
    by (simp add: attest_Ok_iff record_attestation_Ok_iff demo_simps)
  then show ?thesis by (auto simp: demo_attested_def)
qed

lemma demo_attested_eq:
  "demo_attested = recorded ''anchor'' ''alice'' ''kyc'' 7 600 demo_registered"
  using demo_attest by (simp add: attest_Ok_iff record_attestation_Ok_iff)

lemma demo_pause: "pause demo_attested = (Ok (), demo_paused)"
proof -
  have "\<exists>t. pause demo_attested = (Ok (), t)"
    by (simp add: pause_Ok_iff demo_attested_eq demo_simps)
  then show ?thesis by (auto simp: demo_paused_def)
qed

lemma demo_paused_eq:
  "demo_paused = demo_attested\<lparr>inst_Paused := Some True,
     published := published demo_attested @ [PauseToggledEv True]\<rparr>"
  using demo_pause by (simp add: pause_Ok_iff)

lemma demo_steps:
  "contract_step demo_fresh demo_initialized" "contract_step demo_initialized demo_registered"
  "contract_step demo_registered demo_attested" "contract_step demo_attested demo_paused"
  using contract_step.invoke [of "Initialize ''admin''"] demo_initialize
    contract_step.invoke [of "AddAttestor ''anchor''"] demo_add_attestor
    contract_step.invoke [of "Attest ''anchor'' ''alice'' ''kyc'' 7 600"] demo_attest
    contract_step.invoke [of Pause] demo_pause
  by simp_all

lemma demo_reach:
  "reach fresh contract_step demo_fresh" "reach fresh contract_step demo_initialized"
  "reach fresh contract_step demo_registered" "reach fresh contract_step demo_attested"
  "reach fresh contract_step demo_paused"
proof -
  have "fresh demo_fresh" by (auto simp: fresh_def demo_fresh_def)
  then show "reach fresh contract_step demo_fresh" by (rule reach.reach_init)
  then show "reach fresh contract_step demo_initialized" using demo_steps(1) by (rule reach.reach_step)
  then show "reach fresh contract_step demo_registered" using demo_steps(2) by (rule reach.reach_step)
  then show "reach fresh contract_step demo_attested" using demo_steps(3) by (rule reach.reach_step)
  then show "reach fresh contract_step demo_paused" using demo_steps(4) by (rule reach.reach_step)
qed

section \<open>Storage stays consistent\<close>

text \<open>
  C1. In every state the contract can reach, the storage is well-formed: each history
  holds exactly the entries numbered from 1 to its stored sequence number, each current
  attestation is the one its newest history entry records, the attestation count is the
  number of \<open>Attested\<close> events published, a stored governance configuration is valid, and
  no TTL limit is zero.
\<close>

theorem storage_invariant:
  assumes "reach fresh contract_step e"
  shows "contract_inv e"
  using assms by (rule contract.reach_invar)

theorem storage_invariant_witness:
  "contract_inv demo_attested"
  using storage_invariant [OF demo_reach(4)] .

text \<open>
  C5. The history of a (subject, type) pair is append-only: whatever calls succeed
  after a reachable state, what the history held then is a prefix of what it holds later.
\<close>

theorem history_append_only:
  assumes "reach fresh contract_step e" and "contract_step\<^sup>*\<^sup>* e t"
  shows "prefix (history_log s ty e) (history_log s ty t)"
  using assms contract.reach_invar steps_log_prefix by blast

theorem history_append_only_witness:
  "prefix (history_log ''alice'' ''kyc'' demo_attested) (history_log ''alice'' ''kyc'' demo_paused)"
  by (rule history_append_only [OF demo_reach(4)]) (simp add: demo_steps(4) r_into_rtranclp)

section \<open>Issuing\<close>

lemma reach_history_wf: "reach fresh contract_step e \<Longrightarrow> history_wf s ty e"
  using contract.reach_invar by (auto simp: contract_inv_def)

text \<open>
  C6. The outcome of \<open>attest\<close> in every case, in the order the code checks: a paused
  contract, a missing authorisation (a trap), an attestor off the allow-list, a zero TTL, a
  type name over 24 characters, a TTL over the limit; otherwise it succeeds, unless one of
  the two 64-bit counters is exhausted. Every reported error leaves the storage as it was.
\<close>

theorem attest_outcome:
  "fst (attest a s ty h ttl e) =
     (if storage_is_paused e then Err ContractPaused
      else if \<not> authorized e a then Panic
      else if \<not> storage_is_attestor a e then Err AttestorNotRegistered
      else if ttl = 0 then Err InvalidExpiration
      else if 24 < length ty then Err AttestationTypeTooLong
      else if storage_get_max_attestation_ttl ty e < ttl then Err ExceedsMaxTtl
      else if seq_room s ty e \<and> count_room e then Ok () else Panic) \<and>
   (case fst (attest a s ty h ttl e) of Err x \<Rightarrow> snd (attest a s ty h ttl e) = e | _ \<Rightarrow> True)"
  by (simp add: attest_def require_auth_bind record_attestation_def validate_attestation_type_def
      MAX_ATTESTATION_TYPE_LEN_def failS_def panicS_def set_then_push bump_attestation_count_bind
      modifyS_def Let_def)

text \<open>
  C8. What a successful \<open>attest\<close> leaves behind: the pair's current attestation is the one
  issued now by this attestor, it counts as valid exactly at the times before
  \<open>now + ttl\<close> (capped at the largest 64-bit time), every other pair is untouched, the
  pair's history grows by the new entry at its end, the total grows by one, and exactly one
  event is published.
\<close>

theorem attest_effect:
  assumes "reach fresh contract_step e" and "attest a s ty h ttl e = (Ok (), t)"
  shows "get_attestation s ty t = (Ok (new_attestation a s ty h ttl e), t) \<and>
     (is_valid s ty (t\<lparr>ledger_timestamp := now\<rparr>) \<longleftrightarrow>
        unat now < min (unat (ledger_timestamp e) + unat ttl) (2 ^ 64 - 1)) \<and>
     ((s', ty') \<noteq> (s, ty) \<longrightarrow>
        storage_get_attestation s' ty' t = storage_get_attestation s' ty' e \<and>
        history_log s' ty' t = history_log s' ty' e) \<and>
     history_log s ty t =
       history_log s ty e @ [history_entry (next_seq s ty e) (new_attestation a s ty h ttl e)] \<and>
     unat (get_attestation_count t) = Suc (unat (get_attestation_count e)) \<and>
     new_events e t = [AttestedEv s ty a h (saturating_add (ledger_timestamp e) ttl)]"
proof -
  have room: "seq_room s ty e" "count_room e" and t: "t = recorded a s ty h ttl e"
    using assms(2) by (auto simp: attest_Ok_iff record_attestation_Ok_iff)
  note log = history_log_stored [OF reach_history_wf [OF assms(1)] room(1)]
  have "is_valid s ty (t\<lparr>ledger_timestamp := now\<rparr>) \<longleftrightarrow>
      unat now < min (unat (ledger_timestamp e) + unat ttl) (2 ^ 64 - 1)"
    by (simp add: is_valid_def storage_get_attestation_def t new_attestation_def word_less_nat_alt
        unat_saturating_add)
  moreover have "unat (get_attestation_count t) = Suc (unat (get_attestation_count e))"
    using room(2) by (simp add: get_attestation_count_def t count_room_def unat_next_seq)
  ultimately show ?thesis
    by (auto simp: t get_attestation_def storage_get_attestation_def log new_events_def)
qed

theorem attest_effect_witness:
  "is_valid ''alice'' ''kyc'' (demo_attested\<lparr>ledger_timestamp := 1599\<rparr>) \<and>
   \<not> is_valid ''alice'' ''kyc'' (demo_attested\<lparr>ledger_timestamp := 1600\<rparr>)"
proof -
  note effect = attest_effect [OF demo_reach(3) demo_attest]
  have "is_valid ''alice'' ''kyc'' (demo_attested\<lparr>ledger_timestamp := 1599\<rparr>)"
    using effect [of 1599] by (simp add: demo_simps)
  moreover have "\<not> is_valid ''alice'' ''kyc'' (demo_attested\<lparr>ledger_timestamp := 1600\<rparr>)"
    using effect [of 1600] by (simp add: demo_simps)
  ultimately show ?thesis ..
qed

text \<open>
  C9. A batch is its entries issued one by one: \<open>attest_batch\<close> succeeds exactly when the
  batch is not empty and the same \<open>attest\<close> calls made in order all succeed, and it leaves
  the same state behind.
\<close>

fun attest_each :: "Address \<Rightarrow> BatchAttestEntry list \<Rightarrow> unit contract_op" where
  "attest_each a [] = retS ()"
| "attest_each a (b # bs) =
     bindS (attest a (be_subject b) (be_attestation_type b) (be_payload_hash b) (be_ttl_seconds b))
       (\<lambda>_. attest_each a bs)"

lemma guards_recorded [simp]:
  "storage_is_paused (recorded a s ty h ttl e) = storage_is_paused e"
  "storage_is_attestor b (recorded a s ty h ttl e) = storage_is_attestor b e"
  by (simp_all add: storage_is_paused_def storage_is_attestor_def)

lemma attest_each_Ok_iff:
  "attest_each a entries e = (Ok (), t) \<longleftrightarrow>
     (if entries = [] then t = e
      else \<not> storage_is_paused e \<and> authorized e a \<and> storage_is_attestor a e \<and>
           validate_batch entries e = (Ok (), e) \<and> record_batch a entries e = (Ok (), t))"
proof (induction entries arbitrary: e)
  case Nil
  then show ?case by (auto simp: retS_def)
next
  case (Cons b bs)
  show ?case
    by (cases "bs = []")
      (auto simp: bindS_Ok_iff attest_Ok_iff record_attestation_Ok_iff Cons.IH validate_batch_Ok_iff
        retS_def simp del: validate_batch.simps)
qed

theorem attest_batch_is_sequence:
  "attest_batch a entries e = (Ok (), t) \<longleftrightarrow>
     entries \<noteq> [] \<and> attest_each a entries e = (Ok (), t)"
  by (auto simp: attest_batch_Ok_iff attest_each_Ok_iff)

text \<open>
  A batch whose first entry can be recorded and whose second asks for more than the
  TTL limit passes the up-front validation of the whole batch, writes the first entry and
  only then reports \<open>ExceedsMaxTtl\<close>: that nothing remains of it rests on the host
  discarding the writes of a failed call, not on the validation pass.
\<close>

lemma batch_error_after_write:
  assumes "\<not> storage_is_paused e" and "authorized e a" and "storage_is_attestor a e"
    and "record_attestation a (be_subject b) (be_attestation_type b) (be_payload_hash b)
           (be_ttl_seconds b) e = (Ok (), t)"
    and "length (be_attestation_type c) \<le> 24"
    and "storage_get_max_attestation_ttl (be_attestation_type c) e < be_ttl_seconds c"
  shows "validate_batch [b, c] e = (Ok (), e) \<and>
     attest_batch a [b, c] e = (Err ExceedsMaxTtl, t) \<and>
     pers_Attestation t (be_subject b, be_attestation_type b) \<noteq> None"
proof -
  have t: "t = recorded a (be_subject b) (be_attestation_type b) (be_payload_hash b)
      (be_ttl_seconds b) e" and b: "be_ttl_seconds b \<noteq> 0" "length (be_attestation_type b) \<le> 24"
    using assms(4) by (auto simp: record_attestation_Ok_iff)
  have "be_ttl_seconds c \<noteq> 0" using assms(6) by auto
  then have val: "validate_batch [b, c] e = (Ok (), e)"
    using b assms(5) by (simp add: validate_batch_Ok_iff del: validate_batch.simps)
  have "storage_get_max_attestation_ttl (be_attestation_type c) t =
      storage_get_max_attestation_ttl (be_attestation_type c) e"
    by (simp add: t storage_get_max_attestation_ttl_def split: option.split)
  then have "record_attestation a (be_subject c) (be_attestation_type c) (be_payload_hash c)
      (be_ttl_seconds c) t = (Err ExceedsMaxTtl, t)"
    using assms(5,6) \<open>be_ttl_seconds c \<noteq> 0\<close>
    by (simp add: record_attestation_def validate_attestation_type_def MAX_ATTESTATION_TYPE_LEN_def
        failS_def)
  then have "record_batch a [b, c] e = (Err ExceedsMaxTtl, t)"
    using assms(4) by (simp add: bindS_branches)
  then have "attest_batch a [b, c] e = (Err ExceedsMaxTtl, t)"
    using assms(1-3) val by (simp add: attest_batch_def require_auth_bind bindS_branches
        del: validate_batch.simps record_batch.simps)
  then show ?thesis using val by (simp add: t del: validate_batch.simps)
qed

section \<open>Revoking and expiry\<close>

text \<open>
  C10. A successful \<open>revoke\<close> is made by the admin or by the attestor that issued the
  attestation, who authorised the call, while the contract is not paused; it changes
  nothing of the pair's attestation but its status, appends the revoked version to the
  history, and no time makes the pair valid again by itself.
\<close>

theorem revoke_effect:
  assumes "reach fresh contract_step e" and "revoke c s ty e = (Ok (), t)"
  shows "\<exists>att. storage_get_attestation s ty e = Some att \<and>
     authorized e c \<and> (inst_Admin e = Some c \<or> c = att_attestor att) \<and>
     \<not> storage_is_paused e \<and> att_status att = Active \<and>
     get_attestation s ty t = (Ok (att\<lparr>att_status := Revoked\<rparr>), t) \<and>
     history_log s ty t =
       history_log s ty e @ [history_entry (next_seq s ty e) (att\<lparr>att_status := Revoked\<rparr>)] \<and>
     (\<forall>s' ty'. (s', ty') \<noteq> (s, ty) \<longrightarrow>
        storage_get_attestation s' ty' t = storage_get_attestation s' ty' e) \<and>
     (\<forall>now. \<not> is_valid s ty (t\<lparr>ledger_timestamp := now\<rparr>)) \<and>
     get_attestation_count t = get_attestation_count e \<and> new_events e t = [RevokedEv s ty c]"
proof -
  obtain att where att: "pers_Attestation e (s, ty) = Some att" and room: "seq_room s ty e"
    and guards: "authorized e c" "inst_Admin e = Some c \<or> c = att_attestor att"
      "\<not> storage_is_paused e" "att_status att = Active"
    and t: "t = (stored s ty (att\<lparr>att_status := Revoked\<rparr>) e)
              \<lparr>published := published e @ [RevokedEv s ty c]\<rparr>"
    using assms(2) by (auto simp: revoke_Ok_iff)
  note log = history_log_stored [OF reach_history_wf [OF assms(1)] room]
  have "get_attestation_count t = get_attestation_count e"
    by (simp add: t get_attestation_count_def storage_get_attestation_count_def stored_def)
  then show ?thesis
    using att guards
    by (auto simp: t storage_get_attestation_def get_attestation_def log new_events_def is_valid_def)
qed

theorem revoke_effect_witness:
  "\<exists>t. revoke ''anchor'' ''alice'' ''kyc'' demo_attested = (Ok (), t) \<and> \<not> is_valid ''alice'' ''kyc'' t"
proof -
  obtain t where t: "revoke ''anchor'' ''alice'' ''kyc'' demo_attested = (Ok (), t)"
    by (auto simp: revoke_Ok_iff demo_attested_eq demo_simps recorded_def stored_def
        new_attestation_def next_seq_def)
  have "\<not> is_valid ''alice'' ''kyc'' (t\<lparr>ledger_timestamp := ledger_timestamp t\<rparr>)"
    using revoke_effect [OF demo_reach(4) t] by blast
  then show ?thesis using t by auto
qed

text \<open>
  C11. Validity has one source: if a pair is not valid and is valid after some run,
  then within that run there was a step, while the contract was not paused, in which an
  attestor on the allow-list that authorised the call issued an attestation for that pair.
  In particular neither time, nor the admin, nor renewing, nor any other call revives an
  expired or revoked attestation.
\<close>

lemma validity_step_in_run:
  "contract_step\<^sup>*\<^sup>* e t \<Longrightarrow> \<not> is_valid s ty e \<Longrightarrow> is_valid s ty t \<Longrightarrow>
     \<exists>f g a. contract_step\<^sup>*\<^sup>* e f \<and> contract_step f g \<and> contract_step\<^sup>*\<^sup>* g t \<and> issued_by s ty a f g"
proof (induction rule: converse_rtranclp_induct)
  case base
  then show ?case by simp
next
  case (step e f)
  show ?case
  proof (cases "is_valid s ty f")
    case True
    then show ?thesis using step step_validity by blast
  next
    case False
    then show ?thesis using step by (meson converse_rtranclp_into_rtranclp)
  qed
qed

theorem validity_origin:
  assumes "contract_step\<^sup>*\<^sup>* e t" and "\<not> is_valid s ty e" and "is_valid s ty t"
  shows "\<exists>f g a. contract_step\<^sup>*\<^sup>* e f \<and> contract_step f g \<and> contract_step\<^sup>*\<^sup>* g t \<and>
     \<not> storage_is_paused f \<and> authorized f a \<and> storage_is_attestor a f \<and>
     (\<exists>h x. AttestedEv s ty a h x \<in> set (new_events f g))"
  using validity_step_in_run [OF assms] by (auto simp: issued_by_def)

theorem validity_origin_witness:
  "\<exists>f g a. contract_step\<^sup>*\<^sup>* demo_fresh f \<and> contract_step f g \<and> storage_is_attestor a f \<and>
     (\<exists>h x. AttestedEv ''alice'' ''kyc'' a h x \<in> set (new_events f g))"
proof -
  have "contract_step\<^sup>*\<^sup>* demo_fresh demo_attested"
    using demo_steps by (meson converse_rtranclp_into_rtranclp rtranclp.rtrancl_refl)
  moreover have "\<not> is_valid ''alice'' ''kyc'' demo_fresh"
    by (simp add: is_valid_def storage_get_attestation_def demo_fresh_def empty_env_def)
  moreover have "is_valid ''alice'' ''kyc'' demo_attested"
    by (simp add: is_valid_def storage_get_attestation_def demo_attested_eq new_attestation_def
        saturating_add_def demo_simps)
  ultimately show ?thesis using validity_origin by blast
qed

section \<open>Authority\<close>

text \<open>
  C12. While the contract is paused no step changes an attestation, a history, a sequence
  number or the total count.
\<close>

theorem paused_freezes_attestations:
  assumes "storage_is_paused e" and "contract_step e t"
  shows "same_attestations e t"
  using assms(2)
proof cases
  case (invoke c)
  then have "\<not> attestation_call c"
    using assms(1)
    by (cases c) (auto simp: attest_Ok_iff attest_batch_Ok_iff revoke_Ok_iff)
  then show ?thesis using other_call_same_attestations invoke by blast
qed (simp_all add: same_attestations_def)

theorem paused_freezes_attestations_witness:
  "same_attestations demo_paused (demo_paused\<lparr>ledger_timestamp := 5000\<rparr>)"
  by (rule paused_freezes_attestations [OF _ contract_step.tick])
    (simp_all add: demo_paused_eq demo_attested_eq demo_simps)

text \<open>
  C13. The admin, the pause flag, the allow-list and the TTL limits change only in a step
  that the current admin authorised, or, while there is no admin, in one that the new
  admin itself authorised.
\<close>

theorem settings_need_admin:
  assumes "contract_step e t" and "\<not> same_settings e t"
  shows "(\<exists>a. inst_Admin e = Some a \<and> authorized e a) \<or>
     inst_Admin e = None \<and> (\<exists>a. inst_Admin t = Some a \<and> authorized e a)"
  using step_settings [OF assms(1)] assms(2) by blast

theorem settings_need_admin_witness:
  "\<exists>a. inst_Admin demo_attested = Some a \<and> authorized demo_attested a"
  using settings_need_admin [OF demo_steps(4)]
  by (auto simp: same_settings_def demo_paused_eq demo_attested_eq demo_simps)

text \<open>
  \<open>initialize\<close> takes effect at most once in the life of an instance: after it
  succeeded, whatever steps follow, an admin is stored and every further \<open>initialize\<close> is
  refused with \<open>AlreadyInitialized\<close> and changes nothing.
\<close>

lemma initialize_once:
  assumes "initialize a e = (Ok (), t)" and "contract_step\<^sup>*\<^sup>* t u"
  shows "inst_Admin u \<noteq> None \<and> initialize b u = (Err AlreadyInitialized, u)"
proof -
  have "inst_Admin u \<noteq> None"
    using assms steps_admin_kept [of t u] by (auto simp: initialize_Ok_iff)
  then show ?thesis
    by (simp add: initialize_def storage_is_initialized_def failS_def)
qed

text \<open>
  Each of the eight admin-only methods answers \<open>NotInitialized\<close> when no admin is
  stored and traps when the stored admin did not authorise the call, without touching
  the state.
\<close>

fun admin_call :: "call \<Rightarrow> bool" where
  "admin_call (SetAdmin _) = True"
| "admin_call Pause = True"
| "admin_call Unpause = True"
| "admin_call (AddAttestor _) = True"
| "admin_call (RemoveAttestor _) = True"
| "admin_call (RenewAttestor _) = True"
| "admin_call (SetDefaultMaxTtl _) = True"
| "admin_call (SetMaxTtl _ _) = True"
| "admin_call _ = False"

lemmas gates_uninitialized =
  set_admin_gate.uninitialized pause_gate.uninitialized unpause_gate.uninitialized
  add_attestor_gate.uninitialized remove_attestor_gate.uninitialized
  renew_attestor_gate.uninitialized default_ttl_gate.uninitialized max_ttl_gate.uninitialized

lemmas gates_unauthorized =
  set_admin_gate.unauthorized pause_gate.unauthorized unpause_gate.unauthorized
  add_attestor_gate.unauthorized remove_attestor_gate.unauthorized
  renew_attestor_gate.unauthorized default_ttl_gate.unauthorized max_ttl_gate.unauthorized

lemma admin_calls_gated:
  assumes "admin_call c"
  shows "(inst_Admin e = None \<longrightarrow> run_call c e = (Err NotInitialized, e)) \<and>
     (\<forall>a. inst_Admin e = Some a \<and> \<not> authorized e a \<longrightarrow> run_call c e = (Panic, e))"
  using assms by (cases c) (auto simp: gates_uninitialized gates_unauthorized)

section \<open>Reading histories\<close>

text \<open>
  C14. What a page of the history is, for a well-formed history in any reachable
  state: a zero limit is refused; a start past the end gives the empty page; newest first,
  the at most \<open>limit\<close> entries numbered \<open>start\<close> and below, in descending order; oldest
  first, the at most \<open>limit\<close> entries from number \<open>start\<close> on; and from the number 0, which no
  entry has, one entry fewer than asked for.
\<close>

theorem history_pages:
  assumes "reach fresh contract_step e"
    and "Suc (Suc (unat (storage_get_attestation_seq s ty e))) < 2 ^ 64"
  shows "list_attestation_history s ty start limit newest_first e =
     (if limit = 0 then Err InvalidPagination
      else if unat start > length (history_log s ty e) then Ok []
      else if newest_first
        then Ok (take (unat limit) (rev (take (unat start) (history_log s ty e))))
      else if start = 0 then Ok (take (unat limit - 1) (history_log s ty e))
      else Ok (take (unat limit) (drop (unat start - 1) (history_log s ty e))))"
  unfolding list_attestation_history_def
  by (rule list_attestation_history_pages [OF reach_history_wf [OF assms(1)] assms(2)])

lemma demo_log:
  "history_log ''alice'' ''kyc'' demo_attested =
     [history_entry 1 (new_attestation ''anchor'' ''alice'' ''kyc'' 7 600 demo_registered)]"
proof -
  have room: "seq_room ''alice'' ''kyc'' demo_registered" by (simp add: demo_simps)
  have "history_log ''alice'' ''kyc'' demo_registered = []"
    using history_log_length [of "''alice''" "''kyc''" demo_registered] by (simp add: demo_simps)
  moreover have "next_seq ''alice'' ''kyc'' demo_registered = 1"
    by (simp add: next_seq_def demo_simps)
  ultimately show ?thesis
    by (simp add: demo_attested_eq history_log_stored [OF reach_history_wf [OF demo_reach(3)] room])
qed

lemma demo_seq: "storage_get_attestation_seq ''alice'' ''kyc'' demo_attested = 1"
  by (simp add: demo_attested_eq seq_recorded next_seq_def) (simp add: demo_simps)

theorem history_pages_witness:
  "list_attestation_history ''alice'' ''kyc'' 1 10 False demo_attested =
     Ok [history_entry 1 (new_attestation ''anchor'' ''alice'' ''kyc'' 7 600 demo_registered)]"
  using history_pages [OF demo_reach(4), of "''alice''" "''kyc''" 1 10 False]
  by (simp add: demo_seq demo_log)

text \<open>
  C15. Walking a history page by page, as the code's comment tells callers to (each page
  starts after the last sequence number seen), yields the whole history, in order and
  without repetition, for every page size.
\<close>

fun read_pages :: "nat \<Rightarrow> Address \<Rightarrow> Symbol \<Rightarrow> u64 \<Rightarrow> u32 \<Rightarrow> env \<Rightarrow> HistoryEntry list" where
  "read_pages 0 s ty start limit e = []"
| "read_pages (Suc n) s ty start limit e =
     (case list_attestation_history s ty start limit False e of
        Ok page \<Rightarrow>
          if page = [] then []
          else page @ read_pages n s ty (he_sequence (last page) + 1) limit e
      | _ \<Rightarrow> [])"

lemma history_log_sequence:
  assumes "history_wf s ty e" and "i < length (history_log s ty e)"
  shows "unat (he_sequence (history_log s ty e ! i)) = Suc i"
proof -
  let ?q = "word_of_nat (Suc i) :: u64"
  have i: "i < unat (storage_get_attestation_seq s ty e)" using assms(2) by (simp add: history_log_length)
  then have q: "unat ?q = Suc i"
    using unat_u64_bound [of "storage_get_attestation_seq s ty e"] by (intro unat_of_nat_u64) simp
  then have "0 < ?q \<and> ?q \<le> storage_get_attestation_seq s ty e"
    using i by (simp add: word_le_nat_alt word_less_nat_alt)
  then obtain h where "pers_AttestationHistory e (s, ty, ?q) = Some h"
    using assms(1) unfolding history_wf_def by blast
  then have "he_sequence (history_log s ty e ! i) = ?q"
    using assms(1) hist.nth_log [OF i] by (simp add: history_wf_def history_log_def)
  with q show ?thesis by simp
qed

lemma take_append_rest: "take n xs @ drop (length (take n xs)) xs = xs"
  by (cases "n \<le> length xs") simp_all

lemma last_page:
  assumes "take n (drop m xs) \<noteq> []"
  shows "last (take n (drop m xs)) = xs ! (m + length (take n (drop m xs)) - 1)"
proof -
  let ?k = "length (take n (drop m xs))"
  have k: "0 < ?k" "?k - 1 < n" "m \<le> length xs" using assms by (auto simp: min_def)
  then have "last (take n (drop m xs)) = drop m xs ! (?k - 1)"
    using assms by (metis last_conv_nth nth_take)
  also have "\<dots> = xs ! (m + (?k - 1))" using k(3) by (rule nth_drop)
  also have "m + (?k - 1) = m + ?k - 1" using k(1) by linarith
  finally show ?thesis .
qed

lemma read_pages_from:
  assumes wf: "history_wf s ty e" and limit: "limit \<noteq> 0"
    and room: "Suc (Suc (unat (storage_get_attestation_seq s ty e))) < 2 ^ 64"
  shows "0 < unat start \<Longrightarrow> length (history_log s ty e) < unat start - 1 + n \<Longrightarrow>
     read_pages n s ty start limit e = drop (unat start - 1) (history_log s ty e)"
proof (induction n arbitrary: start)
  case 0
  then show ?case by simp
next
  case (Suc n)
  let ?L = "history_log s ty e"
  let ?page = "take (unat limit) (drop (unat start - 1) ?L)"
  note page = list_attestation_history_pages [OF wf room, of start limit False]
  show ?case
  proof (cases "unat start > length ?L")
    case True
    with limit show ?thesis using page by (simp add: list_attestation_history_def)
  next
    case False
    then have nonempty: "?page \<noteq> []" using Suc.prems limit by (simp add: unat_eq_zero)
    define k where "k = unat start - 1 + length ?page"
    have "0 < length ?page" using nonempty by blast
    moreover have "k \<le> length ?L" using nonempty by (auto simp: k_def)
    ultimately have k: "0 < k" "unat start - 1 < k" "k \<le> length ?L" by (simp_all add: k_def)
    have "last ?page = ?L ! (k - 1)"
      unfolding k_def using nonempty by (rule last_page)
    then have "unat (he_sequence (last ?page)) = k"
      using history_log_sequence [OF wf, of "k - 1"] k by simp
    then have next_start: "unat (he_sequence (last ?page) + 1) = Suc k"
      using k room by (simp add: history_log_length unat_next_seq)
    have "start \<noteq> 0" using Suc.prems by auto
    then have "read_pages (Suc n) s ty start limit e =
        ?page @ read_pages n s ty (he_sequence (last ?page) + 1) limit e"
      using page False limit nonempty by (simp add: list_attestation_history_def)
    also have "read_pages n s ty (he_sequence (last ?page) + 1) limit e = drop k ?L"
      using Suc.IH [of "he_sequence (last ?page) + 1"] Suc.prems k next_start by simp
    also have "drop k ?L = drop (length ?page) (drop (unat start - 1) ?L)"
      by (simp add: k_def add.commute)
    also have "?page @ drop (length ?page) (drop (unat start - 1) ?L) = drop (unat start - 1) ?L"
      by (rule take_append_rest)
    finally show ?thesis .
  qed
qed

theorem page_walk_complete:
  assumes "reach fresh contract_step e" and "limit \<noteq> 0"
    and "Suc (Suc (unat (storage_get_attestation_seq s ty e))) < 2 ^ 64"
    and "length (history_log s ty e) < n"
  shows "read_pages n s ty 1 limit e = history_log s ty e"
  using read_pages_from [OF reach_history_wf [OF assms(1)] assms(2,3), of 1 n] assms(4) by simp

theorem page_walk_complete_witness:
  "read_pages 2 ''alice'' ''kyc'' 1 1 demo_attested = history_log ''alice'' ''kyc'' demo_attested"
  using page_walk_complete [OF demo_reach(4), of 1 "''alice''" "''kyc''" 2]
  by (simp add: demo_seq demo_log del: read_pages.simps)

section \<open>Storage rent\<close>

text \<open>
  The rent window requested for an attestation with \<open>r\<close> seconds left: between 30 days
  and the network maximum in ledgers, never overflowing, with the threshold at half of
  it; and unless the maximum cuts it off, it covers all whole ledgers of the \<open>r\<close> seconds.
\<close>

lemma rent_window_bounds:
  "(case attestation_ttl_window r of (threshold, extend_to) \<Rightarrow>
      unat threshold = unat extend_to div 2 \<and>
      unat LEDGERS_PER_DAY * 30 \<le> unat extend_to \<and>
      unat extend_to \<le> unat MAX_ENTRY_TTL_LEDGERS \<and>
      min (unat r div unat SECONDS_PER_LEDGER) (unat MAX_ENTRY_TTL_LEDGERS) \<le> unat extend_to)"
  by (simp add: attestation_ttl_window_def Let_def unat_attestation_extend_to unat_div ttl_consts)

text \<open>
  \<open>renew_attestation\<close> buys rent and nothing else: it is open to the admin and to the
  issuing attestor only, also while the contract is paused; it requests the window for the
  remaining lifetime and changes neither the attestation, nor any history or count, nor the
  settings.
\<close>

lemma renew_only_extends_rent:
  assumes "renew_attestation c s ty e = (Ok (), t)"
  shows "same_attestations e t \<and> same_settings e t \<and> authorized e c \<and>
     new_events e t = [AttestationRenewedEv s ty c] \<and>
     (\<exists>att. storage_get_attestation s ty e = Some att \<and>
        (inst_Admin e = Some c \<or> c = att_attestor att) \<and>
        ttl_bumps t = ttl_bumps e @ [(AttestationKey s ty,
          attestation_ttl_window (saturating_sub (att_expires_at att) (ledger_timestamp e)))])"
  using assms
  by (auto simp: renew_attestation_Ok_iff same_attestations_def same_settings_def new_events_def
      storage_get_attestation_def rent_window_def)

end
