(* ===== verification/Governance_Properties.thy ===== *)
theory Governance_Properties
  imports Contract_Properties
begin

text \<open>
  Properties of the multi-signature governance of the contract: what \<open>verify_multisig\<close>
  accepts, what a rotation of the signers needs and does, and when the governance
  configuration can be replaced.
\<close>

definition demo_config :: MultiSigConfig where
  "demo_config = \<lparr>ms_signers = [''s1'', ''s2'', ''s3''], ms_threshold = 2, ms_nonce = 4\<rparr>"

definition demo_governed :: env where
  "demo_governed = snd (initialize_multisig [''s1'', ''s2'', ''s3''] 2 demo_attested)"

lemma demo_initialize_multisig:
  "initialize_multisig [''s1'', ''s2'', ''s3''] 2 demo_attested = (Ok (), demo_governed)"
proof -
  have "\<exists>t. initialize_multisig [''s1'', ''s2'', ''s3''] 2 demo_attested = (Ok (), t)"
    by (simp add: initialize_multisig_entry_Ok_iff initialize_multisig_Ok_iff valid_config_def
        demo_attested_eq demo_simps)
  then show ?thesis by (auto simp: demo_governed_def)
qed

lemma demo_governed_reach: "reach fresh contract_step demo_governed"
proof -
  have "contract_step demo_attested demo_governed"
    using demo_initialize_multisig
    by (intro contract_step.invoke [of "InitializeMultisig [''s1'', ''s2'', ''s3''] 2"]) simp
  with demo_reach(4) show ?thesis by (rule reach.reach_step)
qed

lemma demo_governed_config:
  "inst_MultiSigConfig demo_governed =
     Some \<lparr>ms_signers = [''s1'', ''s2'', ''s3''], ms_threshold = 2, ms_nonce = 0\<rparr>"
proof -
  have "demo_governed = demo_attested\<lparr>inst_MultiSigConfig :=
      Some \<lparr>ms_signers = [''s1'', ''s2'', ''s3''], ms_threshold = 2, ms_nonce = 0\<rparr>\<rparr>"
    using demo_initialize_multisig
    by (simp add: initialize_multisig_entry_Ok_iff initialize_multisig_Ok_iff)
  from arg_cong [OF this, of inst_MultiSigConfig] show ?thesis by simp
qed

section \<open>Verification\<close>

text \<open>
  C19. In every reachable state with a governance configuration, \<open>verify_multisig\<close> accepts
  exactly when there is one signature per named signer, at least threshold many, no signer
  is named twice, all are current signers, and the first threshold-many signatures are 65
  bytes long. The bytes of the signatures and the message do not enter.
\<close>

theorem verify_multisig_accepts:
  assumes "reach fresh contract_step e" and "inst_MultiSigConfig e = Some c"
  shows "verify_multisig msg si e = (Ok (), e) \<longleftrightarrow>
     length (si_signers si) = length (si_signatures si) \<and>
     unat (ms_threshold c) \<le> length (si_signers si) \<and>
     distinct (si_signers si) \<and> set (si_signers si) \<subseteq> set (ms_signers c) \<and>
     list_all (\<lambda>s. length s = 65) (take (unat (ms_threshold c)) (si_signatures si))"
proof -
  have "contract_inv e" using assms(1) by (rule contract.reach_invar)
  then have "valid_config c" using assms(2) by (auto simp: contract_inv_def settings_wf_def)
  with assms(2) show ?thesis by (rule verify_multisig_Ok_iff)
qed

theorem verify_multisig_accepts_witness:
  "verify_multisig [] \<lparr>si_signers = [''s3'', ''s1''], si_signatures = [replicate 65 0, replicate 65 1]\<rparr>
     demo_governed = (Ok (), demo_governed)"
  using verify_multisig_accepts [OF demo_governed_reach demo_governed_config, of "[]"
      "\<lparr>si_signers = [''s3'', ''s1''], si_signatures = [replicate 65 0, replicate 65 1]\<rparr>"]
  by simp

section \<open>Rotation\<close>

text \<open>
  C20. A successful rotation advances the nonce (until the 64-bit counter is full), and
  since a signed message starts with the nonce it was made for, no message for the
  configuration before the rotation equals one for the configuration after it. The new
  configuration is valid and holds exactly the signers and threshold asked for.
\<close>

theorem rotation_retires_messages:
  assumes "rotate_signers signers threshold si e = (Ok (), t)"
    and "inst_MultiSigConfig e = Some c" and "unat (ms_nonce c) < 2 ^ 64 - 1"
  shows "\<exists>c'. inst_MultiSigConfig t = Some c' \<and> ms_signers c' = signers \<and>
     ms_threshold c' = threshold \<and> valid_config c' \<and>
     unat (ms_nonce c') = Suc (unat (ms_nonce c)) \<and>
     (\<forall>op op'. hash_message (ms_nonce c') op' \<noteq> hash_message (ms_nonce c) op)"
proof -
  let ?c = "c\<lparr>ms_signers := signers, ms_threshold := threshold,
      ms_nonce := saturating_add (ms_nonce c) 1\<rparr>"
  have t: "inst_MultiSigConfig t = Some ?c" "valid_config ?c"
    using assms(1,2) by (auto simp: rotate_signers_entry_Ok_iff)
  have nonce: "unat (ms_nonce ?c) = Suc (unat (ms_nonce c))"
    using assms(3) by (simp add: unat_saturating_add)
  then have "ms_nonce ?c \<noteq> ms_nonce c" by auto
  with t nonce show ?thesis by (intro exI [of _ ?c]) (simp add: hash_message_inj)
qed

theorem rotation_retires_messages_witness:
  "\<exists>t c'. rotate_signers [''n1''] 1 \<lparr>si_signers = [''s1'', ''s2''], si_signatures = []\<rparr> demo_governed
       = (Ok (), t) \<and> inst_MultiSigConfig t = Some c' \<and> ms_signers c' = [''n1'']"
proof -
  obtain t where t: "rotate_signers [''n1''] 1
      \<lparr>si_signers = [''s1'', ''s2''], si_signatures = []\<rparr> demo_governed = (Ok (), t)"
    by (simp add: rotate_signers_entry_Ok_iff demo_governed_config valid_config_def)
  show ?thesis using rotation_retires_messages [OF t demo_governed_config] t by auto
qed

text \<open>
  C21. A rotation needs no authorisation and no signature: naming one current signer
  threshold-many times is enough, whatever authorisations the call carries.
\<close>

theorem rotation_by_anyone:
  assumes "inst_MultiSigConfig e = Some c" and "signer \<in> set (ms_signers c)"
    and "valid_config \<lparr>ms_signers = new_signers, ms_threshold = new_threshold, ms_nonce = 0\<rparr>"
  shows "\<exists>t. rotate_signers new_signers new_threshold
       \<lparr>si_signers = replicate (unat (ms_threshold c)) signer, si_signatures = []\<rparr>
       (e\<lparr>authorized := (\<lambda>_. False)\<rparr>) = (Ok (), t) \<and>
     (\<exists>c'. inst_MultiSigConfig t = Some c' \<and> ms_signers c' = new_signers)"
  using assms
  by (simp add: rotate_signers_entry_Ok_iff count_valid_signers_filter valid_config_def)

theorem rotation_by_anyone_witness:
  "\<exists>t. rotate_signers [''mallory''] 1 \<lparr>si_signers = replicate 2 ''s1'', si_signatures = []\<rparr>
     (demo_governed\<lparr>authorized := (\<lambda>_. False)\<rparr>) = (Ok (), t)"
  using rotation_by_anyone [OF demo_governed_config, of "''s1''" "[''mallory'']" 1]
  by (auto simp: valid_config_def)

section \<open>Setting the configuration\<close>

text \<open>
  C22. The guard of \<open>initialize_multisig\<close> protects a configuration only together with an
  admin: with both stored the call is refused; as long as no admin is stored, every call
  with valid signers replaces the configuration, and none needs an authorisation.
\<close>

theorem initialize_multisig_guard:
  "(inst_Admin e \<noteq> None \<and> inst_MultiSigConfig e \<noteq> None \<longrightarrow>
      initialize_multisig signers threshold e = (Err AlreadyInitialized, e)) \<and>
   (inst_Admin e = None \<and>
      valid_config \<lparr>ms_signers = signers, ms_threshold = threshold, ms_nonce = 0\<rparr> \<longrightarrow>
      initialize_multisig signers threshold e =
        (Ok (), e\<lparr>inst_MultiSigConfig :=
           Some \<lparr>ms_signers = signers, ms_threshold = threshold, ms_nonce = 0\<rparr>\<rparr>))"
proof -
  have "initialize_multisig signers threshold e = (Err AlreadyInitialized, e)"
    if "inst_Admin e \<noteq> None \<and> inst_MultiSigConfig e \<noteq> None"
    using that by (simp add: initialize_multisig_def storage_is_initialized_def
        storage_has_multisig_config_def failS_def)
  then show ?thesis
    by (simp add: initialize_multisig_entry_Ok_iff initialize_multisig_Ok_iff)
qed

theorem initialize_multisig_guard_witness:
  "initialize_multisig [''mallory''] 1 (empty_env\<lparr>inst_MultiSigConfig := Some demo_config\<rparr>) =
     (Ok (), empty_env\<lparr>inst_MultiSigConfig :=
        Some \<lparr>ms_signers = [''mallory''], ms_threshold = 1, ms_nonce = 0\<rparr>\<rparr>)"
  using initialize_multisig_guard [of "empty_env\<lparr>inst_MultiSigConfig := Some demo_config\<rparr>"
      "[''mallory'']" 1]
  by (simp add: valid_config_def empty_env_def)

end
