(* ===== verification/Registry_Spec.thy ===== *)
theory Registry_Spec
  imports Contract_Machine
begin

text \<open>
  What the contract promises, without how it stores it: a registry keeps for every pair of
  subject and type the list of versions of its attestation, oldest first, and beside it the
  administrator, the pause switch, a set of attestors, limits, a signer configuration and the
  events published so far. There are no sequence numbers, no numbered history entries, no second
  copy of the current version and no rent. Every call of the contract has one abstract counterpart
  with all its answers.
\<close>

section \<open>The registry\<close>

record version =
  ver_attestor :: Address
  ver_payload_hash :: Bytes32
  ver_issued_at :: u64
  ver_expires_at :: u64
  ver_status :: AttestationStatus

record registry =
  rg_admin :: "Address option"
  rg_paused :: bool
  rg_attestors :: "Address set"
  rg_default_limit :: u64
  rg_limits :: "Symbol \<rightharpoonup> u64"
  rg_versions :: "Address \<times> Symbol \<Rightarrow> version list"
  rg_issued :: nat
  rg_signers :: "MultiSigConfig option"
  rg_now :: u64
  rg_auths :: "Address \<Rightarrow> bool"
  rg_events :: "Event list"

type_synonym registry_op = "registry \<Rightarrow> (Error, unit) outcome \<times> registry"

definition announce :: "Event \<Rightarrow> registry \<Rightarrow> registry" where
  "announce ev g = g\<lparr>rg_events := rg_events g @ [ev]\<rparr>"

definition refuse :: "Error \<Rightarrow> registry_op" where
  "refuse x g = (Err x, g)"

definition trap :: registry_op where
  "trap g = (Panic, g)"

definition accept :: "(registry \<Rightarrow> registry) \<Rightarrow> registry_op" where
  "accept f g = (Ok (), f g)"

lemmas answer_defs = announce_def refuse_def trap_def accept_def

definition by_admin :: "(Address \<Rightarrow> registry_op) \<Rightarrow> registry_op" where
  "by_admin f g =
     (case rg_admin g of
        None \<Rightarrow> refuse NotInitialized g
      | Some a \<Rightarrow> if rg_auths g a then f a g else trap g)"

section \<open>Versions\<close>

definition limit_for :: "Symbol \<Rightarrow> registry \<Rightarrow> u64" where
  "limit_for ty g = (case rg_limits g ty of Some m \<Rightarrow> m | None \<Rightarrow> rg_default_limit g)"

definition current :: "Address \<Rightarrow> Symbol \<Rightarrow> registry \<Rightarrow> version option" where
  "current s ty g =
     (if rg_versions g (s, ty) = [] then None else Some (last (rg_versions g (s, ty))))"

definition add_version :: "Address \<Rightarrow> Symbol \<Rightarrow> version \<Rightarrow> registry \<Rightarrow> registry" where
  "add_version s ty v g =
     g\<lparr>rg_versions := (rg_versions g)((s, ty) := rg_versions g (s, ty) @ [v])\<rparr>"

definition versions_full :: "Address \<Rightarrow> Symbol \<Rightarrow> registry \<Rightarrow> bool" where
  "versions_full s ty g \<longleftrightarrow> 2 ^ 64 \<le> Suc (length (rg_versions g (s, ty)))"

definition entry_error :: "Symbol \<Rightarrow> u64 \<Rightarrow> Error option" where
  "entry_error ty ttl =
     (if ttl = 0 then Some InvalidExpiration
      else if 24 < length ty then Some AttestationTypeTooLong
      else None)"

definition spec_issue :: "Address \<Rightarrow> Address \<Rightarrow> Symbol \<Rightarrow> Bytes32 \<Rightarrow> u64 \<Rightarrow> registry_op" where
  "spec_issue a s ty h ttl g =
     (case entry_error ty ttl of
        Some x \<Rightarrow> refuse x g
      | None \<Rightarrow>
          if limit_for ty g < ttl then refuse ExceedsMaxTtl g
          else if versions_full s ty g \<or> 2 ^ 64 \<le> Suc (rg_issued g) then trap g
          else
            let expires = saturating_add (rg_now g) ttl;
                v = \<lparr>ver_attestor = a, ver_payload_hash = h, ver_issued_at = rg_now g,
                     ver_expires_at = expires, ver_status = Active\<rparr>
            in accept (announce (AttestedEv s ty a h expires) \<circ> add_version s ty v)
                 (g\<lparr>rg_issued := Suc (rg_issued g)\<rparr>))"

fun spec_issue_all :: "Address \<Rightarrow> BatchAttestEntry list \<Rightarrow> registry_op" where
  "spec_issue_all a [] g = (Ok (), g)"
| "spec_issue_all a (b # bs) g =
     (case spec_issue a (be_subject b) (be_attestation_type b) (be_payload_hash b) (be_ttl_seconds b) g of
        (Ok _, g') \<Rightarrow> spec_issue_all a bs g'
      | failed \<Rightarrow> failed)"

fun first_entry_error :: "BatchAttestEntry list \<Rightarrow> Error option" where
  "first_entry_error [] = None"
| "first_entry_error (b # bs) =
     (case entry_error (be_attestation_type b) (be_ttl_seconds b) of
        Some x \<Rightarrow> Some x | None \<Rightarrow> first_entry_error bs)"

text \<open>A failed operation leaves no trace.\<close>

definition all_or_nothing :: "('s \<Rightarrow> ('e, 'a) outcome \<times> 's) \<Rightarrow> 's \<Rightarrow> ('e, 'a) outcome \<times> 's" where
  "all_or_nothing m s = (case m s of (Ok x, t) \<Rightarrow> (Ok x, t) | (r, _) \<Rightarrow> (r, s))"

definition by_attestor :: "Address \<Rightarrow> registry_op \<Rightarrow> registry_op" where
  "by_attestor a f g =
     (if rg_paused g then refuse ContractPaused g
      else if \<not> rg_auths g a then trap g
      else if a \<notin> rg_attestors g then refuse AttestorNotRegistered g
      else f g)"

definition by_owner :: "Address \<Rightarrow> Address \<Rightarrow> Symbol \<Rightarrow> (version \<Rightarrow> registry_op) \<Rightarrow> registry_op" where
  "by_owner c s ty f g =
     (if \<not> rg_auths g c then trap g
      else
        case current s ty g of
          None \<Rightarrow> refuse AttestationNotFound g
        | Some v \<Rightarrow>
            (case rg_admin g of
               None \<Rightarrow> refuse NotInitialized g
             | Some a \<Rightarrow> if c \<noteq> a \<and> c \<noteq> ver_attestor v then refuse Unauthorized g else f v g))"

section \<open>Signers\<close>

definition config_error :: "Address list \<Rightarrow> u32 \<Rightarrow> Error option" where
  "config_error signers threshold =
     (if signers = [] then Some EmptySignerList
      else if threshold = 0 \<or> length signers < unat threshold then Some InvalidThreshold
      else if \<not> distinct signers then Some DuplicateSigner
      else None)"

definition spec_rotate :: "Address list \<Rightarrow> u32 \<Rightarrow> SignatureInfo \<Rightarrow> registry_op" where
  "spec_rotate signers threshold si g =
     (case rg_signers g of
        None \<Rightarrow> refuse NotInitialized g
      | Some c \<Rightarrow>
          if length (filter (\<lambda>s. s \<in> set (ms_signers c)) (si_signers si)) < unat (ms_threshold c)
          then refuse InsufficientSignatures g
          else
            (case config_error signers threshold of
               Some x \<Rightarrow> refuse x g
             | None \<Rightarrow>
                 accept (announce (SignersRotatedEv threshold))
                   (g\<lparr>rg_signers := Some
                        \<lparr>ms_signers = signers, ms_threshold = threshold,
                         ms_nonce = saturating_add (ms_nonce c) 1\<rparr>\<rparr>)))"

section \<open>Calls\<close>

fun spec_call :: "call \<Rightarrow> registry_op" where
  "spec_call (Initialize a) g =
     (if rg_admin g \<noteq> None then refuse AlreadyInitialized g
      else if \<not> rg_auths g a then trap g
      else accept (announce (InitializedEv a)) (g\<lparr>rg_admin := Some a, rg_paused := False\<rparr>))"
| "spec_call (SetAdmin n) g =
     by_admin (\<lambda>a g. accept (announce (AdminChangedEv a n)) (g\<lparr>rg_admin := Some n\<rparr>)) g"
| "spec_call Pause g =
     by_admin (\<lambda>_ g. accept (announce (PauseToggledEv True)) (g\<lparr>rg_paused := True\<rparr>)) g"
| "spec_call Unpause g =
     by_admin (\<lambda>_ g. accept (announce (PauseToggledEv False)) (g\<lparr>rg_paused := False\<rparr>)) g"
| "spec_call (AddAttestor b) g =
     by_admin (\<lambda>_ g.
       if b \<in> rg_attestors g then refuse AttestorAlreadyRegistered g
       else accept (announce (AttestorAddedEv b)) (g\<lparr>rg_attestors := insert b (rg_attestors g)\<rparr>)) g"
| "spec_call (RemoveAttestor b) g =
     by_admin (\<lambda>_ g.
       if b \<notin> rg_attestors g then refuse AttestorNotRegistered g
       else accept (announce (AttestorRemovedEv b)) (g\<lparr>rg_attestors := rg_attestors g - {b}\<rparr>)) g"
| "spec_call (RenewAttestor b) g =
     by_admin (\<lambda>_ g.
       if b \<notin> rg_attestors g then refuse AttestorNotRegistered g
       else accept (announce (AttestorRenewedEv b)) g) g"
| "spec_call (SetDefaultMaxTtl m) g =
     by_admin (\<lambda>_ g.
       if m = 0 then refuse InvalidExpiration g
       else accept (announce (DefaultMaxAttestationTtlChangedEv m)) (g\<lparr>rg_default_limit := m\<rparr>)) g"
| "spec_call (SetMaxTtl ty m) g =
     by_admin (\<lambda>_ g.
       if m = 0 then refuse InvalidExpiration g
       else accept (announce (MaxAttestationTtlChangedEv ty m)) (g\<lparr>rg_limits := (rg_limits g)(ty \<mapsto> m)\<rparr>)) g"
| "spec_call (Attest a s ty h ttl) g = by_attestor a (spec_issue a s ty h ttl) g"
| "spec_call (AttestBatch a bs) g =
     by_attestor a (\<lambda>g.
       if bs = [] then refuse EmptyBatch g
       else
         case first_entry_error bs of
           Some x \<Rightarrow> refuse x g
         | None \<Rightarrow> all_or_nothing (spec_issue_all a bs) g) g"
| "spec_call (Revoke c s ty) g =
     (if rg_paused g then refuse ContractPaused g
      else
        by_owner c s ty (\<lambda>v g.
          if ver_status v = Revoked then refuse AttestationAlreadyRevoked g
          else if versions_full s ty g then trap g
          else accept (announce (RevokedEv s ty c) \<circ> add_version s ty (v\<lparr>ver_status := Revoked\<rparr>)) g) g)"
| "spec_call (RenewAttestation c s ty) g =
     by_owner c s ty (\<lambda>_. accept (announce (AttestationRenewedEv s ty c))) g"
| "spec_call (InitializeMultisig signers threshold) g =
     (if rg_admin g \<noteq> None \<and> rg_signers g \<noteq> None then refuse AlreadyInitialized g
      else
        case config_error signers threshold of
          Some x \<Rightarrow> refuse x g
        | None \<Rightarrow>
            accept (\<lambda>g. g\<lparr>rg_signers := Some
              \<lparr>ms_signers = signers, ms_threshold = threshold, ms_nonce = 0\<rparr>\<rparr>) g)"
| "spec_call (RotateSigners signers threshold si) g = spec_rotate signers threshold si g"

section \<open>Abstraction\<close>

definition version_of :: "HistoryEntry \<Rightarrow> version" where
  "version_of h =
     \<lparr>ver_attestor = he_attestor h, ver_payload_hash = he_payload_hash h,
      ver_issued_at = he_issued_at h, ver_expires_at = he_expires_at h, ver_status = he_status h\<rparr>"

definition registry_of :: "env \<Rightarrow> registry" where
  "registry_of e =
     \<lparr>rg_admin = inst_Admin e, rg_paused = storage_is_paused e,
      rg_attestors = {a. storage_is_attestor a e},
      rg_default_limit = (case inst_DefaultMaxAttestationTtl e of
        Some m \<Rightarrow> m | None \<Rightarrow> DEFAULT_MAX_ATTESTATION_TTL_SECONDS),
      rg_limits = inst_MaxAttestationTtl e,
      rg_versions = (\<lambda>(s, ty). map version_of (history_log s ty e)),
      rg_issued = unat (storage_get_attestation_count e),
      rg_signers = inst_MultiSigConfig e, rg_now = ledger_timestamp e, rg_auths = authorized e,
      rg_events = published e\<rparr>"

text \<open>A host invocation: what a failed call wrote is discarded.\<close>

definition invoke_call :: "call \<Rightarrow> env \<Rightarrow> (Error, unit) outcome \<times> env" where
  "invoke_call c = all_or_nothing (run_call c)"

end
