(* ===== verification/Registry_Refinement.thy ===== *)
theory Registry_Refinement
  imports Registry_Spec
begin

text \<open>
  The contract implements the registry. Under the storage invariant each call commutes with the
  abstraction, answers included; the interpretation of \<open>data_refinement\<close> lifts this to whole runs on
  the ledger. The signature of every call, the errors it can report, is read off the registry.
\<close>

section \<open>What the abstraction sees\<close>

lemma registry_log_frame [simp]:
  "history_log s ty (e\<lparr>inst_Admin := x1\<rparr>) = history_log s ty e"
  "history_log s ty (e\<lparr>inst_Paused := x2\<rparr>) = history_log s ty e"
  "history_log s ty (e\<lparr>inst_MultiSigConfig := x3\<rparr>) = history_log s ty e"
  "history_log s ty (e\<lparr>inst_AttestationCount := x4\<rparr>) = history_log s ty e"
  "history_log s ty (e\<lparr>inst_MaxAttestationTtl := x5\<rparr>) = history_log s ty e"
  "history_log s ty (e\<lparr>inst_DefaultMaxAttestationTtl := x6\<rparr>) = history_log s ty e"
  "history_log s ty (e\<lparr>pers_Attestor := x7\<rparr>) = history_log s ty e"
  "history_log s ty (e\<lparr>ledger_timestamp := x8\<rparr>) = history_log s ty e"
  "history_log s ty (e\<lparr>authorized := x9\<rparr>) = history_log s ty e"
  "history_log s ty (e\<lparr>published := x10\<rparr>) = history_log s ty e"
  "history_log s ty (e\<lparr>ttl_bumps := x11\<rparr>) = history_log s ty e"
  by (simp_all add: history_log_def log_of_def storage_get_attestation_seq_def)

definition attested_version :: "Attestation \<Rightarrow> version" where
  "attested_version a = version_of (history_entry 0 a)"

lemma version_of_history_entry: "version_of (history_entry q a) = attested_version a"
  by (simp add: attested_version_def version_of_def history_entry_def)

lemma attested_version_sel [simp]:
  "ver_attestor (attested_version a) = att_attestor a"
  "ver_expires_at (attested_version a) = att_expires_at a"
  "ver_status (attested_version a) = att_status a"
  by (simp_all add: attested_version_def version_of_def history_entry_def)

lemma last_history_log:
  assumes "0 < storage_get_attestation_seq s ty e"
  shows "last (history_log s ty e) =
    the (pers_AttestationHistory e (s, ty, storage_get_attestation_seq s ty e))"
proof -
  let ?n = "storage_get_attestation_seq s ty e"
  have n: "0 < unat ?n" using assms by (simp add: word_less_nat_alt)
  then have "history_log s ty e \<noteq> []" using history_log_length [of s ty e] by auto
  then have "last (history_log s ty e) = history_log s ty e ! (unat ?n - 1)"
    by (simp add: last_conv_nth history_log_length)
  also have "\<dots> = the (pers_AttestationHistory e (s, ty, word_of_nat (Suc (unat ?n - 1))))"
    using n unfolding history_log_def by (subst hist.nth_log) simp_all
  finally show ?thesis using n by simp
qed

lemma current_registry:
  assumes "contract_inv e"
  shows "current s ty (registry_of e) = map_option attested_version (pers_Attestation e (s, ty))"
proof -
  have wf: "latest_wf s ty e" using assms by (simp add: contract_inv_def)
  show ?thesis
  proof (cases "pers_Attestation e (s, ty)")
    case None
    then have "history_log s ty e = []"
      using wf history_log_length [of s ty e] by (simp add: latest_wf_def)
    with None show ?thesis by (simp add: current_def registry_of_def)
  next
    case (Some a)
    then have seq: "0 < storage_get_attestation_seq s ty e"
      and "last (history_log s ty e) = history_entry (storage_get_attestation_seq s ty e) a"
      using wf last_history_log [of s ty e] by (simp_all add: latest_wf_def)
    moreover have "history_log s ty e \<noteq> []"
      using seq history_log_length [of s ty e] by (auto simp: word_less_nat_alt)
    ultimately show ?thesis
      using Some by (simp add: current_def registry_of_def last_map version_of_history_entry)
  qed
qed

lemma versions_full_registry: "versions_full s ty (registry_of e) \<longleftrightarrow> \<not> seq_room s ty e"
  by (simp add: versions_full_def registry_of_def history_log_length seq_room_def not_less)

lemma limit_for_registry: "limit_for ty (registry_of e) = storage_get_max_attestation_ttl ty e"
  by (simp add: limit_for_def registry_of_def storage_get_max_attestation_ttl_def split: option.split)

lemma registry_of_sel [simp]:
  "rg_admin (registry_of e) = inst_Admin e"
  "rg_paused (registry_of e) = storage_is_paused e"
  "a \<in> rg_attestors (registry_of e) \<longleftrightarrow> storage_is_attestor a e"
  "rg_issued (registry_of e) = unat (storage_get_attestation_count e)"
  "rg_signers (registry_of e) = inst_MultiSigConfig e"
  "rg_now (registry_of e) = ledger_timestamp e"
  "rg_auths (registry_of e) = authorized e"
  "rg_events (registry_of e) = published e"
  by (simp_all add: registry_of_def)

lemma registry_of_stored:
  assumes "contract_inv e" and "seq_room s ty e"
  shows "registry_of (stored s ty att e) = add_version s ty (attested_version att) (registry_of e)"
proof -
  have "history_wf s ty e" using assms(1) by (simp add: contract_inv_def)
  then have "map version_of (history_log s' ty' (stored s ty att e)) =
      (if (s', ty') = (s, ty) then map version_of (history_log s ty e) @ [attested_version att]
       else map version_of (history_log s' ty' e))" for s' ty'
    using history_log_stored [OF _ assms(2)] by (simp add: version_of_history_entry)
  then show ?thesis
    by (auto simp: registry_of_def add_version_def storage_is_paused_def storage_is_attestor_def
        fun_eq_iff)
qed

section \<open>One call\<close>

lemma all_or_nothing_simps [simp]:
  "m s = (Ok x, t) \<Longrightarrow> all_or_nothing m s = (Ok x, t)"
  "m s = (Err x', t) \<Longrightarrow> all_or_nothing m s = (Err x', s)"
  "m s = (Panic, t) \<Longrightarrow> all_or_nothing m s = (Panic, s)"
  by (simp_all add: all_or_nothing_def)

lemma invoke_call_inv: "contract_inv e \<Longrightarrow> contract_inv (snd (invoke_call c e))"
  by (auto simp: invoke_call_def all_or_nothing_def intro: inv_call split: prod.splits outcome.splits)

definition call_refines :: "call \<Rightarrow> env \<Rightarrow> bool" where
  "call_refines c e \<longleftrightarrow> spec_call c (registry_of e) = map_prod id registry_of (invoke_call c e)"

lemmas refine_simps = call_refines_def invoke_call_def all_or_nothing_def answer_defs by_admin_def
  get_admin_bind require_auth_bind admin_op_simps

lemma refine_initialize: "call_refines (Initialize a) e"
  by (auto simp: refine_simps initialize_def storage_is_initialized_def registry_of_def
      storage_is_paused_def storage_is_attestor_def storage_get_attestation_count_def split: option.split)

lemma refine_admin_calls:
  "call_refines (SetAdmin n) e" "call_refines Pause e" "call_refines Unpause e"
  "call_refines (SetDefaultMaxTtl m) e" "call_refines (SetMaxTtl ty m) e"
  by (auto simp: refine_simps set_admin_def pause_def unpause_def set_default_max_attestation_ttl_def
      set_max_attestation_ttl_def registry_of_def storage_is_paused_def storage_is_attestor_def
      storage_get_attestation_count_def split: option.split)

lemma refine_attestors:
  "call_refines (AddAttestor b) e" "call_refines (RemoveAttestor b) e" "call_refines (RenewAttestor b) e"
  by (auto simp: refine_simps add_attestor_def remove_attestor_def renew_attestor_def registry_of_def
      storage_is_paused_def storage_is_attestor_def storage_get_attestation_count_def split: option.split)

lemma record_attestation_cases:
  "record_attestation a s ty h ttl e =
     (case entry_error ty ttl of
        Some x \<Rightarrow> (Err x, e)
      | None \<Rightarrow>
          if storage_get_max_attestation_ttl ty e < ttl then (Err ExceedsMaxTtl, e)
          else if \<not> seq_room s ty e
          then (Panic, storage_set_attestation s ty (new_attestation a s ty h ttl e) e)
          else if \<not> count_room e then (Panic, stored s ty (new_attestation a s ty h ttl e) e)
          else (Ok (), recorded a s ty h ttl e))"
  by (auto simp: record_attestation_def entry_error_def validate_attestation_type_def
      MAX_ATTESTATION_TYPE_LEN_def failS_def panicS_def set_then_push bump_attestation_count_bind
      modifyS_def event_defs recorded_def new_attestation_def Let_def)

lemma count_room_issued: "count_room e \<longleftrightarrow> \<not> 2 ^ 64 \<le> Suc (unat (storage_get_attestation_count e))"
  by (simp add: count_room_def not_le)

lemma registry_of_recorded:
  assumes "contract_inv e" and "seq_room s ty e" and "count_room e"
  shows "registry_of (recorded a s ty h ttl e) =
    announce (AttestedEv s ty a h (saturating_add (ledger_timestamp e) ttl))
      (add_version s ty (attested_version (new_attestation a s ty h ttl e))
        ((registry_of e)\<lparr>rg_issued := Suc (unat (storage_get_attestation_count e))\<rparr>))"
proof -
  have "unat (storage_get_attestation_count e + 1) = Suc (unat (storage_get_attestation_count e))"
    using assms(3) by (simp add: count_room_def unat_next_seq)
  moreover have "registry_of (stored s ty att e\<lparr>inst_AttestationCount := Some n, published := evs\<rparr>) =
      (registry_of (stored s ty att e))\<lparr>rg_issued := unat n, rg_events := evs\<rparr>" for att n evs
    by (simp add: registry_of_def storage_get_attestation_count_def storage_is_paused_def
        storage_is_attestor_def)
  ultimately show ?thesis
    by (simp add: recorded_def registry_of_stored [OF assms(1,2)] announce_def add_version_def)
qed

lemma refine_record:
  assumes "contract_inv e"
  shows "spec_issue a s ty h ttl (registry_of e) =
    map_prod id registry_of (all_or_nothing (record_attestation a s ty h ttl) e)"
  using registry_of_recorded [OF assms, of s ty a h ttl]
  by (auto simp: spec_issue_def record_attestation_cases all_or_nothing_def answer_defs limit_for_registry
      versions_full_registry count_room_issued attested_version_def version_of_def history_entry_def
      new_attestation_def add_version_def Let_def split: option.split)

lemma refine_attest:
  assumes "contract_inv e"
  shows "call_refines (Attest a s ty h ttl) e"
  using refine_record [OF assms, of a s ty h ttl]
  by (auto simp: refine_simps by_attestor_def attest_def)

lemma validate_batch_cases:
  "validate_batch bs e = (case first_entry_error bs of None \<Rightarrow> (Ok (), e) | Some x \<Rightarrow> (Err x, e))"
  by (induction bs)
    (auto simp: retS_def failS_def entry_error_def validate_attestation_type_def
      MAX_ATTESTATION_TYPE_LEN_def bindS_def split: option.split)

lemma refine_batch:
  assumes "contract_inv e"
  shows "case record_batch a bs e of
      (Ok _, t) \<Rightarrow> spec_issue_all a bs (registry_of e) = (Ok (), registry_of t)
    | (r, _) \<Rightarrow> fst (spec_issue_all a bs (registry_of e)) = r"
  using assms
proof (induction bs arbitrary: e)
  case Nil
  then show ?case by (simp add: retS_def)
next
  case (Cons b bs)
  obtain r t where rec: "record_attestation a (be_subject b) (be_attestation_type b) (be_payload_hash b)
      (be_ttl_seconds b) e = (r, t)" by fastforce
  note spec = refine_record [OF Cons.prems, of a "be_subject b" "be_attestation_type b"
      "be_payload_hash b" "be_ttl_seconds b"]
  show ?case
  proof (cases r)
    case (Ok u)
    then have "contract_inv t" using inv_record_attestation [OF Cons.prems] rec by simp
    from Cons.IH [OF this] show ?thesis
      using Ok rec spec by (auto simp: bindS_def split: prod.splits outcome.splits)
  qed (use rec spec in \<open>simp_all add: bindS_def\<close>)
qed

lemma attest_batch_cases:
  "attest_batch a bs e =
     (if storage_is_paused e then (Err ContractPaused, e)
      else if \<not> authorized e a then (Panic, e)
      else if \<not> storage_is_attestor a e then (Err AttestorNotRegistered, e)
      else if bs = [] then (Err EmptyBatch, e)
      else
        case first_entry_error bs of
          Some x \<Rightarrow> (Err x, e)
        | None \<Rightarrow> record_batch a bs e)"
  by (simp add: attest_batch_def require_auth_bind failS_def panicS_def bindS_branches validate_batch_cases
      split: option.split del: validate_batch.simps record_batch.simps)

lemma refine_attest_batch:
  assumes "contract_inv e"
  shows "call_refines (AttestBatch a bs) e"
proof -
  have "map_prod id registry_of (all_or_nothing (record_batch a bs) e) =
      all_or_nothing (spec_issue_all a bs) (registry_of e)"
    using refine_batch [OF assms, of a bs]
    by (auto simp: all_or_nothing_def split: prod.splits outcome.splits)
  then show ?thesis
    unfolding call_refines_def invoke_call_def
    by (auto simp: by_attestor_def attest_batch_cases all_or_nothing_def answer_defs
        simp del: record_batch.simps spec_issue_all.simps split: option.split)
qed

lemma revoke_cases:
  "revoke c s ty e =
     (if storage_is_paused e then (Err ContractPaused, e)
      else if \<not> authorized e c then (Panic, e)
      else
        case pers_Attestation e (s, ty) of
          None \<Rightarrow> (Err AttestationNotFound, e)
        | Some a \<Rightarrow>
            (case inst_Admin e of
               None \<Rightarrow> (Err NotInitialized, e)
             | Some adm \<Rightarrow>
                 if c \<noteq> adm \<and> c \<noteq> att_attestor a then (Err Unauthorized, e)
                 else if att_status a = Revoked then (Err AttestationAlreadyRevoked, e)
                 else if \<not> seq_room s ty e
                 then (Panic, storage_set_attestation s ty (a\<lparr>att_status := Revoked\<rparr>) e)
                 else (Ok (), (stored s ty (a\<lparr>att_status := Revoked\<rparr>) e)
                        \<lparr>published := published e @ [RevokedEv s ty c]\<rparr>)))"
  by (auto simp: revoke_def require_auth_bind failS_def panicS_def get_attestation_bind get_admin_bind
      set_then_push modifyS_def event_defs Let_def split: option.splits)

lemma registry_of_published [simp]:
  "registry_of (e\<lparr>published := evs\<rparr>) = (registry_of e)\<lparr>rg_events := evs\<rparr>"
  "registry_of (e\<lparr>ttl_bumps := bumps\<rparr>) = registry_of e"
  "registry_of (e\<lparr>inst_MultiSigConfig := c\<rparr>) = (registry_of e)\<lparr>rg_signers := c\<rparr>"
  "registry_of (e\<lparr>ledger_timestamp := now\<rparr>) = (registry_of e)\<lparr>rg_now := now\<rparr>"
  "registry_of (e\<lparr>authorized := auths\<rparr>) = (registry_of e)\<lparr>rg_auths := auths\<rparr>"
  by (simp_all add: registry_of_def storage_is_paused_def storage_is_attestor_def
      storage_get_attestation_count_def)

lemma attested_version_revoked:
  "attested_version (a\<lparr>att_status := st\<rparr>) = (attested_version a)\<lparr>ver_status := st\<rparr>"
  by (simp add: attested_version_def version_of_def history_entry_def)

lemma refine_revoke:
  assumes "contract_inv e"
  shows "call_refines (Revoke c s ty) e"
  using registry_of_stored [OF assms, of s ty]
  by (auto simp: call_refines_def invoke_call_def all_or_nothing_def answer_defs by_owner_def revoke_cases
      current_registry [OF assms] versions_full_registry attested_version_revoked add_version_def
      split: option.split)

lemma renew_attestation_cases:
  "renew_attestation c s ty e =
     (if \<not> authorized e c then (Panic, e)
      else
        case pers_Attestation e (s, ty) of
          None \<Rightarrow> (Err AttestationNotFound, e)
        | Some a \<Rightarrow>
            (case inst_Admin e of
               None \<Rightarrow> (Err NotInitialized, e)
             | Some adm \<Rightarrow>
                 if c \<noteq> adm \<and> c \<noteq> att_attestor a then (Err Unauthorized, e)
                 else (Ok (), e\<lparr>ttl_bumps := ttl_bumps e @ [(AttestationKey s ty, rent_window a e)],
                         published := published e @ [AttestationRenewedEv s ty c]\<rparr>)))"
  by (auto simp: renew_attestation_def require_auth_bind failS_def panicS_def get_attestation_bind
      get_admin_bind modifyS_def event_defs storage_set_attestation_def extend_ttl_def
      rent_window_def Let_def map_upd_triv fun_upd_idem split: option.splits prod.splits)

lemma refine_renew_attestation:
  assumes "contract_inv e"
  shows "call_refines (RenewAttestation c s ty) e"
  by (auto simp: call_refines_def invoke_call_def all_or_nothing_def answer_defs by_owner_def
      renew_attestation_cases current_registry [OF assms] split: option.split)

lemma refine_initialize_multisig: "call_refines (InitializeMultisig signers threshold) e"
  by (auto simp: call_refines_def invoke_call_def all_or_nothing_def answer_defs initialize_multisig_def
      multisig_initialize_multisig_def storage_is_initialized_def storage_has_multisig_config_def
      config_error_def has_duplicate_iff failS_def modifyS_def storage_set_multisig_config_def)

lemma rotate_signers_cases:
  "rotate_signers signers threshold si e =
     (case inst_MultiSigConfig e of
        None \<Rightarrow> (Err NotInitialized, e)
      | Some c \<Rightarrow>
          if count_valid_signers (ms_signers c) (si_signers si) < unat (ms_threshold c)
          then (Err InsufficientSignatures, e)
          else
            (case config_error signers threshold of
               Some x \<Rightarrow> (Err x, e)
             | None \<Rightarrow>
                 (Ok (), e\<lparr>inst_MultiSigConfig := Some (c\<lparr>ms_signers := signers, ms_threshold := threshold,
                             ms_nonce := saturating_add (ms_nonce c) 1\<rparr>),
                           published := published e @ [SignersRotatedEv threshold]\<rparr>)))"
  by (auto simp: rotate_signers_def get_multisig_config_bind multisig_rotate_signers_def config_error_def
      has_duplicate_iff failS_def bindS_def modifyS_def storage_set_multisig_config_def
      storage_get_multisig_config_def event_defs split: option.splits)

lemma refine_rotate_signers: "call_refines (RotateSigners signers threshold si) e"
  by (auto simp: call_refines_def invoke_call_def all_or_nothing_def answer_defs spec_rotate_def
      rotate_signers_cases count_valid_signers_filter split: option.split)

lemma refine_call: "contract_inv e \<Longrightarrow> call_refines c e"
  by (cases c)
    (simp_all add: refine_initialize refine_admin_calls refine_attestors refine_attest refine_attest_batch
      refine_revoke refine_renew_attestation refine_initialize_multisig refine_rotate_signers)

section \<open>Whole runs\<close>

text \<open>
  What happens on the ledger between calls: time passes, and an invocation carries other
  authorisations. The clock stops at its largest value.
\<close>

datatype ledger_op = Call call | Advance u64 | Sign "Address \<Rightarrow> bool"

fun ledger_run :: "ledger_op \<Rightarrow> env \<Rightarrow> (Error, unit) outcome \<times> env" where
  "ledger_run (Call c) e = invoke_call c e"
| "ledger_run (Advance secs) e =
     (Ok (), e\<lparr>ledger_timestamp := saturating_add (ledger_timestamp e) secs\<rparr>)"
| "ledger_run (Sign auths) e = (Ok (), e\<lparr>authorized := auths\<rparr>)"

fun spec_run :: "ledger_op \<Rightarrow> registry \<Rightarrow> (Error, unit) outcome \<times> registry" where
  "spec_run (Call c) g = spec_call c g"
| "spec_run (Advance secs) g = (Ok (), g\<lparr>rg_now := saturating_add (rg_now g) secs\<rparr>)"
| "spec_run (Sign auths) g = (Ok (), g\<lparr>rg_auths := auths\<rparr>)"

lemma inv_clock_auths [simp]:
  "contract_inv (e\<lparr>ledger_timestamp := now\<rparr>) = contract_inv e"
  "contract_inv (e\<lparr>authorized := auths\<rparr>) = contract_inv e"
  by (simp_all add: inv_defs cong: option.case_cong)

interpretation registry: data_refinement ledger_run spec_run registry_of contract_inv
proof (unfold_locales, goal_cases)
  case (1 e c)
  then show ?case by (cases c) (simp_all add: invoke_call_inv)
next
  case (2 e c)
  then show ?case using refine_call by (cases c) (simp_all add: call_refines_def)
qed

definition spec_is_valid :: "Address \<Rightarrow> Symbol \<Rightarrow> registry \<Rightarrow> bool" where
  "spec_is_valid s ty g =
     (case current s ty g of
        None \<Rightarrow> False | Some v \<Rightarrow> ver_status v = Active \<and> rg_now g < ver_expires_at v)"

definition empty_registry :: "u64 \<Rightarrow> (Address \<Rightarrow> bool) \<Rightarrow> registry" where
  "empty_registry now auths =
     \<lparr>rg_admin = None, rg_paused = False, rg_attestors = {},
      rg_default_limit = DEFAULT_MAX_ATTESTATION_TTL_SECONDS, rg_limits = (\<lambda>_. None),
      rg_versions = (\<lambda>_. []), rg_issued = 0, rg_signers = None, rg_now = now, rg_auths = auths,
      rg_events = []\<rparr>"

definition deployed :: "u64 \<Rightarrow> (Address \<Rightarrow> bool) \<Rightarrow> env" where
  "deployed now auths = empty_env\<lparr>ledger_timestamp := now, authorized := auths\<rparr>"

lemma deployed_inv: "contract_inv (deployed now auths)"
  by (rule fresh_inv) (auto simp: fresh_def deployed_def)

lemma registry_of_deployed: "registry_of (deployed now auths) = empty_registry now auths"
proof -
  have "history_log s ty (deployed now auths) = []" for s ty
    using history_log_length [of s ty "deployed now auths"]
    by (simp add: deployed_def empty_env_def storage_get_attestation_seq_def)
  then show ?thesis
    by (simp add: registry_of_def empty_registry_def storage_is_paused_def storage_is_attestor_def
        storage_get_attestation_count_def fun_eq_iff) (simp add: deployed_def empty_env_def)
qed

lemma is_valid_registry: "contract_inv e \<Longrightarrow> is_valid s ty e \<longleftrightarrow> spec_is_valid s ty (registry_of e)"
  by (simp add: is_valid_def spec_is_valid_def current_registry storage_get_attestation_def
      split: option.split)

section \<open>Errors of each call\<close>

definition admin_errors :: "Error set" where "admin_errors = {NotInitialized}"
definition issue_errors :: "Error set" where
  "issue_errors = {ContractPaused, AttestorNotRegistered, InvalidExpiration, AttestationTypeTooLong, ExceedsMaxTtl}"
definition owner_errors :: "Error set" where "owner_errors = {AttestationNotFound, NotInitialized, Unauthorized}"
definition config_errors :: "Error set" where "config_errors = {EmptySignerList, InvalidThreshold, DuplicateSigner}"

fun call_errors :: "call \<Rightarrow> Error set" where
  "call_errors (Initialize _) = {AlreadyInitialized}"
| "call_errors (SetAdmin _) = admin_errors"
| "call_errors Pause = admin_errors"
| "call_errors Unpause = admin_errors"
| "call_errors (AddAttestor _) = insert AttestorAlreadyRegistered admin_errors"
| "call_errors (RemoveAttestor _) = insert AttestorNotRegistered admin_errors"
| "call_errors (RenewAttestor _) = insert AttestorNotRegistered admin_errors"
| "call_errors (SetDefaultMaxTtl _) = insert InvalidExpiration admin_errors"
| "call_errors (SetMaxTtl _ _) = insert InvalidExpiration admin_errors"
| "call_errors (Attest _ _ _ _ _) = issue_errors"
| "call_errors (AttestBatch _ _) = insert EmptyBatch issue_errors"
| "call_errors (Revoke _ _ _) = {ContractPaused, AttestationAlreadyRevoked} \<union> owner_errors"
| "call_errors (RenewAttestation _ _ _) = owner_errors"
| "call_errors (InitializeMultisig _ _) = insert AlreadyInitialized config_errors"
| "call_errors (RotateSigners _ _ _) = {NotInitialized, InsufficientSignatures} \<union> config_errors"

lemma entry_error_errors: "entry_error ty ttl = Some x \<Longrightarrow> x \<in> issue_errors"
  by (auto simp: entry_error_def issue_errors_def split: if_splits)

lemma first_entry_error_errors: "first_entry_error bs = Some x \<Longrightarrow> x \<in> issue_errors"
  by (induction bs) (auto dest: entry_error_errors split: option.splits)

lemma spec_issue_errors: "fst (spec_issue a s ty h ttl g) = Err x \<Longrightarrow> x \<in> issue_errors"
  by (auto simp: spec_issue_def answer_defs Let_def dest: entry_error_errors
      split: option.splits if_splits) (simp_all add: issue_errors_def)

lemma spec_issue_all_errors: "fst (spec_issue_all a bs g) = Err x \<Longrightarrow> x \<in> issue_errors"
proof (induction bs arbitrary: g)
  case (Cons b bs)
  then show ?case
    using spec_issue_errors [of a "be_subject b" "be_attestation_type b" "be_payload_hash b"
        "be_ttl_seconds b" g]
    by (auto split: prod.splits outcome.splits)
qed simp

lemma config_error_errors: "config_error ss th = Some x \<Longrightarrow> x \<in> config_errors"
  by (auto simp: config_error_def config_errors_def split: if_splits)

lemma by_attestor_errors:
  "fst (by_attestor a f g) = Err x \<Longrightarrow> x \<in> issue_errors \<or> fst (f g) = Err x"
  by (auto simp: by_attestor_def answer_defs issue_errors_def split: if_splits)

lemma all_or_nothing_fst: "fst (all_or_nothing m s) = fst (m s)"
  by (simp add: all_or_nothing_def split: prod.split outcome.split)

lemma spec_call_errors: "fst (spec_call c g) = Err x \<Longrightarrow> x \<in> call_errors c"
proof (cases c)
  case (AttestBatch a bs)
  assume "fst (spec_call c g) = Err x"
  then show ?thesis
    using AttestBatch
    by (auto simp: answer_defs all_or_nothing_fst dest!: by_attestor_errors spec_issue_all_errors
        dest: first_entry_error_errors split: if_splits option.splits)
qed (auto simp: by_admin_def by_owner_def spec_rotate_def answer_defs admin_errors_def owner_errors_def
    dest!: by_attestor_errors spec_issue_errors dest: config_error_errors split: option.splits if_splits)

section \<open>Properties\<close>

text \<open>
  C2. The contract implements the registry: whatever calls are made of a deployed instance, in
  whatever order, with time passing and authorisations changing in between, every answer is the
  one the registry gives, and the storage it leaves abstracts to the registry's state, so that
  validity, the current version of every pair and the running count are those of the registry.
\<close>

theorem contract_refines_registry:
  "case run_ops ledger_run ops (deployed now auths) of (answers, e) \<Rightarrow>
     run_ops spec_run ops (empty_registry now auths) = (answers, registry_of e) \<and>
     (\<forall>s ty. is_valid s ty e = spec_is_valid s ty (registry_of e) \<and>
        map_option attested_version (storage_get_attestation s ty e) = current s ty (registry_of e)) \<and>
     unat (get_attestation_count e) = rg_issued (registry_of e)"
proof -
  obtain answers e where run: "run_ops ledger_run ops (deployed now auths) = (answers, e)" by fastforce
  have inv: "contract_inv e"
    using registry.runs_good [OF deployed_inv, of ops now auths] by (simp add: run)
  have "run_ops spec_run ops (empty_registry now auths) = (answers, registry_of e)"
    using registry.runs_commute [OF deployed_inv, of ops now auths] by (simp add: run registry_of_deployed)
  then show ?thesis
    using inv by (simp add: run is_valid_registry current_registry storage_get_attestation_def
        get_attestation_count_def)
qed

text \<open>
  C7. Every state-changing call answers within its signature: the errors it can report in a
  reachable state are those listed for it, a reported error leaves the ledger untouched, and five
  of the declared error codes are reported by none of them.
\<close>

theorem calls_answer_in_signature:
  assumes "reach fresh contract_step e" and "invoke_call c e = (Err x, t)"
  shows "x \<in> call_errors c \<and> t = e \<and>
    x \<notin> {AttestationExpired, InvalidDomain, SignerNotFound, InvalidSignature, DuplicateSignature}"
proof -
  have "call_refines c e" by (rule refine_call [OF contract.reach_invar [OF assms(1)]])
  then have x: "x \<in> call_errors c"
    using assms(2) by (intro spec_call_errors [of c "registry_of e"]) (simp add: call_refines_def)
  then have "x \<notin> {AttestationExpired, InvalidDomain, SignerNotFound, InvalidSignature, DuplicateSignature}"
    by (cases c) (auto simp: admin_errors_def issue_errors_def owner_errors_def config_errors_def)
  moreover have "t = e"
    using assms(2) by (auto simp: invoke_call_def all_or_nothing_def split: prod.splits outcome.splits)
  ultimately show ?thesis using x by blast
qed

theorem calls_answer_in_signature_witness:
  "invoke_call Pause (deployed 5 (\<lambda>_. True)) = (Err NotInitialized, deployed 5 (\<lambda>_. True)) \<and>
   NotInitialized \<in> call_errors Pause"
proof -
  have pause: "invoke_call Pause (deployed 5 (\<lambda>_. True)) = (Err NotInitialized, deployed 5 (\<lambda>_. True))"
    by (simp add: invoke_call_def all_or_nothing_def pause_def get_admin_bind deployed_def empty_env_def)
  have "fresh (deployed 5 (\<lambda>_. True))" by (auto simp: fresh_def deployed_def)
  then have "reach fresh contract_step (deployed 5 (\<lambda>_. True))" by (rule reach.reach_init)
  from calls_answer_in_signature [OF this pause] pause show ?thesis by blast
qed

end
