(* ===== verification/Payload_Domain.thy ===== *)
theory Payload_Domain
  imports Anchor_Prelude
begin

text \<open>
  Payload digests (\<open>src/hash.rs\<close>) and the syntactic check of anchor domains
  (\<open>src/domain_validator.rs\<close>). The host's sha256 is a parameter. The single pass of the
  validator over the bytes is shown equal to a reference reading of the rules: split at
  the dots, and look at each label alone.
\<close>

section \<open>Payload digests\<close>

definition compute_payload_hash :: "(u8 list \<Rightarrow> 256 word) \<Rightarrow> u8 list \<Rightarrow> 256 word" where
  "compute_payload_hash sha256 payload = sha256 payload"

definition verify_payload_hash :: "(u8 list \<Rightarrow> 256 word) \<Rightarrow> u8 list \<Rightarrow> 256 word \<Rightarrow> bool" where
  "verify_payload_hash sha256 payload expected = (compute_payload_hash sha256 payload = expected)"

text \<open>Under a collision-free digest an anchored digest accepts its own payload and no other.\<close>

lemma verify_payload_hash_iff:
  "inj_on sha256 {p, q} \<Longrightarrow> verify_payload_hash sha256 q (compute_payload_hash sha256 p) \<longleftrightarrow> q = p"
  by (auto simp: verify_payload_hash_def compute_payload_hash_def inj_on_def)

section \<open>Domain syntax\<close>

definition MAX_DOMAIN_LEN :: u32 where "MAX_DOMAIN_LEN = 255"
definition MAX_LABEL_LEN :: u32 where "MAX_LABEL_LEN = 63"

text \<open>\<open>u8::is_ascii_alphanumeric\<close>; the bytes of \<open>-\<close> and \<open>.\<close> are 45 and 46.\<close>

definition is_ascii_alphanumeric :: "u8 \<Rightarrow> bool" where
  "is_ascii_alphanumeric c \<longleftrightarrow> 48 \<le> c \<and> c \<le> 57 \<or> 65 \<le> c \<and> c \<le> 90 \<or> 97 \<le> c \<and> c \<le> 122"

text \<open>
  The loop over the bytes, with its three variables; \<open>None\<close> is the early \<open>return false\<close>.
  The counter \<open>label_len\<close> stops at 64, where the loop returns.
\<close>

fun domain_loop :: "u8 list \<Rightarrow> bool \<Rightarrow> u32 \<Rightarrow> u8 option \<Rightarrow> (bool \<times> u32 \<times> u8 option) option" where
  "domain_loop [] has_dot label_len prev = Some (has_dot, label_len, prev)"
| "domain_loop (c # cs) has_dot label_len prev =
     (let is_alnum = is_ascii_alphanumeric c; is_dash = (c = 45); is_dot = (c = 46) in
      if \<not> is_alnum \<and> \<not> is_dash \<and> \<not> is_dot then None
      else if is_dot then
        if label_len = 0 \<or> prev = Some 45 then None
        else domain_loop cs True 0 (Some c)
      else if is_dash \<and> label_len = 0 then None
      else
        let label_len = label_len + 1 in
        if label_len > MAX_LABEL_LEN then None
        else domain_loop cs has_dot label_len (Some c))"

definition is_valid_domain_syntax :: "u32 \<Rightarrow> u8 list \<Rightarrow> bool" where
  "is_valid_domain_syntax len bytes =
     (if \<not> (3 \<le> len \<and> len \<le> MAX_DOMAIN_LEN) then False
      else
        case domain_loop bytes False 0 None of
          None \<Rightarrow> False
        | Some (has_dot, label_len, prev) \<Rightarrow>
            if label_len = 0 \<or> prev = Some 45 then False else has_dot)"

text \<open>
  The two entry points: on a host \<open>Bytes\<close>, whose length is a \<open>u32\<close>, and on a \<open>&str\<close>, whose
  length is cast to one with \<open>as u32\<close>.
\<close>

definition validate_anchor_domain :: "u8 list \<Rightarrow> bool" where
  "validate_anchor_domain domain = is_valid_domain_syntax (word_of_nat (length domain)) domain"

definition validate_domain_syntax :: "u8 list \<Rightarrow> bool" where
  "validate_domain_syntax domain = is_valid_domain_syntax (word_of_nat (length domain)) domain"

section \<open>The rules, label by label\<close>

abbreviation split_dots :: "u8 list \<Rightarrow> u8 list list" where
  "split_dots \<equiv> split_on 46"

definition label_char :: "u8 \<Rightarrow> bool" where
  "label_char c \<longleftrightarrow> is_ascii_alphanumeric c \<or> c = 45"

definition valid_label :: "u8 list \<Rightarrow> bool" where
  "valid_label l \<longleftrightarrow> l \<noteq> [] \<and> length l \<le> 63 \<and> list_all label_char l \<and> hd l \<noteq> 45 \<and> last l \<noteq> 45"

definition plausible_domain :: "u8 list \<Rightarrow> bool" where
  "plausible_domain d \<longleftrightarrow>
     3 \<le> length d \<and> length d \<le> 255 \<and> 2 \<le> length (split_dots d) \<and> list_all valid_label (split_dots d)"

lemma split_dots_dot: "2 \<le> length (split_dots cs) \<longleftrightarrow> 46 \<in> set cs"
proof -
  have "count_list cs 46 \<noteq> 0 \<longleftrightarrow> 46 \<in> set cs" by (simp add: count_list_0_iff)
  then show ?thesis unfolding length_split_on by linarith
qed

text \<open>The labels of what is still to come, the first one continued from \<open>cur\<close>.\<close>

definition labels_after :: "u8 list \<Rightarrow> u8 list \<Rightarrow> u8 list list" where
  "labels_after cur cs = (cur @ hd (split_dots cs)) # tl (split_dots cs)"

lemma labels_after_simps [simp]:
  "labels_after cur [] = [cur]"
  "labels_after cur (46 # cs) = cur # labels_after [] cs"
  "c \<noteq> 46 \<Longrightarrow> labels_after cur (c # cs) = labels_after (cur @ [c]) cs"
  by (auto simp: labels_after_def split: list.split)

definition loop_accepts :: "(bool \<times> u32 \<times> u8 option) option \<Rightarrow> bool" where
  "loop_accepts r = (case r of None \<Rightarrow> False
     | Some (has_dot, label_len, prev) \<Rightarrow>
         if label_len = 0 \<or> prev = Some 45 then False else has_dot)"

lemma loop_accepts_None [simp]: "\<not> loop_accepts None"
  by (simp add: loop_accepts_def)

text \<open>What the loop variables know of the current label \<open>cur\<close>.\<close>

definition label_prefix :: "u8 list \<Rightarrow> u32 \<Rightarrow> u8 option \<Rightarrow> bool" where
  "label_prefix cur label_len prev \<longleftrightarrow>
     unat label_len = length cur \<and> length cur \<le> 63 \<and> list_all label_char cur \<and>
     (cur \<noteq> [] \<longrightarrow> hd cur \<noteq> 45 \<and> prev = Some (last cur)) \<and>
     (cur = [] \<longrightarrow> prev \<noteq> Some 45)"

lemma label_prefix_end:
  "label_prefix cur n prev \<Longrightarrow> valid_label cur \<longleftrightarrow> \<not> (n = 0 \<or> prev = Some 45)"
  by (auto simp: label_prefix_def valid_label_def unat_eq_zero)

lemma invalid_first_label:
  assumes "\<not> (\<exists>rest. valid_label (cur @ rest))"
  shows "\<not> list_all valid_label (labels_after cur cs)"
  using assms by (auto simp: labels_after_def)

lemma label_prefix_snoc:
  assumes "label_prefix cur n prev" and "c \<noteq> 46"
  shows "(if label_char c \<and> \<not> (c = 45 \<and> n = 0) \<and> \<not> n + 1 > MAX_LABEL_LEN
          then label_prefix (cur @ [c]) (n + 1) (Some c)
          else \<not> (\<exists>rest. valid_label ((cur @ [c]) @ rest)))"
proof -
  have n: "unat (n + 1) = Suc (unat n)"
    using assms(1) unat_add_no_overflow [of n 1] by (simp add: label_prefix_def)
  have "n + 1 > MAX_LABEL_LEN \<longleftrightarrow> 63 < Suc (length cur)"
    using n assms(1) by (simp add: word_less_nat_alt MAX_LABEL_LEN_def label_prefix_def)
  then show ?thesis
    using assms n by (auto simp: label_prefix_def valid_label_def hd_append unat_eq_zero)
qed

lemma domain_loop_labels:
  "label_prefix cur n prev \<Longrightarrow>
     loop_accepts (domain_loop cs has_dot n prev) \<longleftrightarrow>
     list_all valid_label (labels_after cur cs) \<and> (has_dot \<or> 46 \<in> set cs)"
proof (induction cs arbitrary: cur n prev has_dot)
  case Nil
  then show ?case by (auto simp: loop_accepts_def label_prefix_end)
next
  case (Cons c cs)
  show ?case
  proof (cases "c = 46")
    case True
    have "label_prefix [] 0 (Some 46)" by (simp add: label_prefix_def)
    note IH = Cons.IH [OF this]
    show ?thesis
      using True label_prefix_end [OF Cons.prems] by (auto simp: IH)
  next
    case False
    have step: "domain_loop (c # cs) has_dot n prev =
        (if label_char c \<and> \<not> (c = 45 \<and> n = 0) \<and> \<not> n + 1 > MAX_LABEL_LEN
         then domain_loop cs has_dot (n + 1) (Some c) else None)"
      using False by (auto simp: label_char_def Let_def)
    note snoc = label_prefix_snoc [OF Cons.prems False]
    show ?thesis
    proof (cases "label_char c \<and> \<not> (c = 45 \<and> n = 0) \<and> \<not> n + 1 > MAX_LABEL_LEN")
      case True
      then have "label_prefix (cur @ [c]) (n + 1) (Some c)" using snoc by simp
      then show ?thesis
        using Cons.IH True False by (simp only: step if_True) auto
    next
      case bad: False
      then have "\<not> list_all valid_label (labels_after (cur @ [c]) cs)"
        using snoc by (intro invalid_first_label) (simp only: if_False not_False_eq_True)
      moreover have "domain_loop (c # cs) has_dot n prev = None"
        using bad by (simp only: step if_False)
      ultimately show ?thesis using False by (simp add: loop_accepts_def)
    qed
  qed
qed

lemma labels_after_Nil: "labels_after [] cs = split_dots cs"
  by (simp add: labels_after_def)

lemma is_valid_domain_syntax_iff:
  "is_valid_domain_syntax len d \<longleftrightarrow>
     3 \<le> unat len \<and> unat len \<le> 255 \<and> list_all valid_label (split_dots d) \<and> 46 \<in> set d"
proof -
  have "label_prefix [] 0 None" by (simp add: label_prefix_def)
  from domain_loop_labels [OF this, of d False]
  have "loop_accepts (domain_loop d False 0 None) \<longleftrightarrow>
      list_all valid_label (split_dots d) \<and> 46 \<in> set d"
    by (simp add: labels_after_Nil)
  then show ?thesis
    by (auto simp: is_valid_domain_syntax_def loop_accepts_def MAX_DOMAIN_LEN_def word_le_nat_alt)
qed

section \<open>Properties\<close>

text \<open>
  C23. The validator's single pass accepts exactly the plausible domains: 3 to 255 bytes,
  at least two dot-separated labels, each of 1 to 63 letters, digits and hyphens, with no
  hyphen at either end. This holds of every input shorter than \<open>2 ^ 32\<close> bytes, for both
  entry points.
\<close>

theorem domain_validator_exact:
  assumes "length d < 2 ^ 32"
  shows "(validate_anchor_domain d \<longleftrightarrow> plausible_domain d) \<and>
     (validate_domain_syntax d \<longleftrightarrow> plausible_domain d)"
proof -
  have "unat (word_of_nat (length d) :: u32) = length d"
    using assms by (simp add: unsigned_of_nat take_bit_nat_eq_self)
  then show ?thesis
    by (auto simp: validate_anchor_domain_def validate_domain_syntax_def plausible_domain_def
        is_valid_domain_syntax_iff split_dots_dot)
qed

theorem domain_validator_exact_witness:
  "validate_anchor_domain [97, 45, 98, 46, 99, 111] \<and> \<not> validate_anchor_domain [97, 45, 46, 99, 111]"
proof -
  have "plausible_domain [97, 45, 98, 46, 99, 111]" by code_simp
  moreover have "\<not> plausible_domain [97, 45, 46, 99, 111]" by code_simp
  ultimately show ?thesis
    using domain_validator_exact [of "[97, 45, 98, 46, 99, 111]"]
      domain_validator_exact [of "[97, 45, 46, 99, 111]"] by simp
qed

end
