(* ===== verification/Test_World.thy ===== *)
theory Test_World
  imports Registry_Refinement Payload_Domain
begin

text \<open>
  What the property tests of the contract share (\<open>src/attestation_model_proptest.rs\<close>,
  \<open>src/invariant_state_machine_proptest.rs\<close>): the actions, the range their generator draws from, and
  the contract instance they set up, with all authorisations mocked. \<open>gen\<close> gives the addresses in
  the order a harness generates them, \<open>start\<close> is the ledger time of a new environment, and \<open>sha256\<close>
  is the host's digest. The facts say what each action does to such an instance.
\<close>

section \<open>Actions\<close>

definition NUM_ATTESTORS :: nat where "NUM_ATTESTORS = 2"
definition NUM_SUBJECTS :: nat where "NUM_SUBJECTS = 2"
definition NUM_TYPES :: nat where "NUM_TYPES = 2"
definition NUM_CALLERS :: nat where "NUM_CALLERS = 1 + NUM_ATTESTORS + 1"
definition MAX_TTL_SECONDS :: u64 where "MAX_TTL_SECONDS = 100000"
definition MAX_ADVANCE_SECONDS :: u64 where "MAX_ADVANCE_SECONDS = 200000"

datatype Action =
    AttestAct nat nat nat u64
  | RevokeAct nat nat nat
  | PauseAct
  | UnpauseAct
  | AdvanceTime u64

text \<open>The actions the generator can produce.\<close>

fun action_strategy :: "Action \<Rightarrow> bool" where
  "action_strategy (AttestAct attestor subject kind ttl) \<longleftrightarrow>
     attestor < NUM_ATTESTORS \<and> subject < NUM_SUBJECTS \<and> kind < NUM_TYPES \<and>
     1 \<le> ttl \<and> ttl \<le> MAX_TTL_SECONDS"
| "action_strategy (RevokeAct caller subject kind) \<longleftrightarrow>
     caller < NUM_CALLERS \<and> subject < NUM_SUBJECTS \<and> kind < NUM_TYPES"
| "action_strategy PauseAct \<longleftrightarrow> True"
| "action_strategy UnpauseAct \<longleftrightarrow> True"
| "action_strategy (AdvanceTime secs) \<longleftrightarrow> secs \<le> MAX_ADVANCE_SECONDS"

section \<open>The fixture\<close>

record fixture =
  fx_admin :: Address
  fx_attestors :: "Address list"
  fx_callers :: "Address list"
  fx_subjects :: "Address list"
  fx_kinds :: "Symbol list"
  fx_hash :: Bytes32

text \<open>Indexing a vector: out of range is the panic, \<open>None\<close>.\<close>

definition at :: "'a list \<Rightarrow> nat \<Rightarrow> 'a option" where
  "at xs i = (if i < length xs then Some (xs ! i) else None)"

definition make_fixture :: "(nat \<Rightarrow> Address) \<Rightarrow> (u8 list \<Rightarrow> 256 word) \<Rightarrow> fixture" where
  "make_fixture gen sha256 =
     (let admin = gen 0;
          attestors = map (\<lambda>i. gen (1 + i)) [0..<NUM_ATTESTORS];
          outsider = gen (1 + NUM_ATTESTORS)
      in \<lparr>fx_admin = admin, fx_attestors = attestors,
          fx_callers = [admin] @ attestors @ [outsider],
          fx_subjects = map (\<lambda>i. gen (2 + NUM_ATTESTORS + i)) [0..<NUM_SUBJECTS],
          fx_kinds = map (\<lambda>i. if i = 0 then ''kyc_approved'' else ''payment_confirmed'') [0..<NUM_TYPES],
          fx_hash = compute_payload_hash sha256 [112, 97, 121, 108, 111, 97, 100]\<rparr>)"

text \<open>
  A \<open>client.f\<close> call panics unless the contract succeeds; \<open>client.try_f\<close> reports whether it did.
\<close>

definition client_call :: "call \<Rightarrow> env \<Rightarrow> env option" where
  "client_call c e = (case invoke_call c e of (Ok _, t) \<Rightarrow> Some t | _ \<Rightarrow> None)"

definition client_try :: "call \<Rightarrow> env \<Rightarrow> bool \<times> env" where
  "client_try c e = (case invoke_call c e of (Ok _, t) \<Rightarrow> (True, t) | (_, t) \<Rightarrow> (False, t))"

fun client_calls :: "call list \<Rightarrow> env \<Rightarrow> env option" where
  "client_calls [] e = Some e"
| "client_calls (c # cs) e = Option.bind (client_call c e) (client_calls cs)"

definition fixture_env :: "u64 \<Rightarrow> fixture \<Rightarrow> env option" where
  "fixture_env start fx =
     client_calls (Initialize (fx_admin fx) # map AddAttestor (fx_attestors fx))
       (deployed start (\<lambda>_. True))"

section \<open>The contract in a harness\<close>

text \<open>
  What every harness built on the fixture maintains of the contract after \<open>n\<close> actions: all calls
  are authorised, the administrator and the attestors stay, no limit is set and the counters have
  counted at most the actions.
\<close>

definition test_world :: "fixture \<Rightarrow> nat \<Rightarrow> env \<Rightarrow> bool" where
  "test_world fx n e \<longleftrightarrow>
     contract_inv e \<and> inst_Admin e = Some (fx_admin fx) \<and> authorized e = (\<lambda>_. True) \<and>
     (\<forall>a \<in> set (fx_attestors fx). storage_is_attestor a e) \<and>
     inst_MaxAttestationTtl e = (\<lambda>_. None) \<and> inst_DefaultMaxAttestationTtl e = None \<and>
     unat (storage_get_attestation_count e) \<le> n \<and>
     (\<forall>s ty. unat (storage_get_attestation_seq s ty e) \<le> n)"

lemma test_world_room:
  assumes "test_world fx n e" and "n + 1 < 2 ^ 64"
  shows "seq_room s ty e" and "count_room e"
proof -
  have "unat (storage_get_attestation_seq s ty e) \<le> n" "unat (storage_get_attestation_count e) \<le> n"
    using assms(1) by (simp_all add: test_world_def)
  with assms(2) show "seq_room s ty e" and "count_room e"
    unfolding seq_room_def count_room_def by linarith+
qed

lemma test_world_limit: "test_world fx n e \<Longrightarrow> storage_get_max_attestation_ttl ty e = 31536000"
  by (simp add: test_world_def storage_get_max_attestation_ttl_def DEFAULT_MAX_ATTESTATION_TTL_SECONDS_def)

lemma seq_frame [simp]:
  "storage_get_attestation_seq s ty (e\<lparr>published := evs\<rparr>) = storage_get_attestation_seq s ty e"
  "storage_get_attestation_seq s ty (e\<lparr>inst_AttestationCount := k\<rparr>) = storage_get_attestation_seq s ty e"
  "storage_get_attestation_seq s ty (e\<lparr>inst_Paused := b\<rparr>) = storage_get_attestation_seq s ty e"
  "storage_get_attestation_seq s ty (e\<lparr>ledger_timestamp := now\<rparr>) = storage_get_attestation_seq s ty e"
  by (simp_all add: storage_get_attestation_seq_def)

lemma seq_stored_le:
  assumes "seq_room s ty e" and "\<forall>s ty. unat (storage_get_attestation_seq s ty e) \<le> n"
  shows "unat (storage_get_attestation_seq s' ty' (stored s ty att e)) \<le> Suc n"
  using assms by (auto simp: seq_stored next_seq_def seq_room_def unat_next_seq le_SucI)

lemma test_world_attest:
  assumes "test_world fx n e" and "n + 1 < 2 ^ 64" and "a \<in> set (fx_attestors fx)"
    and "1 \<le> ttl" "ttl \<le> MAX_TTL_SECONDS" and "length ty \<le> 24"
  shows "client_try (Attest a s ty h ttl) e =
      (if storage_is_paused e then (False, e) else (True, recorded a s ty h ttl e))"
    and "\<not> storage_is_paused e \<Longrightarrow> test_world fx (Suc n) (recorded a s ty h ttl e)"
proof -
  have room: "seq_room s ty e" "count_room e" by (rule test_world_room [OF assms(1,2)])+
  have ttl: "ttl \<noteq> 0" "ttl \<le> storage_get_max_attestation_ttl ty e"
    using assms(4,5) by (auto simp: test_world_limit [OF assms(1)] MAX_TTL_SECONDS_def word_le_nat_alt)
  have auth: "authorized e a" "storage_is_attestor a e" using assms(1,3) by (auto simp: test_world_def)
  have ok: "run_call (Attest a s ty h ttl) e = (Ok (), recorded a s ty h ttl e)" if "\<not> storage_is_paused e"
    using that auth ttl room assms(6) by (simp add: attest_Ok_iff record_attestation_Ok_iff)
  have paused: "run_call (Attest a s ty h ttl) e = (Err ContractPaused, e)" if "storage_is_paused e"
    using that by (simp add: attest_def failS_def)
  show "client_try (Attest a s ty h ttl) e =
      (if storage_is_paused e then (False, e) else (True, recorded a s ty h ttl e))"
    using ok paused by (auto simp: client_try_def invoke_call_def all_or_nothing_def)
  assume running: "\<not> storage_is_paused e"
  have "contract_inv e" using assms(1) by (simp add: test_world_def)
  then have "contract_inv (recorded a s ty h ttl e)" by (rule inv_call [OF _ ok [OF running]])
  moreover have "unat (storage_get_attestation_count e + 1) \<le> Suc n"
    using assms(1) room by (simp add: test_world_def count_room_def unat_next_seq)
  ultimately show "test_world fx (Suc n) (recorded a s ty h ttl e)"
    using assms(1) seq_stored_le [OF room(1)]
    by (simp add: test_world_def recorded_def storage_get_attestation_count_def storage_is_attestor_def)
qed

definition revoked :: "Address \<Rightarrow> Address \<Rightarrow> Symbol \<Rightarrow> Attestation \<Rightarrow> env \<Rightarrow> env" where
  "revoked c s ty att e =
     (stored s ty (att\<lparr>att_status := Revoked\<rparr>) e)\<lparr>published := published e @ [RevokedEv s ty c]\<rparr>"

definition may_revoke :: "fixture \<Rightarrow> Address \<Rightarrow> Attestation \<Rightarrow> env \<Rightarrow> bool" where
  "may_revoke fx c att e \<longleftrightarrow>
     \<not> storage_is_paused e \<and> (c = fx_admin fx \<or> c = att_attestor att) \<and> att_status att = Active"

lemma test_world_revoke:
  assumes "test_world fx n e" and "n + 1 < 2 ^ 64"
  shows "client_try (Revoke c s ty) e =
      (case pers_Attestation e (s, ty) of
         None \<Rightarrow> (False, e)
       | Some att \<Rightarrow> if may_revoke fx c att e then (True, revoked c s ty att e) else (False, e))"
    and "pers_Attestation e (s, ty) = Some att \<Longrightarrow> may_revoke fx c att e \<Longrightarrow>
      test_world fx (Suc n) (revoked c s ty att e)"
proof -
  have room: "seq_room s ty e" by (rule test_world_room [OF assms])
  have world: "contract_inv e" "inst_Admin e = Some (fx_admin fx)" "authorized e = (\<lambda>_. True)"
    using assms(1) by (simp_all add: test_world_def)
  show "client_try (Revoke c s ty) e =
      (case pers_Attestation e (s, ty) of
         None \<Rightarrow> (False, e)
       | Some att \<Rightarrow> if may_revoke fx c att e then (True, revoked c s ty att e) else (False, e))"
    using room world(2,3)
    by (auto simp: client_try_def invoke_call_def all_or_nothing_def revoke_cases may_revoke_def revoked_def
        split: option.split)
  assume "pers_Attestation e (s, ty) = Some att" and "may_revoke fx c att e"
  then have "run_call (Revoke c s ty) e = (Ok (), revoked c s ty att e)"
    using room world(2,3) by (auto simp: revoke_cases may_revoke_def revoked_def)
  then have "contract_inv (revoked c s ty att e)" by (rule inv_call [OF world(1)])
  then show "test_world fx (Suc n) (revoked c s ty att e)"
    using assms(1) seq_stored_le [OF room]
    by (simp add: test_world_def revoked_def storage_get_attestation_count_def storage_is_attestor_def
        stored_def [of _ _ _ e] le_SucI)
qed

definition switched :: "bool \<Rightarrow> env \<Rightarrow> env" where
  "switched b e = e\<lparr>inst_Paused := Some b, published := published e @ [PauseToggledEv b]\<rparr>"

lemma test_world_switch:
  assumes "test_world fx n e"
  shows "client_call Pause e = Some (switched True e)" and "client_call Unpause e = Some (switched False e)"
    and "test_world fx n (switched b e)"
proof -
  have world: "contract_inv e" "inst_Admin e = Some (fx_admin fx)" "authorized e = (\<lambda>_. True)"
    using assms by (simp_all add: test_world_def)
  have run: "run_call Pause e = (Ok (), switched True e)" "run_call Unpause e = (Ok (), switched False e)"
    using world(2,3) by (simp_all add: pause_Ok_iff unpause_Ok_iff switched_def)
  then show "client_call Pause e = Some (switched True e)" and "client_call Unpause e = Some (switched False e)"
    by (simp_all add: client_call_def invoke_call_def all_or_nothing_def)
  have "contract_inv (switched b e)"
    using inv_call [OF world(1) run(1)] inv_call [OF world(1) run(2)] by (cases b) simp_all
  then show "test_world fx n (switched b e)"
    using assms by (simp add: test_world_def switched_def storage_get_attestation_count_def
        storage_is_attestor_def)
qed

lemma clock_frame [simp]:
  "storage_is_paused (e\<lparr>ledger_timestamp := now\<rparr>) = storage_is_paused e"
  "storage_is_attestor a (e\<lparr>ledger_timestamp := now\<rparr>) = storage_is_attestor a e"
  "storage_get_attestation_count (e\<lparr>ledger_timestamp := now\<rparr>) = storage_get_attestation_count e"
  "storage_get_max_attestation_ttl ty (e\<lparr>ledger_timestamp := now\<rparr>) = storage_get_max_attestation_ttl ty e"
  by (simp_all add: storage_is_paused_def storage_is_attestor_def storage_get_attestation_count_def
      storage_get_max_attestation_ttl_def split: option.split)

lemma test_world_advance:
  "test_world fx n e \<Longrightarrow> test_world fx n (e\<lparr>ledger_timestamp := now\<rparr>)"
  by (simp add: test_world_def)

lemma test_world_mono: "test_world fx n e \<Longrightarrow> n \<le> n' \<Longrightarrow> test_world fx n' e"
  by (auto simp: test_world_def intro: le_trans)

lemma client_call_inv: "client_call c e = Some t \<Longrightarrow> contract_inv e \<Longrightarrow> contract_inv t"
  using invoke_call_inv [of e c] by (auto simp: client_call_def split: prod.splits outcome.splits)

lemma client_calls_inv: "client_calls cs e = Some t \<Longrightarrow> contract_inv e \<Longrightarrow> contract_inv t"
proof (induction cs arbitrary: e)
  case (Cons c cs)
  then show ?case by (auto simp: bind_eq_Some_conv dest: client_call_inv)
qed simp

definition fixture_ok :: "fixture \<Rightarrow> bool" where
  "fixture_ok fx \<longleftrightarrow>
     length (fx_attestors fx) = NUM_ATTESTORS \<and> length (fx_callers fx) = NUM_CALLERS \<and>
     length (fx_subjects fx) = NUM_SUBJECTS \<and> length (fx_kinds fx) = NUM_TYPES \<and>
     distinct (fx_attestors fx) \<and> distinct (fx_subjects fx) \<and> distinct (fx_kinds fx) \<and>
     (\<forall>ty \<in> set (fx_kinds fx). length ty \<le> 24)"

lemma make_fixture_ok: "inj gen \<Longrightarrow> fixture_ok (make_fixture gen sha256)"
  by (simp add: fixture_ok_def make_fixture_def NUM_ATTESTORS_def NUM_SUBJECTS_def NUM_TYPES_def
      NUM_CALLERS_def upt_rec numeral_2_eq_2 inj_eq Let_def)

text \<open>What the set-up leaves: nothing stored yet, not paused.\<close>

definition untouched :: "env \<Rightarrow> bool" where
  "untouched e \<longleftrightarrow> pers_Attestation e = (\<lambda>_. None) \<and> \<not> storage_is_paused e \<and>
     storage_get_attestation_count e = 0"

lemma add_attestor_client:
  assumes "inst_Admin e = Some adm" and "authorized e = (\<lambda>_. True)" and "\<not> storage_is_attestor a e"
  shows "client_call (AddAttestor a) e =
    Some (e\<lparr>pers_Attestor := (pers_Attestor e)(a \<mapsto> True),
      ttl_bumps := ttl_bumps e @ [(Attestor a, ATTESTOR_TTL_THRESHOLD, ATTESTOR_TTL_EXTEND_TO)],
      published := published e @ [AttestorAddedEv a]\<rparr>)"
proof -
  have "run_call (AddAttestor a) e =
    (Ok (), e\<lparr>pers_Attestor := (pers_Attestor e)(a \<mapsto> True),
      ttl_bumps := ttl_bumps e @ [(Attestor a, ATTESTOR_TTL_THRESHOLD, ATTESTOR_TTL_EXTEND_TO)],
      published := published e @ [AttestorAddedEv a]\<rparr>)"
    using assms by (simp add: add_attestor_Ok_iff)
  then show ?thesis by (simp add: client_call_def invoke_call_def all_or_nothing_def)
qed

lemma initialize_client:
  "client_call (Initialize a) (deployed start (\<lambda>_. True)) =
     Some ((deployed start (\<lambda>_. True))\<lparr>inst_Admin := Some a, inst_Paused := Some False,
       published := [InitializedEv a]\<rparr>)"
proof -
  have "run_call (Initialize a) (deployed start (\<lambda>_. True)) =
      (Ok (), (deployed start (\<lambda>_. True))\<lparr>inst_Admin := Some a, inst_Paused := Some False,
        published := [InitializedEv a]\<rparr>)"
    by (simp add: initialize_Ok_iff deployed_def empty_env_def)
  then show ?thesis by (simp add: client_call_def invoke_call_def all_or_nothing_def)
qed

lemma fixture_env_world:
  assumes "fixture_ok fx"
  shows "\<exists>e. fixture_env start fx = Some e \<and> test_world fx 0 e \<and> untouched e"
proof -
  obtain a b where ab: "fx_attestors fx = [a, b]" "a \<noteq> b"
    using assms by (auto simp: fixture_ok_def NUM_ATTESTORS_def length_Suc_conv numeral_2_eq_2)
  let ?e0 = "(deployed start (\<lambda>_. True))\<lparr>inst_Admin := Some (fx_admin fx), inst_Paused := Some False,
    published := [InitializedEv (fx_admin fx)]\<rparr>"
  obtain e where e: "client_calls [AddAttestor a, AddAttestor b] ?e0 = Some e"
    and facts: "inst_Admin e = Some (fx_admin fx)" "authorized e = (\<lambda>_. True)"
      "storage_is_attestor a e" "storage_is_attestor b e"
      "inst_MaxAttestationTtl e = (\<lambda>_. None)" "inst_DefaultMaxAttestationTtl e = None"
      "inst_AttestationCount e = None" "pers_AttestationSeq e = (\<lambda>_. None)"
      "pers_Attestation e = (\<lambda>_. None)" "inst_Paused e = Some False"
    using ab(2) by (simp add: add_attestor_client storage_is_attestor_def deployed_def empty_env_def)
  have env: "fixture_env start fx = Some e"
    using e by (simp add: fixture_env_def ab initialize_client)
  then have "contract_inv e"
    unfolding fixture_env_def by (rule client_calls_inv [OF _ deployed_inv])
  then show ?thesis
    using env facts by (simp add: test_world_def untouched_def ab storage_get_attestation_count_def
        storage_get_attestation_seq_def storage_is_paused_def)
qed

end
