(* ===== verification/Reference_Model.thy ===== *)
theory Reference_Model
  imports Test_World
begin

text \<open>
  The differential test of the contract against an independent reference model
  (\<open>src/attestation_model_proptest.rs\<close>), as a function that runs the harness on a given list of
  actions and says whether every assertion in it holds. The test samples lists of up to twenty
  actions; here the harness is shown to succeed on every list the generator could produce, of any
  length that leaves the 64-bit counters room.
\<close>

section \<open>The reference model\<close>

record RefEntry =
  re_attestor :: nat
  re_expires_at :: u64
  re_revoked :: bool

record ReferenceModel =
  rm_paused :: bool
  rm_entries :: "nat \<times> nat \<rightharpoonup> RefEntry"

definition ReferenceModel_default :: ReferenceModel where
  "ReferenceModel_default = \<lparr>rm_paused = False, rm_entries = (\<lambda>_. None)\<rparr>"

definition ref_is_valid :: "ReferenceModel \<Rightarrow> nat \<Rightarrow> nat \<Rightarrow> u64 \<Rightarrow> bool" where
  "ref_is_valid m subject kind now =
     (case rm_entries m (subject, kind) of
        Some e \<Rightarrow> \<not> re_revoked e \<and> now < re_expires_at e
      | None \<Rightarrow> False)"

section \<open>The harness\<close>

text \<open>One action on the contract and the model; \<open>None\<close> is a failed assertion or a panic.\<close>

definition model_attest ::
  "fixture \<Rightarrow> nat \<Rightarrow> nat \<Rightarrow> nat \<Rightarrow> u64 \<Rightarrow> env \<times> ReferenceModel \<Rightarrow> (env \<times> ReferenceModel) option" where
  "model_attest fx attestor subject kind ttl st =
     (case st of (e, m) \<Rightarrow>
      let expect_ok = (\<not> rm_paused m) in
      case (at (fx_attestors fx) attestor, at (fx_subjects fx) subject, at (fx_kinds fx) kind) of
        (Some a, Some s, Some ty) \<Rightarrow>
          let (ok, e) = client_try (Attest a s ty (fx_hash fx) ttl) e in
          if ok \<noteq> expect_ok then None
          else if expect_ok then
            Some (e, m\<lparr>rm_entries := (rm_entries m)((subject, kind) \<mapsto>
              \<lparr>re_attestor = attestor, re_expires_at = saturating_add (ledger_timestamp e) ttl,
               re_revoked = False\<rparr>)\<rparr>)
          else Some (e, m)
      | _ \<Rightarrow> None)"

definition revoke_authorized :: "fixture \<Rightarrow> Address \<Rightarrow> RefEntry option \<Rightarrow> bool option" where
  "revoke_authorized fx caller entry =
     (case entry of
        None \<Rightarrow> Some False
      | Some en \<Rightarrow>
          if caller = fx_admin fx then Some True
          else map_option (\<lambda>a. caller = a) (at (fx_attestors fx) (re_attestor en)))"

definition model_revoke ::
  "fixture \<Rightarrow> nat \<Rightarrow> nat \<Rightarrow> nat \<Rightarrow> env \<times> ReferenceModel \<Rightarrow> (env \<times> ReferenceModel) option" where
  "model_revoke fx caller subject kind st =
     (case st of (e, m) \<Rightarrow>
      let entry = rm_entries m (subject, kind) in
      case (at (fx_callers fx) caller, at (fx_subjects fx) subject, at (fx_kinds fx) kind) of
        (Some c, Some s, Some ty) \<Rightarrow>
          Option.bind (revoke_authorized fx c entry) (\<lambda>authorised.
            let expect_ok = (\<not> rm_paused m \<and>
                  (case entry of Some en \<Rightarrow> \<not> re_revoked en | None \<Rightarrow> False) \<and> authorised);
                (ok, e) = client_try (Revoke c s ty) e
            in if ok \<noteq> expect_ok then None
               else if expect_ok then
                 map_option (\<lambda>en. (e, m\<lparr>rm_entries :=
                   (rm_entries m)((subject, kind) \<mapsto> en\<lparr>re_revoked := True\<rparr>)\<rparr>)) entry
               else Some (e, m))
      | _ \<Rightarrow> None)"

fun model_action :: "fixture \<Rightarrow> Action \<Rightarrow> env \<times> ReferenceModel \<Rightarrow> (env \<times> ReferenceModel) option" where
  "model_action fx (AttestAct attestor subject kind ttl) st = model_attest fx attestor subject kind ttl st"
| "model_action fx (RevokeAct caller subject kind) st = model_revoke fx caller subject kind st"
| "model_action fx PauseAct (e, m) = map_option (\<lambda>e. (e, m\<lparr>rm_paused := True\<rparr>)) (client_call Pause e)"
| "model_action fx UnpauseAct (e, m) = map_option (\<lambda>e. (e, m\<lparr>rm_paused := False\<rparr>)) (client_call Unpause e)"
| "model_action fx (AdvanceTime secs) (e, m) =
     Some (e\<lparr>ledger_timestamp := saturating_add (ledger_timestamp e) secs\<rparr>, m)"

text \<open>The comparison after each action, for every subject and kind.\<close>

definition model_agrees :: "fixture \<Rightarrow> env \<times> ReferenceModel \<Rightarrow> bool" where
  "model_agrees fx st =
     (case st of (e, m) \<Rightarrow>
      list_all (\<lambda>(subject, s). list_all (\<lambda>(kind, ty).
        is_valid s ty e = ref_is_valid m subject kind (ledger_timestamp e))
        (enumerate 0 (fx_kinds fx))) (enumerate 0 (fx_subjects fx)))"

fun model_loop :: "fixture \<Rightarrow> Action list \<Rightarrow> env \<times> ReferenceModel \<Rightarrow> bool" where
  "model_loop fx [] st = True"
| "model_loop fx (a # acts) st =
     (case model_action fx a st of
        None \<Rightarrow> False
      | Some st \<Rightarrow> model_agrees fx st \<and> model_loop fx acts st)"

definition is_valid_matches_reference_model ::
  "(nat \<Rightarrow> Address) \<Rightarrow> (u8 list \<Rightarrow> 256 word) \<Rightarrow> u64 \<Rightarrow> Action list \<Rightarrow> bool" where
  "is_valid_matches_reference_model gen sha256 start actions =
     (let fx = make_fixture gen sha256 in
      case fixture_env start fx of
        None \<Rightarrow> False
      | Some e \<Rightarrow> model_loop fx actions (e, ReferenceModel_default))"

section \<open>The model simulates the contract\<close>

definition entry_matches :: "fixture \<Rightarrow> Attestation option \<Rightarrow> RefEntry option \<Rightarrow> bool" where
  "entry_matches fx a r \<longleftrightarrow>
     (case (a, r) of
        (None, None) \<Rightarrow> True
      | (Some att, Some en) \<Rightarrow>
          at (fx_attestors fx) (re_attestor en) = Some (att_attestor att) \<and>
          re_expires_at en = att_expires_at att \<and> (re_revoked en \<longleftrightarrow> att_status att = Revoked)
      | _ \<Rightarrow> False)"

definition model_sim :: "fixture \<Rightarrow> nat \<Rightarrow> env \<times> ReferenceModel \<Rightarrow> bool" where
  "model_sim fx n st \<longleftrightarrow>
     (case st of (e, m) \<Rightarrow>
        test_world fx n e \<and> rm_paused m = storage_is_paused e \<and>
        (\<forall>i < length (fx_subjects fx). \<forall>k < length (fx_kinds fx).
           entry_matches fx (pers_Attestation e (fx_subjects fx ! i, fx_kinds fx ! k)) (rm_entries m (i, k))))"

lemma entry_matches_simps [simp]:
  "entry_matches fx None r \<longleftrightarrow> r = None"
  "entry_matches fx a None \<longleftrightarrow> a = None"
  "entry_matches fx (Some att) (Some en) \<longleftrightarrow>
     at (fx_attestors fx) (re_attestor en) = Some (att_attestor att) \<and>
     re_expires_at en = att_expires_at att \<and> (re_revoked en \<longleftrightarrow> att_status att = Revoked)"
  by (auto simp: entry_matches_def split: option.splits)

lemma model_sim_agrees:
  assumes "model_sim fx n st"
  shows "model_agrees fx st"
proof -
  obtain e m where st: "st = (e, m)" by fastforce
  have "is_valid (fx_subjects fx ! i) (fx_kinds fx ! k) e = ref_is_valid m i k (ledger_timestamp e)"
    if "i < length (fx_subjects fx)" "k < length (fx_kinds fx)" for i k
  proof -
    have "entry_matches fx (pers_Attestation e (fx_subjects fx ! i, fx_kinds fx ! k)) (rm_entries m (i, k))"
      using assms that by (simp add: model_sim_def st)
    then show ?thesis
      by (auto simp: is_valid_def ref_is_valid_def storage_get_attestation_def split: option.split)
  qed
  then show ?thesis by (auto simp: model_agrees_def st list_all_iff in_set_enumerate_eq)
qed

text \<open>Storing for one pair leaves the entries of the others matching.\<close>

lemma matches_update:
  assumes "fixture_ok fx" and "i < length (fx_subjects fx)" and "k < length (fx_kinds fx)"
    and "\<forall>i' < length (fx_subjects fx). \<forall>k' < length (fx_kinds fx).
      entry_matches fx (f (fx_subjects fx ! i', fx_kinds fx ! k')) (g (i', k'))"
    and "entry_matches fx (Some att) (Some en)"
  shows "\<forall>i' < length (fx_subjects fx). \<forall>k' < length (fx_kinds fx).
      entry_matches fx ((f((fx_subjects fx ! i, fx_kinds fx ! k) \<mapsto> att)) (fx_subjects fx ! i', fx_kinds fx ! k'))
        ((g((i, k) \<mapsto> en)) (i', k'))"
  using assms by (auto simp: fixture_ok_def nth_eq_iff_index_eq)

lemma model_attest_step:
  assumes "fixture_ok fx" and "model_sim fx n (e, m)" and "n + 1 < 2 ^ 64"
    and "action_strategy (AttestAct i s k ttl)"
  shows "\<exists>st. model_attest fx i s k ttl (e, m) = Some st \<and> model_sim fx (Suc n) st"
proof -
  have ix: "i < length (fx_attestors fx)" "s < length (fx_subjects fx)" "k < length (fx_kinds fx)"
    and ttl: "1 \<le> ttl" "ttl \<le> MAX_TTL_SECONDS"
    using assms(1,4) by (auto simp: fixture_ok_def)
  have world: "test_world fx n e" and paused: "rm_paused m = storage_is_paused e"
    using assms(2) by (simp_all add: model_sim_def)
  let ?a = "fx_attestors fx ! i" and ?s = "fx_subjects fx ! s" and ?ty = "fx_kinds fx ! k"
  let ?t = "recorded ?a ?s ?ty (fx_hash fx) ttl e"
  have ty: "length ?ty \<le> 24" using assms(1) ix by (simp add: fixture_ok_def)
  have a: "?a \<in> set (fx_attestors fx)" using ix by simp
  note attest = test_world_attest [OF world assms(3) a ttl ty, of ?s "fx_hash fx"]
  show ?thesis
  proof (cases "storage_is_paused e")
    case True
    then show ?thesis
      using ix attest(1) paused assms(2) test_world_mono [OF world, of "Suc n"]
      by (auto simp: model_attest_def at_def model_sim_def)
  next
    case False
    let ?m = "m\<lparr>rm_entries := (rm_entries m)((s, k) \<mapsto>
      \<lparr>re_attestor = i, re_expires_at = saturating_add (ledger_timestamp ?t) ttl, re_revoked = False\<rparr>)\<rparr>"
    have "model_attest fx i s k ttl (e, m) = Some (?t, ?m)"
      using ix attest(1) paused False by (simp add: model_attest_def at_def)
    moreover have "model_sim fx (Suc n) (?t, ?m)"
    proof -
      have "pers_Attestation ?t = (pers_Attestation e)((?s, ?ty) \<mapsto> new_attestation ?a ?s ?ty (fx_hash fx) ttl e)"
        and "ledger_timestamp ?t = ledger_timestamp e" and "storage_is_paused ?t = storage_is_paused e"
        by (simp_all add: recorded_def storage_is_paused_def)
      then show ?thesis
        using attest(2) [OF False] paused assms(2) ix
          matches_update [OF assms(1) ix(2,3), of "pers_Attestation e" "rm_entries m"
            "new_attestation ?a ?s ?ty (fx_hash fx) ttl e"
            "\<lparr>re_attestor = i, re_expires_at = saturating_add (ledger_timestamp e) ttl, re_revoked = False\<rparr>"]
        by (simp add: model_sim_def new_attestation_def at_def del: fun_upd_apply)
    qed
    ultimately show ?thesis by blast
  qed
qed

lemma model_revoke_step:
  assumes "fixture_ok fx" and "model_sim fx n (e, m)" and "n + 1 < 2 ^ 64"
    and "action_strategy (RevokeAct c s k)"
  shows "\<exists>st. model_revoke fx c s k (e, m) = Some st \<and> model_sim fx (Suc n) st"
proof -
  have ix: "c < length (fx_callers fx)" "s < length (fx_subjects fx)" "k < length (fx_kinds fx)"
    using assms(1,4) by (auto simp: fixture_ok_def)
  have world: "test_world fx n e" and paused: "rm_paused m = storage_is_paused e"
    using assms(2) by (simp_all add: model_sim_def)
  let ?c = "fx_callers fx ! c" and ?s = "fx_subjects fx ! s" and ?ty = "fx_kinds fx ! k"
  note revoke = test_world_revoke(1) [OF world assms(3), of ?c ?s ?ty]
  have still: "model_sim fx (Suc n) (e, m)"
    using assms(2) test_world_mono [OF world, of "Suc n"] by (simp add: model_sim_def)
  have entry: "entry_matches fx (pers_Attestation e (?s, ?ty)) (rm_entries m (s, k))"
    using assms(2) ix by (simp add: model_sim_def)
  show ?thesis
  proof (cases "pers_Attestation e (?s, ?ty)")
    case None
    then have "model_revoke fx c s k (e, m) = Some (e, m)"
      using ix entry revoke by (simp add: model_revoke_def at_def revoke_authorized_def)
    with still show ?thesis by blast
  next
    case (Some att)
    then obtain en where en: "rm_entries m (s, k) = Some en" "entry_matches fx (Some att) (Some en)"
      using entry by (cases "rm_entries m (s, k)") auto
    let ?t = "revoked ?c ?s ?ty att e"
    let ?m = "m\<lparr>rm_entries := (rm_entries m)((s, k) \<mapsto> en\<lparr>re_revoked := True\<rparr>)\<rparr>"
    have "model_revoke fx c s k (e, m) = Some (if may_revoke fx ?c att e then (?t, ?m) else (e, m))"
      using ix en Some revoke paused
      by (auto simp: model_revoke_def at_def revoke_authorized_def may_revoke_def split: if_splits)
    moreover have "model_sim fx (Suc n) (?t, ?m)" if may: "may_revoke fx ?c att e"
    proof -
      have "pers_Attestation ?t = (pers_Attestation e)((?s, ?ty) \<mapsto> att\<lparr>att_status := Revoked\<rparr>)"
        and "storage_is_paused ?t = storage_is_paused e"
        by (simp_all add: revoked_def storage_is_paused_def)
      then show ?thesis
        using test_world_revoke(2) [OF world assms(3) Some may] paused assms(2) en
          matches_update [OF assms(1) ix(2,3), of "pers_Attestation e" "rm_entries m"
            "att\<lparr>att_status := Revoked\<rparr>" "en\<lparr>re_revoked := True\<rparr>"]
        by (simp add: model_sim_def del: fun_upd_apply)
    qed
    ultimately show ?thesis using still by auto
  qed
qed

lemma model_action_step:
  assumes "fixture_ok fx" and "model_sim fx n st" and "n + 1 < 2 ^ 64" and "action_strategy a"
  shows "\<exists>st'. model_action fx a st = Some st' \<and> model_sim fx (Suc n) st'"
proof -
  obtain e m where st: "st = (e, m)" by fastforce
  have world: "test_world fx n e" using assms(2) by (simp add: model_sim_def st)
  note later = test_world_mono [OF _ le_SucI [OF order.refl]]
  show ?thesis
  proof (cases a)
    case (AttestAct i s k ttl)
    then show ?thesis using model_attest_step [OF assms(1) _ assms(3)] assms(2,4) by (simp add: st)
  next
    case (RevokeAct c s k)
    then show ?thesis using model_revoke_step [OF assms(1) _ assms(3)] assms(2,4) by (simp add: st)
  next
    case PauseAct
    then show ?thesis
      using assms(2) test_world_switch [OF world] later [OF test_world_switch(3) [OF world]]
      by (simp add: st model_sim_def switched_def storage_is_paused_def)
  next
    case UnpauseAct
    then show ?thesis
      using assms(2) test_world_switch [OF world] later [OF test_world_switch(3) [OF world]]
      by (simp add: st model_sim_def switched_def storage_is_paused_def)
  next
    case (AdvanceTime secs)
    then show ?thesis
      using assms(2) later [OF test_world_advance [OF world]]
      by (simp add: st model_sim_def storage_is_paused_def)
  qed
qed

lemma model_loop_succeeds:
  "fixture_ok fx \<Longrightarrow> model_sim fx n st \<Longrightarrow> n + length acts < 2 ^ 64 \<Longrightarrow> list_all action_strategy acts \<Longrightarrow>
     model_loop fx acts st"
proof (induction acts arbitrary: n st)
  case (Cons a acts)
  have "n + 1 < 2 ^ 64" "Suc n + length acts < 2 ^ 64" using Cons.prems(3) by simp_all
  moreover obtain st' where "model_action fx a st = Some st'" "model_sim fx (Suc n) st'"
    using model_action_step [OF Cons.prems(1,2) \<open>n + 1 < 2 ^ 64\<close>, of a] Cons.prems(4) by auto
  ultimately show ?case using Cons.IH [OF Cons.prems(1)] Cons.prems(4) model_sim_agrees by simp
qed simp

section \<open>Properties\<close>

text \<open>
  C3. The contract agrees with the independent reference model of its differential test on every
  sequence of actions the test's generator can produce, however long: each call succeeds exactly
  when the model says so, and after each action the validity of every pair is the model's.
\<close>

theorem reference_model_agrees:
  assumes "inj gen" and "list_all action_strategy actions" and "length actions < 2 ^ 64"
  shows "is_valid_matches_reference_model gen sha256 start actions"
proof -
  let ?fx = "make_fixture gen sha256"
  have ok: "fixture_ok ?fx" by (rule make_fixture_ok [OF assms(1)])
  obtain e where e: "fixture_env start ?fx = Some e" "test_world ?fx 0 e" "untouched e"
    using fixture_env_world [OF ok] by blast
  then have "model_sim ?fx 0 (e, ReferenceModel_default)"
    by (simp add: model_sim_def ReferenceModel_default_def untouched_def)
  then have "model_loop ?fx actions (e, ReferenceModel_default)"
    by (rule model_loop_succeeds [OF ok]) (use assms(2,3) in simp_all)
  then show ?thesis using e(1) by (simp add: is_valid_matches_reference_model_def Let_def)
qed

theorem reference_model_agrees_witness:
  "is_valid_matches_reference_model (\<lambda>n. replicate n (CHR ''a'')) (\<lambda>_. 0) 0
     [AttestAct 0 1 0 500, PauseAct, RevokeAct 1 1 0, UnpauseAct, RevokeAct 3 1 0, RevokeAct 1 1 0,
      AttestAct 1 1 0 100, AdvanceTime 100]"
proof (rule reference_model_agrees)
  show "inj (\<lambda>n. replicate n (CHR ''a''))" by (auto simp: inj_def replicate_eq_replicate)
  show "list_all action_strategy [AttestAct 0 1 0 500, PauseAct, RevokeAct 1 1 0, UnpauseAct,
      RevokeAct 3 1 0, RevokeAct 1 1 0, AttestAct 1 1 0 100, AdvanceTime 100]"
    by (simp add: NUM_ATTESTORS_def NUM_SUBJECTS_def NUM_TYPES_def NUM_CALLERS_def MAX_TTL_SECONDS_def
        MAX_ADVANCE_SECONDS_def word_le_nat_alt)
qed simp

end
