(* ===== verification/Invariant_Harness.thy ===== *)
theory Invariant_Harness
  imports Test_World
begin

text \<open>
  The state-machine property test of the contract (\<open>src/invariant_state_machine_proptest.rs\<close>): it
  drives the contract with generated actions, records only what the contract answered, and after
  every action asserts four invariants for every subject and kind. The harness is a function of the
  action list that says whether all its assertions hold; it is shown to hold for every list the
  generator could produce.
\<close>

section \<open>The harness\<close>

text \<open>\<open>fetch_attestation\<close>: the panic on any other answer is \<open>None\<close>.\<close>

definition fetch_attestation :: "env \<Rightarrow> Address \<Rightarrow> Symbol \<Rightarrow> Attestation option option" where
  "fetch_attestation e subject kind =
     (case fst (get_attestation subject kind e) of
        Ok a \<Rightarrow> Some (Some a)
      | Err AttestationNotFound \<Rightarrow> Some None
      | _ \<Rightarrow> None)"

type_synonym pair_index = "nat \<times> nat"

record bookkeeping =
  bk_revoked_since_attest :: "pair_index \<rightharpoonup> bool"
  bk_paused :: bool
  bk_paused_snapshot :: "(pair_index \<rightharpoonup> Attestation option) option"
  bk_expected_count :: u64

definition initial_bookkeeping :: bookkeeping where
  "initial_bookkeeping =
     \<lparr>bk_revoked_since_attest = (\<lambda>_. None), bk_paused = False, bk_paused_snapshot = None,
      bk_expected_count = 0\<rparr>"

text \<open>The two nested loops over subjects and kinds, each pair with its indices.\<close>

definition indexed_pairs :: "fixture \<Rightarrow> (pair_index \<times> Address \<times> Symbol) list" where
  "indexed_pairs fx =
     concat (map (\<lambda>(si, s_addr). map (\<lambda>(ki, k_sym). ((si, ki), s_addr, k_sym)) (enumerate 0 (fx_kinds fx)))
       (enumerate 0 (fx_subjects fx)))"

fun snapshot_pairs ::
  "env \<Rightarrow> (pair_index \<times> Address \<times> Symbol) list \<Rightarrow> (pair_index \<rightharpoonup> Attestation option) \<Rightarrow>
    (pair_index \<rightharpoonup> Attestation option) option" where
  "snapshot_pairs e [] snap = Some snap"
| "snapshot_pairs e ((ix, s_addr, k_sym) # pairs) snap =
     (case fetch_attestation e s_addr k_sym of
        None \<Rightarrow> None
      | Some found \<Rightarrow> snapshot_pairs e pairs (snap(ix \<mapsto> found)))"

text \<open>
  The actions. The count is incremented with the overflow check of a test build, so at the largest
  \<open>u64\<close> it panics.
\<close>

definition harness_attest ::
  "fixture \<Rightarrow> nat \<Rightarrow> nat \<Rightarrow> nat \<Rightarrow> u64 \<Rightarrow> env \<times> bookkeeping \<Rightarrow> (env \<times> bookkeeping) option" where
  "harness_attest fx attestor subject kind ttl st =
     (case st of (e, bk) \<Rightarrow>
      case (at (fx_attestors fx) attestor, at (fx_subjects fx) subject, at (fx_kinds fx) kind) of
        (Some a, Some s, Some ty) \<Rightarrow>
          let (ok, e) = client_try (Attest a s ty (fx_hash fx) ttl) e in
          if ok then
            if bk_expected_count bk = - 1 then None
            else Some (e, bk\<lparr>bk_revoked_since_attest := (bk_revoked_since_attest bk)((subject, kind) \<mapsto> False),
                             bk_expected_count := bk_expected_count bk + 1\<rparr>)
          else Some (e, bk)
      | _ \<Rightarrow> None)"

definition harness_revoke ::
  "fixture \<Rightarrow> nat \<Rightarrow> nat \<Rightarrow> nat \<Rightarrow> env \<times> bookkeeping \<Rightarrow> (env \<times> bookkeeping) option" where
  "harness_revoke fx caller subject kind st =
     (case st of (e, bk) \<Rightarrow>
      case (at (fx_callers fx) caller, at (fx_subjects fx) subject, at (fx_kinds fx) kind) of
        (Some c, Some s, Some ty) \<Rightarrow>
          let (ok, e) = client_try (Revoke c s ty) e in
          Some (e, if ok then bk\<lparr>bk_revoked_since_attest :=
                               (bk_revoked_since_attest bk)((subject, kind) \<mapsto> True)\<rparr>
                   else bk)
      | _ \<Rightarrow> None)"

definition harness_pause :: "fixture \<Rightarrow> env \<times> bookkeeping \<Rightarrow> (env \<times> bookkeeping) option" where
  "harness_pause fx st =
     (case st of (e, bk) \<Rightarrow>
      Option.bind (client_call Pause e) (\<lambda>e.
        if \<not> bk_paused bk then
          map_option (\<lambda>snap. (e, bk\<lparr>bk_paused_snapshot := Some snap, bk_paused := True\<rparr>))
            (snapshot_pairs e (indexed_pairs fx) (\<lambda>_. None))
        else Some (e, bk\<lparr>bk_paused := True\<rparr>)))"

fun harness_action :: "fixture \<Rightarrow> Action \<Rightarrow> env \<times> bookkeeping \<Rightarrow> (env \<times> bookkeeping) option" where
  "harness_action fx (AttestAct attestor subject kind ttl) st = harness_attest fx attestor subject kind ttl st"
| "harness_action fx (RevokeAct caller subject kind) st = harness_revoke fx caller subject kind st"
| "harness_action fx PauseAct st = harness_pause fx st"
| "harness_action fx UnpauseAct (e, bk) =
     map_option (\<lambda>e. (e, bk\<lparr>bk_paused := False, bk_paused_snapshot := None\<rparr>)) (client_call Unpause e)"
| "harness_action fx (AdvanceTime secs) (e, bk) =
     Some (e\<lparr>ledger_timestamp := saturating_add (ledger_timestamp e) secs\<rparr>, bk)"

text \<open>Invariants 1 to 3, for one pair.\<close>

definition pair_invariants :: "env \<Rightarrow> bookkeeping \<Rightarrow> pair_index \<times> Address \<times> Symbol \<Rightarrow> bool" where
  "pair_invariants e bk p =
     (case p of (ix, s_addr, k_sym) \<Rightarrow>
      let now = ledger_timestamp e in
      case fetch_attestation e s_addr k_sym of
        None \<Rightarrow> False
      | Some found \<Rightarrow>
          let valid = is_valid s_addr k_sym e;
              expected_valid = (case found of
                  Some a \<Rightarrow> att_status a = Active \<and> now < att_expires_at a
                | None \<Rightarrow> False)
          in valid = expected_valid \<and>
             (if (case bk_revoked_since_attest bk ix of Some b \<Rightarrow> b | None \<Rightarrow> False)
              then \<not> valid \<and> (case found of Some a \<Rightarrow> att_status a = Revoked | None \<Rightarrow> True)
              else True) \<and>
             (case bk_paused_snapshot bk of
                Some snap \<Rightarrow> (case snap ix of Some before \<Rightarrow> found = before | None \<Rightarrow> False)
              | None \<Rightarrow> True))"

text \<open>All four, as asserted after each action.\<close>

definition step_invariants :: "fixture \<Rightarrow> env \<times> bookkeeping \<Rightarrow> bool" where
  "step_invariants fx st =
     (case st of (e, bk) \<Rightarrow>
      list_all (pair_invariants e bk) (indexed_pairs fx) \<and>
      get_attestation_count e = bk_expected_count bk)"

fun harness_loop :: "fixture \<Rightarrow> Action list \<Rightarrow> env \<times> bookkeeping \<Rightarrow> bool" where
  "harness_loop fx [] st = True"
| "harness_loop fx (a # acts) st =
     (case harness_action fx a st of
        None \<Rightarrow> False
      | Some st \<Rightarrow> step_invariants fx st \<and> harness_loop fx acts st)"

definition invariants_hold_across_random_sequences ::
  "(nat \<Rightarrow> Address) \<Rightarrow> (u8 list \<Rightarrow> 256 word) \<Rightarrow> u64 \<Rightarrow> Action list \<Rightarrow> bool" where
  "invariants_hold_across_random_sequences gen sha256 start actions =
     (let fx = make_fixture gen sha256 in
      case fixture_env start fx of
        None \<Rightarrow> False
      | Some e \<Rightarrow> harness_loop fx actions (e, initial_bookkeeping))"

section \<open>What the bookkeeping knows of the contract\<close>

lemma fetch_attestation_stored [simp]:
  "fetch_attestation e s ty = Some (pers_Attestation e (s, ty))"
  by (simp add: fetch_attestation_def get_attestation_def storage_get_attestation_def split: option.split)

lemma set_enumerate: "set (enumerate 0 xs) = (\<lambda>i. (i, xs ! i)) ` {..<length xs}"
  by (auto simp: in_set_enumerate_eq image_iff)

lemma indexed_pairs_iff:
  "((si, ki), s, ty) \<in> set (indexed_pairs fx) \<longleftrightarrow>
     si < length (fx_subjects fx) \<and> ki < length (fx_kinds fx) \<and>
     s = fx_subjects fx ! si \<and> ty = fx_kinds fx ! ki"
  by (auto simp: indexed_pairs_def set_enumerate image_iff)

text \<open>The snapshot of pairs with distinct indices holds what was stored for each.\<close>

lemma snapshot_pairs_total: "\<exists>snap'. snapshot_pairs e ps snap = Some snap'"
  by (induction ps arbitrary: snap) auto

lemma snapshot_pairs_frame:
  "snapshot_pairs e ps snap = Some snap' \<Longrightarrow> ix \<notin> fst ` set ps \<Longrightarrow> snap' ix = snap ix"
  by (induction ps arbitrary: snap) auto

lemma snapshot_pairs_eq:
  assumes "snapshot_pairs e ps snap = Some snap'" and "(ix, s, ty) \<in> set ps"
    and "\<And>s' ty'. (ix, s', ty') \<in> set ps \<Longrightarrow> (s', ty') = (s, ty)"
  shows "snap' ix = Some (pers_Attestation e (s, ty))"
  using assms
proof (induction ps arbitrary: snap)
  case (Cons p ps)
  obtain ix' s' ty' where p: "p = (ix', s', ty')" by (cases p) auto
  have run: "snapshot_pairs e ps (snap(ix' \<mapsto> pers_Attestation e (s', ty'))) = Some snap'"
    using Cons.prems(1) by (simp add: p)
  show ?case
  proof (cases "\<exists>s' ty'. (ix, s', ty') \<in> set ps")
    case True
    then have "(ix, s, ty) \<in> set ps" using Cons.prems(3) list.set_intros(2) by (metis prod.inject)
    then show ?thesis by (rule Cons.IH [OF run]) (rule Cons.prems(3), simp)
  next
    case False
    then have "ix' = ix" "s' = s" "ty' = ty" using Cons.prems(2) p by auto
    moreover have "ix \<notin> fst ` set ps" using False by (auto simp: image_iff)
    ultimately show ?thesis
      using snapshot_pairs_frame [OF run] by simp
  qed
qed simp

definition harness_inv :: "fixture \<Rightarrow> nat \<Rightarrow> env \<times> bookkeeping \<Rightarrow> bool" where
  "harness_inv fx n st \<longleftrightarrow>
     (case st of (e, bk) \<Rightarrow>
        test_world fx n e \<and> bk_paused bk = storage_is_paused e \<and>
        bk_expected_count bk = storage_get_attestation_count e \<and>
        (\<forall>si < length (fx_subjects fx). \<forall>ki < length (fx_kinds fx).
           bk_revoked_since_attest bk (si, ki) = Some True \<longrightarrow>
           (\<exists>att. pers_Attestation e (fx_subjects fx ! si, fx_kinds fx ! ki) = Some att \<and>
              att_status att = Revoked)) \<and>
        (case bk_paused_snapshot bk of
           None \<Rightarrow> \<not> storage_is_paused e
         | Some snap \<Rightarrow> storage_is_paused e \<and>
             (\<forall>si < length (fx_subjects fx). \<forall>ki < length (fx_kinds fx).
                snap (si, ki) = Some (pers_Attestation e (fx_subjects fx ! si, fx_kinds fx ! ki)))))"

lemma harness_inv_step_invariants:
  assumes "harness_inv fx n st"
  shows "step_invariants fx st"
proof -
  obtain e bk where st: "st = (e, bk)" by fastforce
  have "pair_invariants e bk ((si, ki), s, ty)" if p: "((si, ki), s, ty) \<in> set (indexed_pairs fx)" for si ki s ty
  proof -
    have "bk_revoked_since_attest bk (si, ki) = Some True \<Longrightarrow>
        \<exists>att. pers_Attestation e (s, ty) = Some att \<and> att_status att = Revoked"
      and "\<And>snap. bk_paused_snapshot bk = Some snap \<Longrightarrow> snap (si, ki) = Some (pers_Attestation e (s, ty))"
      using p assms by (auto simp: indexed_pairs_iff harness_inv_def st)
    then show ?thesis
      by (fastforce simp: pair_invariants_def is_valid_def storage_get_attestation_def Let_def
          split: option.split)
  qed
  then show ?thesis
    using assms by (auto simp: step_invariants_def st list_all_iff get_attestation_count_def harness_inv_def)
qed


section \<open>Every action keeps it\<close>

text \<open>Subjects and kinds are distinct, so an index stands for one pair.\<close>

lemma fixture_index:
  assumes "fixture_ok fx"
  shows "si < length (fx_subjects fx) \<Longrightarrow> si' < length (fx_subjects fx) \<Longrightarrow>
      fx_subjects fx ! si' = fx_subjects fx ! si \<longleftrightarrow> si' = si"
    and "ki < length (fx_kinds fx) \<Longrightarrow> ki' < length (fx_kinds fx) \<Longrightarrow>
      fx_kinds fx ! ki' = fx_kinds fx ! ki \<longleftrightarrow> ki' = ki"
  using assms by (simp_all add: fixture_ok_def nth_eq_iff_index_eq)

lemma harness_attest_step:
  assumes "fixture_ok fx" and "harness_inv fx n (e, bk)" and "n + 1 < 2 ^ 64"
    and "action_strategy (AttestAct i si ki ttl)"
  shows "\<exists>st. harness_attest fx i si ki ttl (e, bk) = Some st \<and> harness_inv fx (Suc n) st"
proof -
  have ix: "i < length (fx_attestors fx)" "si < length (fx_subjects fx)" "ki < length (fx_kinds fx)"
    and ttl: "1 \<le> ttl" "ttl \<le> MAX_TTL_SECONDS"
    using assms(1,4) by (auto simp: fixture_ok_def)
  let ?a = "fx_attestors fx ! i" and ?s = "fx_subjects fx ! si" and ?ty = "fx_kinds fx ! ki"
  let ?t = "recorded ?a ?s ?ty (fx_hash fx) ttl e"
  have world: "test_world fx n e" using assms(2) by (simp add: harness_inv_def)
  have ty: "length ?ty \<le> 24" using assms(1) ix by (simp add: fixture_ok_def)
  have a: "?a \<in> set (fx_attestors fx)" using ix by simp
  note attest = test_world_attest [OF world assms(3) a ttl ty, of ?s "fx_hash fx"]
  show ?thesis
  proof (cases "storage_is_paused e")
    case True
    then show ?thesis
      using ix attest(1) assms(2) test_world_mono [OF world, of "Suc n"]
      by (simp add: harness_attest_def at_def harness_inv_def)
  next
    case False
    let ?bk = "bk\<lparr>bk_revoked_since_attest := (bk_revoked_since_attest bk)((si, ki) \<mapsto> False),
      bk_expected_count := bk_expected_count bk + 1\<rparr>"
    have count: "bk_expected_count bk = storage_get_attestation_count e"
      using assms(2) by (simp add: harness_inv_def)
    have "count_room e" by (rule test_world_room [OF world assms(3)])
    then have "bk_expected_count bk \<noteq> - 1" by (auto simp: count_room_def count unsigned_minus_1_eq_mask mask_eq_exp_minus_1)
    then have "harness_attest fx i si ki ttl (e, bk) = Some (?t, ?bk)"
      using ix attest(1) False by (simp add: harness_attest_def at_def)
    moreover have "harness_inv fx (Suc n) (?t, ?bk)"
    proof -
      have "pers_Attestation ?t = (pers_Attestation e)((?s, ?ty) \<mapsto> new_attestation ?a ?s ?ty (fx_hash fx) ttl e)"
        and "storage_is_paused ?t = storage_is_paused e"
        and "storage_get_attestation_count ?t = storage_get_attestation_count e + 1"
        by (simp_all add: recorded_def storage_is_paused_def storage_get_attestation_count_def)
      then show ?thesis
        using attest(2) [OF False] assms(2) ix False count
        by (auto simp: harness_inv_def fixture_index [OF assms(1)]
            split: option.splits)
    qed
    ultimately show ?thesis by blast
  qed
qed

lemma harness_revoke_step:
  assumes "fixture_ok fx" and "harness_inv fx n (e, bk)" and "n + 1 < 2 ^ 64"
    and "action_strategy (RevokeAct c si ki)"
  shows "\<exists>st. harness_revoke fx c si ki (e, bk) = Some st \<and> harness_inv fx (Suc n) st"
proof -
  have ix: "c < length (fx_callers fx)" "si < length (fx_subjects fx)" "ki < length (fx_kinds fx)"
    using assms(1,4) by (auto simp: fixture_ok_def)
  let ?c = "fx_callers fx ! c" and ?s = "fx_subjects fx ! si" and ?ty = "fx_kinds fx ! ki"
  have world: "test_world fx n e" using assms(2) by (simp add: harness_inv_def)
  note revoke = test_world_revoke(1) [OF world assms(3), of ?c ?s ?ty]
  have still: "harness_inv fx (Suc n) (e, bk)"
    using assms(2) test_world_mono [OF world, of "Suc n"] by (simp add: harness_inv_def)
  have "harness_inv fx (Suc n) (revoked ?c ?s ?ty att e,
      bk\<lparr>bk_revoked_since_attest := (bk_revoked_since_attest bk)((si, ki) \<mapsto> True)\<rparr>)"
    if Some: "pers_Attestation e (?s, ?ty) = Some att" and may: "may_revoke fx ?c att e" for att
  proof -
    let ?t = "revoked ?c ?s ?ty att e"
    have "pers_Attestation ?t = (pers_Attestation e)((?s, ?ty) \<mapsto> att\<lparr>att_status := Revoked\<rparr>)"
      and "storage_is_paused ?t = storage_is_paused e" "\<not> storage_is_paused e"
      and "storage_get_attestation_count ?t = storage_get_attestation_count e"
      using may by (simp_all add: revoked_def storage_is_paused_def storage_get_attestation_count_def may_revoke_def
          stored_def [of _ _ _ e])
    then show ?thesis
      using test_world_revoke(2) [OF world assms(3) Some may] assms(2) ix
      by (auto simp: harness_inv_def fixture_index [OF assms(1)]
          split: option.splits)
  qed
  then show ?thesis
    using ix revoke still by (auto simp: harness_revoke_def at_def split: option.split)
qed


lemma harness_pause_step:
  assumes "harness_inv fx n (e, bk)"
  shows "\<exists>st. harness_pause fx (e, bk) = Some st \<and> harness_inv fx n st"
proof -
  have world: "test_world fx n e" using assms by (simp add: harness_inv_def)
  let ?t = "switched True e"
  have frame: "pers_Attestation ?t = pers_Attestation e" "storage_is_paused ?t"
      "storage_get_attestation_count ?t = storage_get_attestation_count e"
    by (simp_all add: switched_def storage_is_paused_def storage_get_attestation_count_def)
  obtain snap where snap: "snapshot_pairs ?t (indexed_pairs fx) (\<lambda>_. None) = Some snap"
    using snapshot_pairs_total by blast
  have entries: "snap (si, ki) = Some (pers_Attestation e (fx_subjects fx ! si, fx_kinds fx ! ki))"
    if "si < length (fx_subjects fx)" "ki < length (fx_kinds fx)" for si ki
    using snapshot_pairs_eq [OF snap, of "(si, ki)"] that by (simp add: indexed_pairs_iff frame(1))
  note pause = test_world_switch(1,3) [OF world]
  show ?thesis
  proof (cases "bk_paused bk")
    case True
    then show ?thesis
      using pause assms by (auto simp: harness_pause_def harness_inv_def frame split: option.splits)
  next
    case False
    then show ?thesis
      using pause assms by (simp add: harness_pause_def harness_inv_def frame snap entries)
  qed
qed

lemma harness_action_step:
  assumes "fixture_ok fx" and "harness_inv fx n st" and "n + 1 < 2 ^ 64" and "action_strategy a"
  shows "\<exists>st'. harness_action fx a st = Some st' \<and> harness_inv fx (Suc n) st'"
proof -
  obtain e bk where st: "st = (e, bk)" by fastforce
  have world: "test_world fx n e" using assms(2) by (simp add: harness_inv_def st)
  note later = test_world_mono [OF _ le_SucI [OF order.refl]]
  show ?thesis
  proof (cases a)
    case (AttestAct i si ki ttl)
    then show ?thesis using harness_attest_step [OF assms(1) _ assms(3)] assms(2,4) by (simp add: st)
  next
    case (RevokeAct c si ki)
    then show ?thesis using harness_revoke_step [OF assms(1) _ assms(3)] assms(2,4) by (simp add: st)
  next
    case PauseAct
    then show ?thesis
      using harness_pause_step [of fx n e bk] assms(2) later by (auto simp: st harness_inv_def)
  next
    case UnpauseAct
    then show ?thesis
      using assms(2) test_world_switch [OF world] later [OF test_world_switch(3) [OF world]]
      by (simp add: st harness_inv_def switched_def storage_is_paused_def storage_get_attestation_count_def)
  next
    case (AdvanceTime secs)
    then show ?thesis
      using assms(2) later [OF test_world_advance [OF world]]
      by (simp add: st harness_inv_def split: option.splits)
  qed
qed

lemma harness_loop_succeeds:
  "fixture_ok fx \<Longrightarrow> harness_inv fx n st \<Longrightarrow> n + length acts < 2 ^ 64 \<Longrightarrow> list_all action_strategy acts \<Longrightarrow>
     harness_loop fx acts st"
proof (induction acts arbitrary: n st)
  case (Cons a acts)
  have "n + 1 < 2 ^ 64" "Suc n + length acts < 2 ^ 64" using Cons.prems(3) by simp_all
  moreover obtain st' where "harness_action fx a st = Some st'" "harness_inv fx (Suc n) st'"
    using harness_action_step [OF Cons.prems(1,2) \<open>n + 1 < 2 ^ 64\<close>, of a] Cons.prems(4) by auto
  ultimately show ?case
    using Cons.IH [OF Cons.prems(1)] Cons.prems(4) harness_inv_step_invariants by simp
qed simp

section \<open>Properties\<close>

text \<open>
  C4. The four invariants of the state-machine test hold after every action of every sequence its
  generator can produce, however long: validity agrees with the stored attestation, a revoked pair
  stays revoked until it is attested again, nothing stored changes while the contract is paused, and
  the attestation count is the number of successful attestations.
\<close>

theorem harness_invariants_hold:
  assumes "inj gen" and "list_all action_strategy actions" and "length actions < 2 ^ 64"
  shows "invariants_hold_across_random_sequences gen sha256 start actions"
proof -
  let ?fx = "make_fixture gen sha256"
  have ok: "fixture_ok ?fx" by (rule make_fixture_ok [OF assms(1)])
  obtain e where e: "fixture_env start ?fx = Some e" "test_world ?fx 0 e" "untouched e"
    using fixture_env_world [OF ok] by blast
  then have "harness_inv ?fx 0 (e, initial_bookkeeping)"
    by (simp add: harness_inv_def initial_bookkeeping_def untouched_def)
  then have "harness_loop ?fx actions (e, initial_bookkeeping)"
    by (rule harness_loop_succeeds [OF ok]) (use assms(2,3) in simp_all)
  then show ?thesis using e(1) by (simp add: invariants_hold_across_random_sequences_def Let_def)
qed

theorem harness_invariants_hold_witness:
  "invariants_hold_across_random_sequences (\<lambda>n. replicate n (CHR ''x'')) (\<lambda>_. 7) 1000
     [AttestAct 1 0 1 60, PauseAct, AttestAct 0 0 1 90, AdvanceTime 30, PauseAct, UnpauseAct,
      RevokeAct 2 0 1, AdvanceTime 60, AttestAct 0 0 1 1]"
proof (rule harness_invariants_hold)
  show "inj (\<lambda>n. replicate n (CHR ''x''))" by (auto simp: inj_def replicate_eq_replicate)
  show "list_all action_strategy [AttestAct 1 0 1 60, PauseAct, AttestAct 0 0 1 90, AdvanceTime 30,
      PauseAct, UnpauseAct, RevokeAct 2 0 1, AdvanceTime 60, AttestAct 0 0 1 1]"
    by (simp add: NUM_ATTESTORS_def NUM_SUBJECTS_def NUM_TYPES_def NUM_CALLERS_def MAX_TTL_SECONDS_def
        MAX_ADVANCE_SECONDS_def word_le_nat_alt)
qed simp

end
