(* ===== verification/Expiry_Harness.thy ===== *)
theory Expiry_Harness
  imports Test_World
begin

text \<open>
  The test of the expiry arithmetic (\<open>src/ttl_overflow_proptest.rs\<close>): one attestation issued at a
  given ledger time with a given lifetime, the limit on lifetimes raised out of the way. The harness
  is shown to succeed for every issue time and every lifetime the contract accepts, not only for the
  ten million issue times the test samples from.
\<close>

definition expiry_setup :: "u64 \<Rightarrow> Address \<Rightarrow> Address \<Rightarrow> env option" where
  "expiry_setup start admin attestor =
     client_calls [Initialize admin, AddAttestor attestor, SetDefaultMaxTtl (- 1)]
       (deployed start (\<lambda>_. True))"

definition assert_expires_at_matches_saturating_add ::
  "(nat \<Rightarrow> Address) \<Rightarrow> (u8 list \<Rightarrow> 256 word) \<Rightarrow> u64 \<Rightarrow> u64 \<Rightarrow> u64 \<Rightarrow> bool" where
  "assert_expires_at_matches_saturating_add gen sha256 start issued_at ttl_seconds =
     (let admin = gen 0; attestor = gen 1; subject = gen 2 in
      case expiry_setup start admin attestor of
        None \<Rightarrow> False
      | Some e \<Rightarrow>
          let e = e\<lparr>ledger_timestamp := issued_at\<rparr>;
              kind = ''kyc_approved'';
              hash = compute_payload_hash sha256 [112, 97, 121, 108, 111, 97, 100]
          in case client_call (Attest attestor subject kind hash ttl_seconds) e of
               None \<Rightarrow> False
             | Some e \<Rightarrow>
                 (case fst (get_attestation subject kind e) of
                    Ok found \<Rightarrow> issued_at \<le> att_expires_at found \<and>
                      att_expires_at found = saturating_add issued_at ttl_seconds
                  | _ \<Rightarrow> False))"

text \<open>The generator's range and the three fixed cases beside it.\<close>

definition expiry_strategy :: "u64 \<Rightarrow> u64 \<Rightarrow> bool" where
  "expiry_strategy issued_at ttl_seconds \<longleftrightarrow> - 1 - 10000000 \<le> issued_at \<and> 1 \<le> ttl_seconds"

definition expiry_boundary_cases :: "(u64 \<times> u64) list" where
  "expiry_boundary_cases = [(- 1, 1), (- 1 - 1, - 1), (- 1 - 100, 50)]"

section \<open>It succeeds\<close>

lemma saturating_add_ge: "a \<le> saturating_add a (b :: 'a::len word)"
proof -
  have "unat a < 2 ^ LENGTH('a)" by (rule unsigned_less)
  then have "unat a \<le> 2 ^ LENGTH('a) - 1" by linarith
  then show ?thesis by (simp add: word_le_nat_alt sat_arith)
qed

lemma set_default_max_ttl_client:
  assumes "inst_Admin e = Some adm" and "authorized e = (\<lambda>_. True)" and "m \<noteq> 0"
  shows "client_call (SetDefaultMaxTtl m) e =
    Some (e\<lparr>inst_DefaultMaxAttestationTtl := Some m,
      published := published e @ [DefaultMaxAttestationTtlChangedEv m]\<rparr>)"
proof -
  have "run_call (SetDefaultMaxTtl m) e =
    (Ok (), e\<lparr>inst_DefaultMaxAttestationTtl := Some m,
      published := published e @ [DefaultMaxAttestationTtlChangedEv m]\<rparr>)"
    using assms by (simp add: set_default_max_attestation_ttl_Ok_iff)
  then show ?thesis by (simp add: client_call_def invoke_call_def all_or_nothing_def)
qed

lemma expiry_setup_world:
  "\<exists>e. expiry_setup start admin attestor = Some e \<and> authorized e = (\<lambda>_. True) \<and>
     storage_is_attestor attestor e \<and> \<not> storage_is_paused e \<and>
     (\<forall>ty. storage_get_max_attestation_ttl ty e = - 1) \<and>
     inst_AttestationCount e = None \<and> pers_AttestationSeq e = (\<lambda>_. None)"
proof -
  have "expiry_setup start admin attestor =
      client_calls [AddAttestor attestor, SetDefaultMaxTtl (- 1)]
        ((deployed start (\<lambda>_. True))\<lparr>inst_Admin := Some admin, inst_Paused := Some False,
          published := [InitializedEv admin]\<rparr>)"
    by (simp add: expiry_setup_def initialize_client)
  then show ?thesis
    by (simp add: add_attestor_client set_default_max_ttl_client storage_is_attestor_def
        storage_is_paused_def storage_get_max_attestation_ttl_def deployed_def empty_env_def)
qed

text \<open>
  The expiry is the issue time plus the lifetime, clamped at the largest \<open>u64\<close>, for every issue
  time and every non-zero lifetime: it is never before the issue time.
\<close>

lemma expiry_harness_succeeds:
  assumes "1 \<le> ttl_seconds"
  shows "assert_expires_at_matches_saturating_add gen sha256 start issued_at ttl_seconds"
proof -
  obtain e where ready: "expiry_setup start (gen 0) (gen 1) = Some e"
    and e: "authorized e = (\<lambda>_. True)" "storage_is_attestor (gen 1) e" "\<not> storage_is_paused e"
      "\<forall>ty. storage_get_max_attestation_ttl ty e = - 1" "inst_AttestationCount e = None"
      "pers_AttestationSeq e = (\<lambda>_. None)"
    using expiry_setup_world by blast
  let ?e = "e\<lparr>ledger_timestamp := issued_at\<rparr>"
  let ?h = "compute_payload_hash sha256 [112, 97, 121, 108, 111, 97, 100]"
  have "seq_room (gen 2) ''kyc_approved'' ?e" "count_room ?e"
    using e(5,6) by (simp_all add: seq_room_def count_room_def storage_get_attestation_seq_def
        storage_get_attestation_count_def)
  then have "run_call (Attest (gen 1) (gen 2) ''kyc_approved'' ?h ttl_seconds) ?e =
      (Ok (), recorded (gen 1) (gen 2) ''kyc_approved'' ?h ttl_seconds ?e)"
    using e assms by (auto simp: attest_Ok_iff record_attestation_Ok_iff)
  then have "client_call (Attest (gen 1) (gen 2) ''kyc_approved'' ?h ttl_seconds) ?e =
      Some (recorded (gen 1) (gen 2) ''kyc_approved'' ?h ttl_seconds ?e)"
    by (simp add: client_call_def invoke_call_def all_or_nothing_def)
  then show ?thesis
    using ready by (simp add: assert_expires_at_matches_saturating_add_def Let_def get_attestation_def
        storage_get_attestation_def recorded_def new_attestation_def saturating_add_ge)
qed

text \<open>In particular on the generator's range and on the fixed cases.\<close>

lemma expiry_tests_pass:
  "expiry_strategy issued_at ttl_seconds \<Longrightarrow>
     assert_expires_at_matches_saturating_add gen sha256 start issued_at ttl_seconds"
  "list_all (\<lambda>(issued_at, ttl_seconds).
     assert_expires_at_matches_saturating_add gen sha256 start issued_at ttl_seconds) expiry_boundary_cases"
  by (simp_all add: expiry_harness_succeeds expiry_strategy_def expiry_boundary_cases_def)

end
