(* ===== verification/Fuzz_Targets.thy ===== *)
theory Fuzz_Targets
  imports Test_World
begin

text \<open>
  The two fuzz targets (\<open>fuzz/fuzz_targets/fuzz_attest_args.rs\<close>, \<open>fuzz_revoke_args.rs\<close>): how they cut
  the fuzzer's bytes into the arguments of a call, and the text they hand to the host's symbol
  constructor. \<open>String::from_utf8_lossy\<close> and the slicing of a string at a byte index are those of the
  standard library; the constructor is the parameter \<open>symbol_new\<close>, whose \<open>None\<close> is its panic.
\<close>

unbundle bit_operations_syntax

section \<open>Bytes and text\<close>

text \<open>\<open>u64::from_le_bytes\<close> and \<open>u64::to_le_bytes\<close>.\<close>

primrec from_le_bytes :: "u8 list \<Rightarrow> u64" where
  "from_le_bytes [] = 0"
| "from_le_bytes (b # bs) = ucast b OR push_bit 8 (from_le_bytes bs)"

definition to_le_bytes :: "u64 \<Rightarrow> u8 list" where
  "to_le_bytes w = map (\<lambda>i. ucast (drop_bit (8 * i) w)) [0..<8]"

text \<open>A continuation byte of UTF-8, and the bytes that may follow a given first byte.\<close>

definition is_continuation :: "u8 \<Rightarrow> bool" where
  "is_continuation b \<longleftrightarrow> 0x80 \<le> b \<and> b \<le> 0xBF"

definition utf8_char_width :: "u8 \<Rightarrow> nat" where
  "utf8_char_width b =
     (if b < 0x80 then 1
      else if 0xC2 \<le> b \<and> b \<le> 0xDF then 2
      else if 0xE0 \<le> b \<and> b \<le> 0xEF then 3
      else if 0xF0 \<le> b \<and> b \<le> 0xF4 then 4
      else 0)"

definition second_byte_ok :: "u8 \<Rightarrow> u8 \<Rightarrow> bool" where
  "second_byte_ok b b2 \<longleftrightarrow>
     (if b = 0xE0 then 0xA0 \<le> b2 \<and> b2 \<le> 0xBF
      else if b = 0xED then 0x80 \<le> b2 \<and> b2 \<le> 0x9F
      else if b = 0xF0 then 0x90 \<le> b2 \<and> b2 \<le> 0xBF
      else if b = 0xF4 then 0x80 \<le> b2 \<and> b2 \<le> 0x8F
      else is_continuation b2)"

text \<open>
  How many of the bytes after the first fit the character it starts: the longest prefix of a valid
  character, which is replaced as a whole when the character is cut short.
\<close>

fun fitting :: "nat \<Rightarrow> u8 list \<Rightarrow> nat" where
  "fitting 0 bs = 0"
| "fitting (Suc n) [] = 0"
| "fitting (Suc n) (b # bs) = (if is_continuation b then Suc (fitting n bs) else 0)"

definition char_extent :: "u8 \<Rightarrow> u8 list \<Rightarrow> nat" where
  "char_extent b bs =
     (case bs of
        [] \<Rightarrow> 0
      | b2 # bs' \<Rightarrow>
          if 2 \<le> utf8_char_width b \<and> second_byte_ok b b2 then Suc (fitting (utf8_char_width b - 2) bs')
          else 0)"

text \<open>\<open>String::from_utf8_lossy\<close>: invalid sequences become U+FFFD, here the bytes EF BF BD.\<close>

function from_utf8_lossy :: "u8 list \<Rightarrow> u8 list" where
  "from_utf8_lossy [] = []"
| "from_utf8_lossy (b # bs) =
     (let n = char_extent b bs in
      (if utf8_char_width b = Suc n then b # take n bs else [0xEF, 0xBF, 0xBD]) @
      from_utf8_lossy (drop n bs))"
  by pat_completeness auto
termination
  by (relation "measure length") auto

text \<open>Slicing a string at a byte index panics off a character boundary.\<close>

definition is_char_boundary :: "u8 list \<Rightarrow> nat \<Rightarrow> bool" where
  "is_char_boundary s i \<longleftrightarrow> i = 0 \<or> i = length s \<or> (i < length s \<and> \<not> is_continuation (s ! i))"

definition str_prefix :: "u8 list \<Rightarrow> nat \<Rightarrow> u8 list option" where
  "str_prefix s i = (if is_char_boundary s i then Some (take i s) else None)"

section \<open>The targets\<close>

text \<open>Reading eight bytes at an offset indexes the data, and a bad index is the panic.\<close>

fun read_bytes :: "u8 list \<Rightarrow> nat \<Rightarrow> nat \<Rightarrow> u8 list option" where
  "read_bytes d offset 0 = Some []"
| "read_bytes d offset (Suc n) =
     (case at d offset of
        None \<Rightarrow> None
      | Some b \<Rightarrow> map_option (\<lambda>bs. b # bs) (read_bytes d (offset + 1) n))"

definition read_u64 :: "u8 list \<Rightarrow> nat \<Rightarrow> u64 option" where
  "read_u64 d offset = map_option from_le_bytes (read_bytes d offset 8)"

text \<open>The part both targets share: the two seeds and the offset after them.\<close>

definition decode_seeds :: "u8 list \<Rightarrow> (u64 \<times> u64 \<times> nat) option" where
  "decode_seeds d =
     Option.bind (read_u64 d 0) (\<lambda>first.
       if 8 + 8 \<le> length d then map_option (\<lambda>seed. (first, seed, 16)) (read_u64 d 8)
       else Some (first, first + 1, 8))"

definition remaining_or :: "u8 list \<Rightarrow> u8 list \<Rightarrow> nat \<Rightarrow> u8 list" where
  "remaining_or fallback d offset = (if offset < length d then drop offset d else fallback)"

text \<open>
  The symbol text: lossily decoded, cut to 32 bytes, given to the constructor. The result is the
  bytes passed on, or \<open>None\<close> for a panic.
\<close>

definition truncate_symbol :: "u8 list \<Rightarrow> u8 list option" where
  "truncate_symbol symbol_data =
     (let symbol_str = from_utf8_lossy symbol_data in
      if length symbol_str > 32 then str_prefix symbol_str 32 else Some symbol_str)"

definition build_symbol :: "(u8 list \<Rightarrow> 'sym option) \<Rightarrow> u8 list \<Rightarrow> 'sym option" where
  "build_symbol symbol_new symbol_data = Option.bind (truncate_symbol symbol_data) symbol_new"

record attest_args =
  aa_attestor_seed :: u64
  aa_subject_seed :: u64
  aa_ttl_seconds :: u64
  aa_symbol_data :: "u8 list"

definition decode_attest_args :: "u8 list \<Rightarrow> attest_args option" where
  "decode_attest_args d =
     Option.bind (decode_seeds d) (\<lambda>(attestor_seed, subject_seed, offset).
     Option.bind (if offset + 8 \<le> length d then read_u64 d offset else Some 1000) (\<lambda>ttl_seconds.
       Some \<lparr>aa_attestor_seed = attestor_seed, aa_subject_seed = subject_seed,
             aa_ttl_seconds = ttl_seconds,
             aa_symbol_data = remaining_or [116, 101, 115, 116, 95, 116, 121, 112, 101] d offset\<rparr>))"

definition attest_hash_bytes :: "attest_args \<Rightarrow> u8 list" where
  "attest_hash_bytes args =
     to_le_bytes (aa_attestor_seed args) @ drop 8 (replicate 32 0)"

text \<open>
  One run of a target. \<open>Skipped\<close>: too little data. \<open>Unwound\<close>: the panic of an inner or the outer
  closure was caught. Otherwise what the closure built.
\<close>

datatype 'a fuzz_run = Skipped | Unwound | Built 'a

definition fuzz_attest_args :: "(u8 list \<Rightarrow> 'sym option) \<Rightarrow> u8 list \<Rightarrow> (u8 list \<times> 'sym) fuzz_run" where
  "fuzz_attest_args symbol_new d =
     (if length d < 8 then Skipped
      else
        case decode_attest_args d of
          None \<Rightarrow> Unwound
        | Some args \<Rightarrow>
            (case build_symbol symbol_new (aa_symbol_data args) of
               None \<Rightarrow> Unwound
             | Some symb \<Rightarrow> Built (attest_hash_bytes args, symb)))"

definition fuzz_revoke_args :: "(u8 list \<Rightarrow> 'sym option) \<Rightarrow> u8 list \<Rightarrow> 'sym fuzz_run" where
  "fuzz_revoke_args symbol_new d =
     (if length d < 8 then Skipped
      else
        case decode_seeds d of
          None \<Rightarrow> Unwound
        | Some (caller_seed, subject_seed, offset) \<Rightarrow>
            (case build_symbol symbol_new
                (remaining_or [97, 116, 116, 101, 115, 116, 101, 100] d offset) of
               None \<Rightarrow> Unwound
             | Some symb \<Rightarrow> Built symb))"

section \<open>Decoding never panics\<close>

lemma read_bytes_eq: "offset + n \<le> length d \<Longrightarrow> read_bytes d offset n = Some (take n (drop offset d))"
proof (induction n arbitrary: offset)
  case (Suc n)
  then show ?case
    by (simp add: at_def) (metis Cons_nth_drop_Suc Suc_le_lessD add_Suc_right le_add1 less_le_trans
        linorder_not_less take_Suc_Cons trans_less_add1)
qed simp

lemma read_u64_eq: "offset + 8 \<le> length d \<Longrightarrow> read_u64 d offset = Some (from_le_bytes (take 8 (drop offset d)))"
  by (simp add: read_u64_def read_bytes_eq)

lemma decode_seeds_eq:
  "8 \<le> length d \<Longrightarrow> decode_seeds d =
     (let first = from_le_bytes (take 8 d) in
      if 16 \<le> length d then Some (first, from_le_bytes (take 8 (drop 8 d)), 16)
      else Some (first, first + 1, 8))"
  by (simp add: decode_seeds_def read_u64_eq Let_def)

lemma decode_attest_args_total:
  assumes "8 \<le> length d"
  shows "\<exists>args. decode_attest_args d = Some args \<and>
    aa_attestor_seed args = from_le_bytes (take 8 d) \<and>
    aa_symbol_data args =
      (if (if 16 \<le> length d then 16 else 8) < length d then drop (if 16 \<le> length d then 16 else 8) d
       else [116, 101, 115, 116, 95, 116, 121, 112, 101])"
proof (cases "16 \<le> length d")
  case True
  then show ?thesis
    by (cases "24 \<le> length d")
      (simp_all add: decode_attest_args_def decode_seeds_eq read_u64_eq remaining_or_def Let_def)
next
  case False
  then show ?thesis
    using assms by (simp add: decode_attest_args_def decode_seeds_eq remaining_or_def Let_def)
qed

section \<open>The bytes of a word\<close>

lemma bit_from_le_bytes:
  "bit (from_le_bytes bs) n \<longleftrightarrow> n < 64 \<and> n div 8 < length bs \<and> bit (bs ! (n div 8)) (n mod 8)"
proof (induction bs arbitrary: n)
  case (Cons b bs)
  have "n div 8 = Suc ((n - 8) div 8)" "n mod 8 = (n - 8) mod 8" if "8 \<le> n"
    using that by (simp_all add: le_div_geq le_mod_geq)
  moreover have "bit b n \<Longrightarrow> n < 8" using bit_imp_le_length [of b n] by simp
  ultimately show ?case
    using Cons.IH [of "n - 8"]
    by (cases "n < 8") (auto simp: bit_simps not_less)
qed simp

lemma to_from_le_bytes:
  assumes "length bs = 8"
  shows "to_le_bytes (from_le_bytes bs) = bs"
proof (rule nth_equalityI)
  show "length (to_le_bytes (from_le_bytes bs)) = length bs" using assms by (simp add: to_le_bytes_def)
next
  fix i assume "i < length (to_le_bytes (from_le_bytes bs))"
  then have i: "i < 8" by (simp add: to_le_bytes_def)
  have "bit (ucast (drop_bit (8 * i) (from_le_bytes bs)) :: u8) k = bit (bs ! i) k" if "k < 8" for k
    using that i assms by (simp add: bit_simps bit_from_le_bytes)
  then have "ucast (drop_bit (8 * i) (from_le_bytes bs)) = bs ! i" by (intro bit_word_eqI) simp
  then show "to_le_bytes (from_le_bytes bs) ! i = bs ! i" using i by (simp add: to_le_bytes_def)
qed

section \<open>What reaches the symbol constructor\<close>

lemma from_utf8_lossy_ascii: "list_all (\<lambda>b. b < 0x80) bs \<Longrightarrow> from_utf8_lossy bs = bs"
proof (induction bs)
  case (Cons b bs)
  then have "utf8_char_width b = 1" by (simp add: utf8_char_width_def)
  moreover from this have "char_extent b bs = 0" by (simp add: char_extent_def split: list.split)
  ultimately show ?case using Cons by simp
qed simp

lemma ascii_not_continuation: "b < (0x80 :: u8) \<Longrightarrow> \<not> is_continuation b"
  by (simp add: is_continuation_def word_le_nat_alt word_less_nat_alt)

lemma truncate_symbol_None_iff:
  "truncate_symbol s = None \<longleftrightarrow>
     32 < length (from_utf8_lossy s) \<and> is_continuation (from_utf8_lossy s ! 32)"
  by (auto simp: truncate_symbol_def str_prefix_def is_char_boundary_def Let_def)

lemma truncate_symbol_ascii: "list_all (\<lambda>b. b < 0x80) s \<Longrightarrow> truncate_symbol s = Some (take 32 s)"
  by (auto simp: truncate_symbol_def str_prefix_def is_char_boundary_def from_utf8_lossy_ascii Let_def
      list_all_length ascii_not_continuation)

text \<open>
  Cutting the text at byte 32 panics on well-formed UTF-8 with a character across that byte, here
  31 letters and an accented one: the targets' claim that building the arguments never panics fails
  before the symbol constructor is reached.
\<close>

lemma truncate_symbol_panics: "truncate_symbol (replicate 31 97 @ [0xC3, 0xA9]) = None"
  by code_simp

lemma revoke_args_unwind:
  "fuzz_revoke_args symbol_new (replicate 16 0 @ replicate 31 97 @ [0xC3, 0xA9]) = Unwound"
  by (simp add: fuzz_revoke_args_def decode_seeds_eq remaining_or_def build_symbol_def
      truncate_symbol_panics Let_def)

text \<open>
  The lifetime is read without advancing the offset, so its eight bytes are also the first eight of
  the symbol text.
\<close>

lemma ttl_bytes_start_symbol:
  assumes "24 \<le> length d" and "decode_attest_args d = Some args"
  shows "aa_ttl_seconds args = from_le_bytes (take 8 (aa_symbol_data args))"
  using assms by (auto simp: decode_attest_args_def decode_seeds_eq read_u64_eq remaining_or_def Let_def)

text \<open>
  On eight or more ASCII bytes the attest fuzz target reaches the symbol constructor: no index
  is out of range, and the constructor gets the first 32 bytes of what follows the seeds. The
  target unwinds only where the constructor does, and the digest it builds is the first eight bytes
  of the data followed by zeros.
\<close>

lemma fuzz_attest_reaches_symbol:
  assumes "8 \<le> length d" and "list_all (\<lambda>b. b < 0x80) d"
  shows "fuzz_attest_args symbol_new d =
    (let offset = if 16 \<le> length d then 16 else 8;
         name = if offset < length d then drop offset d
                else [116, 101, 115, 116, 95, 116, 121, 112, 101]
     in case symbol_new (take 32 name) of
          None \<Rightarrow> Unwound
        | Some symb \<Rightarrow> Built (take 8 d @ replicate 24 0, symb))"
proof -
  let ?offset = "if 16 \<le> length d then 16 else 8 :: nat"
  let ?name = "if ?offset < length d then drop ?offset d else [116, 101, 115, 116, 95, 116, 121, 112, 101]"
  obtain args where args: "decode_attest_args d = Some args"
    "aa_attestor_seed args = from_le_bytes (take 8 d)" "aa_symbol_data args = ?name"
    using decode_attest_args_total [OF assms(1)] by blast
  have "list_all (\<lambda>b. b < 0x80) ?name"
    using assms(2) by (auto simp: list_all_iff dest: in_set_dropD)
  then have name: "truncate_symbol ?name = Some (take 32 ?name)" by (rule truncate_symbol_ascii)
  have digest: "attest_hash_bytes args = take 8 d @ replicate 24 0"
    using assms(1) by (simp add: attest_hash_bytes_def args(2) to_from_le_bytes)
  have "fuzz_attest_args symbol_new d =
      (case symbol_new (take 32 ?name) of None \<Rightarrow> Unwound
       | Some symb \<Rightarrow> Built (take 8 d @ replicate 24 0, symb))"
    using assms(1)
    by (simp only: fuzz_attest_args_def args option.case build_symbol_def name digest bind.bind_lunit)
      (simp add: not_less)
  then show ?thesis by (simp only: Let_def)
qed

end
