(* ===== verification/Storage_Rent.thy ===== *)
theory Storage_Rent
  imports Contract_Properties
begin

text \<open>
  The rent of the persistent entries (the \<open>extend_ttl\<close> calls of \<open>src/storage.rs\<close>, with the model of
  rent its comments and \<open>docs/storage-rent-cost-analysis.md\<close> give). What the network does with a
  request is not in the repository: it is the parameter \<open>rent_host\<close>, with the documented behaviour as
  the hypothesis \<open>documented_host\<close>. The contract machine is extended by the number of the current
  ledger and a lease for every persistent entry, the last ledger it is live in; a call settles the
  leases of the entries it creates, removes and requests rent for. The theorems compare the leases
  with the lifetimes of the attestations they carry.
\<close>

section \<open>The network's side\<close>

text \<open>
  \<open>rh_min\<close> is the number of further ledgers a new or restored entry is live for, and
  \<open>rh_extend threshold extend_to ttl\<close> what a request makes of an entry's remaining \<open>ttl\<close>. The document
  says what happens above and below the threshold; at the threshold itself either is allowed. No
  request buys more than the network's ceiling.
\<close>

record rent_host =
  rh_min :: nat
  rh_extend :: "nat \<Rightarrow> nat \<Rightarrow> nat \<Rightarrow> nat"

definition documented_host :: "rent_host \<Rightarrow> bool" where
  "documented_host h \<longleftrightarrow>
     (\<forall>threshold extend_to ttl.
        (threshold < ttl \<longrightarrow> rh_extend h threshold extend_to ttl = ttl) \<and>
        (ttl < threshold \<longrightarrow>
           rh_extend h threshold extend_to ttl = min extend_to (unat MAX_ENTRY_TTL_LEDGERS)) \<and>
        rh_extend h threshold extend_to ttl \<in> {ttl, min extend_to (unat MAX_ENTRY_TTL_LEDGERS)})"

section \<open>Leases\<close>

type_synonym leases = "DataKey \<rightharpoonup> nat"

record rented =
  rt_env :: env
  rt_ledger :: nat
  rt_lease :: leases

definition live :: "rented \<Rightarrow> DataKey \<Rightarrow> bool" where
  "live r k = (case rt_lease r k of None \<Rightarrow> False | Some l \<Rightarrow> rt_ledger r \<le> l)"

definition archived :: "rented \<Rightarrow> DataKey \<Rightarrow> bool" where
  "archived r k = (case rt_lease r k of None \<Rightarrow> False | Some l \<Rightarrow> l < rt_ledger r)"

text \<open>The persistent entries; the other keys live in the contract instance.\<close>

fun has_entry :: "env \<Rightarrow> DataKey \<Rightarrow> bool" where
  "has_entry e (Attestor a) = (pers_Attestor e a \<noteq> None)"
| "has_entry e (AttestationKey s ty) = (pers_Attestation e (s, ty) \<noteq> None)"
| "has_entry e (AttestationSeq s ty) = (pers_AttestationSeq e (s, ty) \<noteq> None)"
| "has_entry e (AttestationHistory s ty q) = (pers_AttestationHistory e (s, ty, q) \<noteq> None)"
| "has_entry e _ = False"

definition entry_leases :: "rent_host \<Rightarrow> nat \<Rightarrow> env \<Rightarrow> leases \<Rightarrow> leases" where
  "entry_leases h now t leases k =
     (if \<not> has_entry t k then None
      else case leases k of None \<Rightarrow> Some (now + rh_min h) | Some l \<Rightarrow> Some l)"

definition pay_rent :: "rent_host \<Rightarrow> nat \<Rightarrow> DataKey \<times> u32 \<times> u32 \<Rightarrow> leases \<Rightarrow> leases" where
  "pay_rent h now = (\<lambda>(k, threshold, extend_to) leases.
     leases(k := map_option (\<lambda>l. now + rh_extend h (unat threshold) (unat extend_to) (l - now)) (leases k)))"

definition new_bumps :: "env \<Rightarrow> env \<Rightarrow> (DataKey \<times> u32 \<times> u32) list" where
  "new_bumps e t = drop (length (ttl_bumps e)) (ttl_bumps t)"

definition settle :: "rent_host \<Rightarrow> env \<Rightarrow> rented \<Rightarrow> rented" where
  "settle h t r =
     r\<lparr>rt_env := t,
       rt_lease := fold (pay_rent h (rt_ledger r)) (new_bumps (rt_env r) t)
                     (entry_leases h (rt_ledger r) t (rt_lease r))\<rparr>"

text \<open>
  The entries a call reads or overwrites; the history entry it appends is a new one. None of them may
  be archived when the call runs: an archived entry is restored first, by an operation of its own or
  by the network at the start of the transaction.
\<close>

fun footprint :: "call \<Rightarrow> DataKey list" where
  "footprint (AddAttestor a) = [Attestor a]"
| "footprint (RemoveAttestor a) = [Attestor a]"
| "footprint (RenewAttestor a) = [Attestor a]"
| "footprint (Attest a s ty h ttl) = [Attestor a, AttestationKey s ty, AttestationSeq s ty]"
| "footprint (AttestBatch a entries) =
     Attestor a # concat (map (\<lambda>b. [AttestationKey (be_subject b) (be_attestation_type b),
                                     AttestationSeq (be_subject b) (be_attestation_type b)]) entries)"
| "footprint (Revoke c s ty) = [AttestationKey s ty, AttestationSeq s ty]"
| "footprint (RenewAttestation c s ty) = [AttestationKey s ty]"
| "footprint _ = []"

definition rented_run :: "rent_host \<Rightarrow> call \<Rightarrow> rented \<Rightarrow> rented option" where
  "rented_run h c r =
     (if list_ex (archived r) (footprint c) then None
      else case run_call c (rt_env r) of (Ok _, t) \<Rightarrow> Some (settle h t r) | _ \<Rightarrow> None)"

text \<open>
  Ledgers close one after the other and the time never runs backwards; how long a ledger takes is
  open here, and where it matters it is a hypothesis on the average (\<open>nominal_pace\<close>).
\<close>

inductive rented_step :: "rent_host \<Rightarrow> rented \<Rightarrow> rented \<Rightarrow> bool" for h :: rent_host where
  rented_call: "rented_run h c r = Some q \<Longrightarrow> rented_step h r q"
| rented_close: "ledger_timestamp (rt_env r) \<le> now \<Longrightarrow>
     rented_step h r (r\<lparr>rt_env := (rt_env r)\<lparr>ledger_timestamp := now\<rparr>, rt_ledger := Suc (rt_ledger r)\<rparr>)"
| rented_sign: "rented_step h r (r\<lparr>rt_env := (rt_env r)\<lparr>authorized := auths\<rparr>\<rparr>)"
| rented_restore: "archived r k \<Longrightarrow>
     rented_step h r (r\<lparr>rt_lease := (rt_lease r)(k \<mapsto> rt_ledger r + rh_min h)\<rparr>)"

definition fresh_rented :: "rented \<Rightarrow> bool" where
  "fresh_rented r \<longleftrightarrow> fresh (rt_env r) \<and> rt_lease r = (\<lambda>_. None)"

section \<open>The requests of a call\<close>

text \<open>
  Every request the contract makes is for an allow-list, attestation or history entry, and its window
  is within the ceiling with the threshold at most the window.
\<close>

fun rent_key :: "DataKey \<Rightarrow> bool" where
  "rent_key (Attestor a) = True"
| "rent_key (AttestationKey s ty) = True"
| "rent_key (AttestationHistory s ty q) = True"
| "rent_key _ = False"

definition sound_bump :: "DataKey \<times> u32 \<times> u32 \<Rightarrow> bool" where
  "sound_bump = (\<lambda>(k, threshold, extend_to).
     rent_key k \<and> threshold \<le> extend_to \<and> extend_to \<le> MAX_ENTRY_TTL_LEDGERS)"

lemma sound_window [simp]:
  "sound_bump (k, attestation_ttl_window x) = rent_key k"
  by (auto simp: sound_bump_def attestation_ttl_window_def Let_def word_le_nat_alt
      unat_attestation_extend_to unat_div ttl_consts)

lemma sound_rent_window [simp]: "sound_bump (k, rent_window att e) = rent_key k"
  by (simp add: rent_window_def)

lemma sound_attestor_bump [simp]:
  "sound_bump (Attestor a, ATTESTOR_TTL_THRESHOLD, ATTESTOR_TTL_EXTEND_TO)"
  by (simp add: sound_bump_def ttl_consts word_le_nat_alt)

lemma new_bumps_append: "ttl_bumps t = ttl_bumps e @ bs \<Longrightarrow> new_bumps e t = bs"
  by (simp add: new_bumps_def)

lemma recorded_bumps:
  "ttl_bumps (recorded a s ty h ttl e) = ttl_bumps e @
     [(AttestationKey s ty, rent_window (new_attestation a s ty h ttl e) e),
      (AttestationHistory s ty (next_seq s ty e), rent_window (new_attestation a s ty h ttl e) e)]"
  by (simp add: recorded_def stored_def)

lemma record_batch_bumps:
  "record_batch a entries e = (Ok u, t) \<Longrightarrow> \<exists>bs. ttl_bumps t = ttl_bumps e @ bs \<and> list_all sound_bump bs"
proof (induction entries arbitrary: e)
  case (Cons b entries)
  let ?f = "recorded a (be_subject b) (be_attestation_type b) (be_payload_hash b) (be_ttl_seconds b) e"
  have "record_batch a entries ?f = (Ok u, t)"
    using Cons.prems by (auto simp: bindS_Ok_iff record_attestation_Ok_iff)
  from Cons.IH [OF this] obtain bs where "ttl_bumps t = ttl_bumps ?f @ bs" "list_all sound_bump bs"
    by blast
  then show ?case by (auto simp: recorded_bumps)
qed (simp add: retS_def)

lemma call_bumps:
  assumes "run_call c e = (Ok (), t)"
  shows "\<exists>bs. ttl_bumps t = ttl_bumps e @ bs \<and> list_all sound_bump bs"
  using assms
  by (cases c) (auto simp: call_Ok_iffs attest_Ok_iff record_attestation_Ok_iff recorded_bumps
      attest_batch_Ok_iff revoke_Ok_iff stored_def intro: record_batch_bumps)

lemma call_new_bumps: "run_call c e = (Ok (), t) \<Longrightarrow> list_all sound_bump (new_bumps e t)"
  using call_bumps new_bumps_append by metis

section \<open>What a request does to the leases\<close>

lemma rh_extend_ge:
  assumes "documented_host h" and "threshold \<le> extend_to" and "extend_to \<le> unat MAX_ENTRY_TTL_LEDGERS"
  shows "ttl \<le> rh_extend h threshold extend_to ttl"
proof (cases "threshold < ttl")
  case True
  then show ?thesis using assms(1) by (simp add: documented_host_def)
next
  case False
  have "rh_extend h threshold extend_to ttl \<in> {ttl, min extend_to (unat MAX_ENTRY_TTL_LEDGERS)}"
    using assms(1) unfolding documented_host_def by blast
  then show ?thesis using False assms(2,3) by auto
qed

lemma pay_rent_mono:
  assumes "documented_host h" and "sound_bump b" and "leases k = Some l"
  shows "\<exists>l'\<ge>l. pay_rent h now b leases k = Some l'"
proof -
  obtain k' threshold extend_to where b: "b = (k', threshold, extend_to)" by (cases b)
  have "l - now \<le> rh_extend h (unat threshold) (unat extend_to) (l - now)"
    using assms(1,2) by (intro rh_extend_ge) (simp_all add: b sound_bump_def word_le_nat_alt)
  then show ?thesis using assms(3) by (auto simp: pay_rent_def b)
qed

lemma pay_all_mono:
  "documented_host h \<Longrightarrow> list_all sound_bump bs \<Longrightarrow> leases k = Some l \<Longrightarrow>
     \<exists>l'\<ge>l. fold (pay_rent h now) bs leases k = Some l'"
proof (induction bs arbitrary: leases l)
  case (Cons b bs)
  then obtain l1 where "l \<le> l1" "pay_rent h now b leases k = Some l1"
    using pay_rent_mono [of h b leases k l now] by auto
  moreover obtain l2 where "l1 \<le> l2" "fold (pay_rent h now) bs (pay_rent h now b leases) k = Some l2"
    using Cons.IH [of "pay_rent h now b leases" l1] Cons.prems(1,2) calculation by auto
  ultimately show ?case by auto
qed simp

lemma pay_rent_other: "k \<noteq> fst b \<Longrightarrow> pay_rent h now b leases k = leases k"
  by (auto simp: pay_rent_def split: prod.splits)

lemma pay_all_other: "k \<notin> fst ` set bs \<Longrightarrow> fold (pay_rent h now) bs leases k = leases k"
  by (induction bs arbitrary: leases) (auto simp: pay_rent_other)

lemma pay_all_dom: "(fold (pay_rent h now) bs leases k = None) = (leases k = None)"
proof (induction bs arbitrary: leases)
  case (Cons b bs)
  show ?case using Cons.IH [of "pay_rent h now b leases"] by (auto simp: pay_rent_def split: prod.splits)
qed simp

lemma settle_simps [simp]:
  "rt_env (settle h t r) = t"
  "rt_ledger (settle h t r) = rt_ledger r"
  by (simp_all add: settle_def)

lemma rented_run_Some:
  assumes "rented_run h c r = Some q"
  obtains t where "run_call c (rt_env r) = (Ok (), t)" and "q = settle h t r"
  using assms by (auto simp: rented_run_def split: if_splits prod.splits outcome.splits)

lemma settle_dom: "(rt_lease (settle h t r) k \<noteq> None) = has_entry t k"
  by (auto simp: settle_def pay_all_dom entry_leases_def split: option.splits)

lemma settle_mono:
  assumes "documented_host h" and "run_call c (rt_env r) = (Ok (), t)" and "has_entry t k"
    and "rt_lease r k = Some l"
  shows "\<exists>l'\<ge>l. rt_lease (settle h t r) k = Some l'"
  using pay_all_mono [OF assms(1) call_new_bumps [OF assms(2)]] assms(3,4)
  by (simp add: settle_def entry_leases_def)

lemma settle_unrented:
  assumes "run_call c (rt_env r) = (Ok (), t)" and "has_entry t k" and "\<not> rent_key k"
  shows "rt_lease (settle h t r) k =
     (case rt_lease r k of None \<Rightarrow> Some (rt_ledger r + rh_min h) | Some l \<Rightarrow> Some l)"
proof -
  have "k \<notin> fst ` set (new_bumps (rt_env r) t)"
    using call_new_bumps [OF assms(1)] assms(3) by (auto simp: list_all_iff sound_bump_def)
  then show ?thesis using assms(2) by (simp add: settle_def pay_all_other entry_leases_def)
qed

section \<open>The machine with leases\<close>

definition counter_leases_short :: "rent_host \<Rightarrow> rented \<Rightarrow> bool" where
  "counter_leases_short h r \<longleftrightarrow>
     (\<forall>s ty l. rt_lease r (AttestationSeq s ty) = Some l \<longrightarrow> l \<le> rt_ledger r + rh_min h)"

definition rent_inv :: "rent_host \<Rightarrow> rented \<Rightarrow> bool" where
  "rent_inv h r \<longleftrightarrow>
     contract_inv (rt_env r) \<and> (\<forall>k. (rt_lease r k \<noteq> None) = has_entry (rt_env r) k) \<and>
     counter_leases_short h r"

lemma rent_inv_dom: "rent_inv h r \<Longrightarrow> (rt_lease r k = None) = (\<not> has_entry (rt_env r) k)"
  unfolding rent_inv_def by metis

lemma has_entry_frame [simp]:
  "has_entry (e\<lparr>ledger_timestamp := now\<rparr>) k = has_entry e k"
  "has_entry (e\<lparr>authorized := auths\<rparr>) k = has_entry e k"
  by (cases k; simp)+

text \<open>With the leases left out, a step is a step of the contract machine or changes nothing.\<close>

lemma rented_step_contract:
  "rented_step h r q \<Longrightarrow> contract_step\<^sup>*\<^sup>* (rt_env r) (rt_env q)"
proof (induction rule: rented_step.induct)
  case (rented_call c r q)
  then show ?case using rented_run_Some contract_step.invoke by (metis r_into_rtranclp settle_simps(1))
qed (auto intro!: r_into_rtranclp contract_step.intros simp: word_le_nat_alt)

lemma counter_short_call:
  assumes "run_call c (rt_env r) = (Ok (), t)" and "counter_leases_short h r"
  shows "counter_leases_short h (settle h t r)"
  unfolding counter_leases_short_def
proof (intro allI impI)
  fix s ty l
  assume l: "rt_lease (settle h t r) (AttestationSeq s ty) = Some l"
  then have "has_entry t (AttestationSeq s ty)" using settle_dom [of h t r] by blast
  then have "Some l = (case rt_lease r (AttestationSeq s ty) of
      None \<Rightarrow> Some (rt_ledger r + rh_min h) | Some l \<Rightarrow> Some l)"
    using settle_unrented [OF assms(1), of "AttestationSeq s ty" h] l by simp
  then show "l \<le> rt_ledger (settle h t r) + rh_min h"
    using assms(2) by (auto simp: counter_leases_short_def split: option.splits)
qed

lemma rent_inv_step:
  assumes "rent_inv h r" and "rented_step h r q"
  shows "rent_inv h q"
proof -
  have inv: "contract_inv (rt_env q)"
    using assms contract.steps_invar [OF rented_step_contract] by (auto simp: rent_inv_def)
  have dom: "(rt_lease r k \<noteq> None) = has_entry (rt_env r) k" for k
    using assms(1) by (simp add: rent_inv_def)
  have short: "counter_leases_short h r" using assms(1) by (simp add: rent_inv_def)
  from assms(2) have "(\<forall>k. (rt_lease q k \<noteq> None) = has_entry (rt_env q) k) \<and> counter_leases_short h q"
  proof cases
    case (rented_call c)
    then obtain t where "run_call c (rt_env r) = (Ok (), t)" "q = settle h t r" by (rule rented_run_Some)
    then show ?thesis using counter_short_call [OF _ short] settle_dom [of h t r] by simp
  next
    case (rented_close now)
    then show ?thesis using dom short by (auto simp: counter_leases_short_def intro: le_SucI)
  next
    case (rented_sign auths)
    then show ?thesis using dom short by (auto simp: counter_leases_short_def)
  next
    case (rented_restore k)
    then have "rt_lease r k \<noteq> None" by (auto simp: archived_def split: option.splits)
    with rented_restore show ?thesis using dom short by (auto simp: counter_leases_short_def)
  qed
  with inv show ?thesis by (simp add: rent_inv_def)
qed

interpretation rent: invariant_system fresh_rented "rented_step h" "rent_inv h" for h
proof (unfold_locales, goal_cases)
  case (1 r)
  then have "has_entry (rt_env r) k = False" for k
    by (cases k) (auto simp: fresh_rented_def fresh_def empty_env_def)
  then show ?case
    using 1 by (simp add: rent_inv_def fresh_rented_def fresh_inv counter_leases_short_def)
next
  case (2 r q)
  then show ?case by (rule rent_inv_step)
qed

section \<open>Leases over a run\<close>

fun attestor_key :: "DataKey \<Rightarrow> bool" where
  "attestor_key (Attestor a) = True"
| "attestor_key _ = False"

lemma recorded_keeps_entry: "has_entry e k \<Longrightarrow> has_entry (recorded a s ty h ttl e) k"
  by (cases k) (auto simp: recorded_def stored_def)

lemma record_batch_keeps_entry:
  "record_batch a entries e = (Ok u, t) \<Longrightarrow> has_entry e k \<Longrightarrow> has_entry t k"
proof (induction entries arbitrary: e)
  case (Cons b entries)
  then show ?case
    by (auto simp: bindS_Ok_iff record_attestation_Ok_iff intro: recorded_keeps_entry)
qed (simp add: retS_def)

lemma call_keeps_entry:
  assumes "run_call c e = (Ok (), t)" and "has_entry e k" and "\<not> attestor_key k"
  shows "has_entry t k"
proof (cases "attestation_call c")
  case True
  have "has_entry (stored s ty att e) k" for s ty att
    using assms(2) by (cases k) (auto simp: stored_def)
  moreover have "has_entry (e\<lparr>published := evs\<rparr>) k = has_entry e k" for e evs
    by (cases k) simp_all
  ultimately show ?thesis
    using True assms(1,2)
    by (cases c) (auto simp: attest_Ok_iff record_attestation_Ok_iff attest_batch_Ok_iff revoke_Ok_iff
        intro: recorded_keeps_entry record_batch_keeps_entry)
next
  case False
  then show ?thesis
    using other_call_same_attestations [OF False assms(1)] assms(2,3)
    by (cases k) (auto simp: same_attestations_def)
qed

lemma step_lease_mono:
  assumes "documented_host h" and "rent_inv h r" and "rented_step h r q"
    and "rt_lease r k = Some l" and "\<not> attestor_key k"
  shows "\<exists>l'\<ge>l. rt_lease q k = Some l'"
  using assms(3)
proof cases
  case (rented_call c)
  then obtain t where t: "run_call c (rt_env r) = (Ok (), t)" "q = settle h t r" by (rule rented_run_Some)
  have "has_entry (rt_env r) k" using assms(2,4) by (auto simp: rent_inv_def)
  then have "has_entry t k" using call_keeps_entry [OF t(1) _ assms(5)] by simp
  then show ?thesis using settle_mono [OF assms(1) t(1) _ assms(4)] t(2) by simp
next
  case (rented_restore k')
  then show ?thesis using assms(4) by (auto simp: archived_def split: option.splits)
qed (use assms(4) in auto)

lemma steps_lease_mono:
  "(rented_step h)\<^sup>*\<^sup>* r q \<Longrightarrow> documented_host h \<Longrightarrow> rent_inv h r \<Longrightarrow> rt_lease r k = Some l \<Longrightarrow>
     \<not> attestor_key k \<Longrightarrow> \<exists>l'\<ge>l. rt_lease q k = Some l'"
proof (induction rule: rtranclp_induct)
  case (step p q)
  then obtain l1 where l1: "l \<le> l1" "rt_lease p k = Some l1" by blast
  have "rent_inv h p" using rent.steps_invar step(1,5) by blast
  then obtain l2 where "l1 \<le> l2" "rt_lease q k = Some l2"
    using step_lease_mono [OF step(4) _ step(2) l1(2) step(7)] by blast
  then show ?case using l1(1) by auto
qed auto

lemma step_ledger_mono: "rented_step h r q \<Longrightarrow> rt_ledger r \<le> rt_ledger q"
  by (induction rule: rented_step.induct) (auto elim: rented_run_Some)

lemma steps_ledger_mono: "(rented_step h)\<^sup>*\<^sup>* r q \<Longrightarrow> rt_ledger r \<le> rt_ledger q"
  by (induction rule: rtranclp_induct) (auto dest: step_ledger_mono)

section \<open>The leases of a new attestation\<close>

text \<open>
  \<open>lease_ttl\<close> is what is left of an entry's lease when a call bumps it, the network's minimum for an
  entry the call creates. \<open>lifetime\<close> is the number of seconds the rent window is computed from.
\<close>

definition lease_ttl :: "rent_host \<Rightarrow> rented \<Rightarrow> DataKey \<Rightarrow> nat" where
  "lease_ttl h r k = (case rt_lease r k of None \<Rightarrow> rh_min h | Some l \<Rightarrow> l - rt_ledger r)"

definition lifetime :: "u64 \<Rightarrow> env \<Rightarrow> u64" where
  "lifetime ttl e = saturating_sub (saturating_add (ledger_timestamp e) ttl) (ledger_timestamp e)"

lemma unat_lifetime:
  "unat (lifetime ttl e) = unat (saturating_add (ledger_timestamp e) ttl) - unat (ledger_timestamp e)"
  by (simp add: lifetime_def unat_saturating_sub)

lemma lifetime_unsaturated:
  "unat (ledger_timestamp e) + unat ttl < 2 ^ 64 \<Longrightarrow> lifetime ttl e = ttl"
  by (simp add: word_unat_eq_iff unat_lifetime unat_saturating_add)

lemma rent_window_new:
  "rent_window (new_attestation a s ty p ttl e) e = attestation_ttl_window (lifetime ttl e)"
  by (simp add: rent_window_def new_attestation_def lifetime_def)

text \<open>The window in ledgers.\<close>

definition window :: "u64 \<Rightarrow> nat" where
  "window x = unat (snd (attestation_ttl_window x))"

lemma unat_window:
  "unat (snd (attestation_ttl_window x)) = window x"
  "unat (fst (attestation_ttl_window x)) = window x div 2"
  "window x \<le> unat MAX_ENTRY_TTL_LEDGERS"
  "min (unat x div 5) (unat MAX_ENTRY_TTL_LEDGERS) \<le> window x"
  by (simp_all add: window_def attestation_ttl_window_def Let_def unat_div unat_attestation_extend_to ttl_consts)

lemma attest_leases:
  assumes inv: "rent_inv h r" and run: "rented_run h (Attest a s ty p ttl) r = Some q"
  defines "w \<equiv> window (lifetime ttl (rt_env r))"
  shows "rt_env q = recorded a s ty p ttl (rt_env r)" and "rt_ledger q = rt_ledger r"
    and "rt_lease q (AttestationKey s ty) =
           Some (rt_ledger r + rh_extend h (w div 2) w (lease_ttl h r (AttestationKey s ty)))"
    and "rt_lease q (AttestationHistory s ty (next_seq s ty (rt_env r))) =
           Some (rt_ledger r + rh_extend h (w div 2) w (rh_min h))"
    and "rt_lease r (AttestationSeq s ty) = None \<Longrightarrow>
           rt_lease q (AttestationSeq s ty) = Some (rt_ledger r + rh_min h)"
    and "rt_lease r (AttestationSeq s ty) = Some l \<Longrightarrow> rt_lease q (AttestationSeq s ty) = Some l"
proof -
  let ?e = "rt_env r"
  obtain t where call: "run_call (Attest a s ty p ttl) ?e = (Ok (), t)" and q: "q = settle h t r"
    using run by (rule rented_run_Some)
  have t: "t = recorded a s ty p ttl ?e" and room: "seq_room s ty ?e"
    using call by (auto simp: attest_Ok_iff record_attestation_Ok_iff)
  show "rt_env q = recorded a s ty p ttl ?e" and "rt_ledger q = rt_ledger r" by (simp_all add: q t)
  let ?w = "attestation_ttl_window (lifetime ttl ?e)"
  have bumps: "new_bumps ?e t = [(AttestationKey s ty, ?w), (AttestationHistory s ty (next_seq s ty ?e), ?w)]"
    by (rule new_bumps_append) (simp add: t recorded_bumps rent_window_new)
  have entries: "has_entry t (AttestationKey s ty)" "has_entry t (AttestationSeq s ty)"
      "has_entry t (AttestationHistory s ty (next_seq s ty ?e))"
    by (simp_all add: t recorded_def stored_def)
  obtain threshold extend_to where ww: "?w = (threshold, extend_to)" by fastforce
  then have uw: "unat threshold = w div 2" "unat extend_to = w"
    using unat_window(1,2) [of "lifetime ttl ?e"] by (simp_all add: w_def)
  show "rt_lease q (AttestationKey s ty) =
      Some (rt_ledger r + rh_extend h (w div 2) w (lease_ttl h r (AttestationKey s ty)))"
    using entries(1)
    by (auto simp: q settle_def bumps ww uw pay_rent_def entry_leases_def lease_ttl_def simp del: has_entry.simps
        split: option.splits)
  have "\<not> has_entry ?e (AttestationHistory s ty (next_seq s ty ?e))"
    using inv room by (auto simp: rent_inv_def contract_inv_def history_wf_def next_seq_def seq_room_def
        word_le_nat_alt unat_next_seq)
  then have "rt_lease r (AttestationHistory s ty (next_seq s ty ?e)) = None"
    using rent_inv_dom [OF inv] by blast
  then show "rt_lease q (AttestationHistory s ty (next_seq s ty ?e)) =
      Some (rt_ledger r + rh_extend h (w div 2) w (rh_min h))"
    using entries(3)
    by (auto simp: q settle_def bumps ww uw pay_rent_def entry_leases_def simp del: has_entry.simps)
  show "rt_lease r (AttestationSeq s ty) = None \<Longrightarrow>
      rt_lease q (AttestationSeq s ty) = Some (rt_ledger r + rh_min h)"
    and "rt_lease r (AttestationSeq s ty) = Some l \<Longrightarrow> rt_lease q (AttestationSeq s ty) = Some l"
    using settle_unrented [OF call entries(2), of h] by (simp_all add: q)
qed

section \<open>Ledgers closing at the nominal pace\<close>

definition closed :: "nat \<Rightarrow> rented \<Rightarrow> rented" where
  "closed n r = r\<lparr>rt_env := (rt_env r)\<lparr>ledger_timestamp := ledger_timestamp (rt_env r) + word_of_nat (5 * n)\<rparr>,
                  rt_ledger := rt_ledger r + n\<rparr>"

lemma unat_closed:
  "unat (ledger_timestamp (rt_env r)) + 5 * n < 2 ^ 64 \<Longrightarrow>
     unat (ledger_timestamp (rt_env (closed n r))) = unat (ledger_timestamp (rt_env r)) + 5 * n"
  by (simp add: closed_def unat_word_ariths unat_of_nat_u64)

lemma closed_steps:
  "unat (ledger_timestamp (rt_env r)) + 5 * n < 2 ^ 64 \<Longrightarrow> (rented_step h)\<^sup>*\<^sup>* r (closed n r)"
proof (induction n)
  case 0
  then show ?case by (simp add: closed_def)
next
  case (Suc n)
  let ?r = "closed n r" and ?now = "ledger_timestamp (rt_env (closed (Suc n) r))"
  have "ledger_timestamp (rt_env ?r) \<le> ?now"
    using Suc.prems unat_closed [of r n] unat_closed [of r "Suc n"] by (simp add: word_le_nat_alt)
  then have "rented_step h ?r (?r\<lparr>rt_env := (rt_env ?r)\<lparr>ledger_timestamp := ?now\<rparr>, rt_ledger := Suc (rt_ledger ?r)\<rparr>)"
    by (rule rented_close)
  then have "rented_step h ?r (closed (Suc n) r)" by (simp add: closed_def)
  moreover have "(rented_step h)\<^sup>*\<^sup>* r ?r" using Suc by simp
  ultimately show ?case by (rule rtranclp.rtrancl_into_rtrancl [rotated])
qed

lemma is_valid_closed:
  assumes "rt_env r = recorded a s ty p ttl e"
    and "unat (ledger_timestamp e) + unat ttl < 2 ^ 64" and "5 * n < unat ttl"
  shows "is_valid s ty (rt_env (closed n r))"
proof -
  have now: "unat (ledger_timestamp (rt_env (closed n r))) = unat (ledger_timestamp e) + 5 * n"
    using assms by (simp add: unat_closed)
  have "pers_Attestation (rt_env (closed n r)) (s, ty) = Some (new_attestation a s ty p ttl e)"
    by (simp add: closed_def assms(1))
  then show ?thesis using now assms(2,3)
    by (simp add: is_valid_def storage_get_attestation_def new_attestation_def word_less_nat_alt
        unat_saturating_add)
qed

section \<open>A concrete run with leases\<close>

text \<open>
  A network that gives new entries 4096 ledgers and does nothing at the threshold; the run of the
  contract's examples on it, where \<open>alice\<close> is attested for 90 days and then, at once, for 100.
\<close>

definition demo_host :: rent_host where
  "demo_host = \<lparr>rh_min = 4096,
     rh_extend = (\<lambda>threshold extend_to ttl. if ttl < threshold then min extend_to 6312000 else ttl)\<rparr>"

lemma demo_host_documented: "documented_host demo_host"
  by (simp add: documented_host_def demo_host_def ttl_consts)

definition demo_leased :: rented where
  "demo_leased = settle demo_host demo_registered
     (settle demo_host demo_initialized \<lparr>rt_env = demo_fresh, rt_ledger = 100, rt_lease = (\<lambda>_. None)\<rparr>)"

definition demo_ninety :: rented where
  "demo_ninety = settle demo_host (recorded ''anchor'' ''alice'' ''kyc'' 7 7776000 demo_registered) demo_leased"

definition demo_hundred :: rented where
  "demo_hundred = settle demo_host
     (recorded ''anchor'' ''alice'' ''kyc'' 7 8640000 (rt_env demo_ninety)) demo_ninety"

lemma rented_run_intro:
  "run_call c (rt_env r) = (Ok (), t) \<Longrightarrow> \<not> list_ex (archived r) (footprint c) \<Longrightarrow>
     rented_run h c r = Some (settle h t r)"
  by (simp add: rented_run_def)

lemma has_entry_registered: "has_entry demo_registered k = (k = Attestor ''anchor'')"
  by (cases k) (auto simp: demo_simps)

lemma demo_leased_facts:
  "rt_env demo_leased = demo_registered" "rt_ledger demo_leased = 100"
  "rt_lease demo_leased k = (if k = Attestor ''anchor'' then Some 6312100 else None)"
proof -
  show "rt_env demo_leased = demo_registered" "rt_ledger demo_leased = 100"
    by (simp_all add: demo_leased_def)
  have "has_entry demo_initialized k = False" for k by (cases k) (simp_all add: demo_simps)
  then have first: "rt_lease (settle demo_host demo_initialized
      \<lparr>rt_env = demo_fresh, rt_ledger = 100, rt_lease = (\<lambda>_. None)\<rparr>) = (\<lambda>_. None)"
    using settle_dom by (metis ext)
  have "new_bumps demo_initialized demo_registered =
      [(Attestor ''anchor'', ATTESTOR_TTL_THRESHOLD, ATTESTOR_TTL_EXTEND_TO)]"
    by (rule new_bumps_append) (simp add: demo_simps)
  then show "rt_lease demo_leased k = (if k = Attestor ''anchor'' then Some 6312100 else None)"
    using first by (simp add: demo_leased_def settle_def [of _ demo_registered] has_entry_registered
        entry_leases_def pay_rent_def demo_host_def ttl_consts del: has_entry.simps)
qed

lemma demo_leased_reach: "reach fresh_rented (rented_step demo_host) demo_leased"
proof -
  let ?r0 = "\<lparr>rt_env = demo_fresh, rt_ledger = 100, rt_lease = (\<lambda>_. None)\<rparr>"
  let ?r1 = "settle demo_host demo_initialized ?r0"
  have "fresh_rented ?r0" by (auto simp: fresh_rented_def fresh_def demo_fresh_def)
  then have "reach fresh_rented (rented_step demo_host) ?r0" by (rule reach.reach_init)
  moreover have "rented_run demo_host (Initialize ''admin'') ?r0 = Some ?r1"
    by (rule rented_run_intro) (simp_all add: demo_initialize)
  ultimately have r1: "reach fresh_rented (rented_step demo_host) ?r1"
    using reach.reach_step rented_call by metis
  have "rt_lease ?r1 (Attestor ''anchor'') = None"
    using settle_dom [of demo_host demo_initialized ?r0 "Attestor ''anchor''"] by (simp add: demo_simps)
  then have "rented_run demo_host (AddAttestor ''anchor'') ?r1 = Some demo_leased"
    unfolding demo_leased_def by (intro rented_run_intro) (simp_all add: demo_add_attestor archived_def)
  then show ?thesis using r1 reach.reach_step rented_call by metis
qed

lemma demo_ninety_run: "rented_run demo_host (Attest ''anchor'' ''alice'' ''kyc'' 7 7776000) demo_leased = Some demo_ninety"
  unfolding demo_ninety_def
  by (rule rented_run_intro)
    (simp_all add: demo_leased_facts archived_def attest_Ok_iff record_attestation_Ok_iff demo_simps
      word_le_nat_alt)

lemma demo_ninety_reach: "reach fresh_rented (rented_step demo_host) demo_ninety"
  using reach.reach_step [OF demo_leased_reach rented_call [OF demo_ninety_run]] .

lemma window_value: "window x = max 518400 (min (unat x div 5) 6312000)"
  by (simp add: window_def attestation_ttl_window_def Let_def unat_attestation_extend_to)

lemmas demo_ninety_leases =
  attest_leases [OF rent.reach_invar [OF demo_leased_reach] demo_ninety_run]

lemma demo_ninety_facts:
  "rt_env demo_ninety = recorded ''anchor'' ''alice'' ''kyc'' 7 7776000 demo_registered"
  "rt_ledger demo_ninety = 100"
  "rt_lease demo_ninety (AttestationKey ''alice'' ''kyc'') = Some 1555300"
  "rt_lease demo_ninety (AttestationSeq ''alice'' ''kyc'') = Some 4196"
  using demo_ninety_leases(1-3,5)
  by (simp_all add: demo_leased_facts demo_host_def lease_ttl_def window_value lifetime_unsaturated demo_simps)

lemma demo_hundred_run:
  "rented_run demo_host (Attest ''anchor'' ''alice'' ''kyc'' 7 8640000) demo_ninety = Some demo_hundred"
  unfolding demo_hundred_def
proof (rule rented_run_intro)
  have "rt_lease demo_ninety (Attestor ''anchor'') = Some 6312100"
    by (simp add: demo_ninety_def settle_def new_bumps_append [OF recorded_bumps] demo_leased_facts
        pay_rent_other entry_leases_def demo_simps)
  then show "\<not> list_ex (archived demo_ninety) (footprint (Attest ''anchor'' ''alice'' ''kyc'' 7 8640000))"
    by (simp add: archived_def demo_ninety_facts)
  show "run_call (Attest ''anchor'' ''alice'' ''kyc'' 7 8640000) (rt_env demo_ninety) =
      (Ok (), recorded ''anchor'' ''alice'' ''kyc'' 7 8640000 (rt_env demo_ninety))"
    by (simp add: demo_ninety_facts attest_Ok_iff record_attestation_Ok_iff demo_simps recorded_def stored_def
        next_seq_def word_le_nat_alt)
qed

section \<open>Rent and lifetimes\<close>

text \<open>
  Over a run the ledgers took \<open>SECONDS_PER_LEDGER\<close> on average, or longer: the average close time the
  windows are computed from.
\<close>

definition nominal_pace :: "rented \<Rightarrow> rented \<Rightarrow> bool" where
  "nominal_pace r q \<longleftrightarrow>
     unat (ledger_timestamp (rt_env r)) + unat SECONDS_PER_LEDGER * (rt_ledger q - rt_ledger r)
       \<le> unat (ledger_timestamp (rt_env q))"

text \<open>
  C16. Where rent is bought, it covers the attestation. Let \<open>attest\<close> succeed when what is left of the
  lease of the pair's entry (the network's minimum, for a new entry) is below the threshold, half of
  the window requested. Then in every state that follows, whatever calls, renewals and ledger closes
  lead to it, the attestation is live if it has not expired, no more ledgers than the network's ceiling
  have closed since, and those took five seconds or longer on average. The history entry the call
  appends is live then as well if the network's minimum is below the threshold, so that its own
  request bought rent.
\<close>

theorem rent_covers_lifetime:
  assumes host: "documented_host h" and reach: "reach fresh_rented (rented_step h) r"
    and run: "rented_run h (Attest a s ty p ttl) r = Some q"
    and low: "lease_ttl h r (AttestationKey s ty) < unat (fst (attestation_ttl_window (lifetime ttl (rt_env r))))"
    and steps: "(rented_step h)\<^sup>*\<^sup>* q q'" and pace: "nominal_pace q q'"
    and early: "ledger_timestamp (rt_env q') \<le> saturating_add (ledger_timestamp (rt_env r)) ttl"
    and ceiling: "rt_ledger q' \<le> rt_ledger q + unat MAX_ENTRY_TTL_LEDGERS"
  shows "live q' (AttestationKey s ty) \<and>
     (rh_min h < unat (fst (attestation_ttl_window (lifetime ttl (rt_env r)))) \<longrightarrow>
        live q' (AttestationHistory s ty (next_seq s ty (rt_env r))))"
proof -
  let ?left = "lifetime ttl (rt_env r)"
  have inv: "rent_inv h r" "rent_inv h q"
    using rent.reach_invar reach.reach_step [OF reach rented_call [OF run]] reach by blast+
  note q = attest_leases [OF inv(1) run]
  have bought: "rh_extend h (window ?left div 2) (window ?left) c = window ?left" if "c < window ?left div 2" for c
    using host that unat_window(3) [of ?left] by (simp add: documented_host_def)
  have "5 * (rt_ledger q' - rt_ledger r) \<le> unat ?left"
    using pace early q(1,2) by (simp add: nominal_pace_def ttl_consts unat_lifetime word_le_nat_alt)
  then have "rt_ledger q' - rt_ledger r \<le> min (unat ?left div 5) (unat MAX_ENTRY_TTL_LEDGERS)"
    using ceiling q(2) by (simp add: less_eq_div_iff_mult_less_eq)
  then have reached: "rt_ledger q' \<le> rt_ledger r + window ?left" using unat_window(4) [of ?left] by linarith
  have "live q' k" if "rt_lease q k = Some (rt_ledger r + window ?left)" and "\<not> attestor_key k" for k
    using steps_lease_mono [OF steps host inv(2) that] reached by (auto simp: live_def)
  then show ?thesis using q(3,4) low bought by (simp add: unat_window)
qed

theorem rent_covers_lifetime_witness:
  "live (closed 1555000 demo_ninety) (AttestationKey ''alice'' ''kyc'') \<and>
   live (closed 1555000 demo_ninety) (AttestationHistory ''alice'' ''kyc'' (next_seq ''alice'' ''kyc'' demo_registered))"
proof -
  have "unat (ledger_timestamp (rt_env demo_ninety)) + 5 * 1555000 < 2 ^ 64"
    by (simp add: demo_ninety_facts demo_simps)
  note q = closed_steps [OF this, of demo_host] unat_closed [OF this]
  have pace: "nominal_pace demo_ninety (closed 1555000 demo_ninety)"
    by (simp add: nominal_pace_def q(2) ttl_consts) (simp add: closed_def)
  have "live (closed 1555000 demo_ninety) (AttestationKey ''alice'' ''kyc'') \<and>
      (rh_min demo_host < unat (fst (attestation_ttl_window (lifetime 7776000 (rt_env demo_leased)))) \<longrightarrow>
       live (closed 1555000 demo_ninety)
         (AttestationHistory ''alice'' ''kyc'' (next_seq ''alice'' ''kyc'' (rt_env demo_leased))))"
    by (rule rent_covers_lifetime [OF demo_host_documented demo_leased_reach demo_ninety_run _ q(1) pace])
      (simp_all add: demo_leased_facts demo_ninety_facts demo_host_def lease_ttl_def unat_window window_value
        lifetime_unsaturated demo_simps ttl_consts word_le_nat_alt q(2) unat_saturating_add closed_def)
  then show ?thesis
    by (simp add: demo_leased_facts demo_host_def unat_window window_value lifetime_unsaturated demo_simps)
qed

text \<open>
  C17. Where the lease is still above the threshold, no rent is bought even if it ends before the
  attestation does: attesting a pair whose entry has \<open>c\<close> ledgers left, with \<open>c\<close> above half of the new
  window but short of the new lifetime, leaves the lease as it was, and \<open>c + 1\<close> ledgers later the entry
  is archived while the attestation is unexpired and valid.
\<close>

theorem rent_lapses_early:
  assumes host: "documented_host h" and reach: "reach fresh_rented (rented_step h) r"
    and run: "rented_run h (Attest a s ty p ttl) r = Some q"
    and bound: "unat (ledger_timestamp (rt_env r)) + unat ttl < 2 ^ 64"
    and high: "unat (fst (attestation_ttl_window ttl)) < lease_ttl h r (AttestationKey s ty)"
    and short: "5 * Suc (lease_ttl h r (AttestationKey s ty)) < unat ttl"
  shows "let q' = closed (Suc (lease_ttl h r (AttestationKey s ty))) q
     in (rented_step h)\<^sup>*\<^sup>* q q' \<and> archived q' (AttestationKey s ty) \<and> is_valid s ty (rt_env q')"
proof -
  let ?q = "closed (Suc (lease_ttl h r (AttestationKey s ty))) q"
  have inv: "rent_inv h r" using reach by (rule rent.reach_invar)
  note q = attest_leases [OF inv run]
  have "rt_lease q (AttestationKey s ty) = Some (rt_ledger r + lease_ttl h r (AttestationKey s ty))"
    using q(3) host high by (simp add: lifetime_unsaturated [OF bound] unat_window documented_host_def)
  then have "archived ?q (AttestationKey s ty)" by (simp add: archived_def closed_def q(2))
  moreover have "(rented_step h)\<^sup>*\<^sup>* q ?q" using bound short q(1) by (simp add: closed_steps)
  ultimately show ?thesis using is_valid_closed [OF q(1) bound short] by (simp add: Let_def)
qed

theorem rent_lapses_early_witness:
  "let q = closed 1555201 demo_hundred
   in (rented_step demo_host)\<^sup>*\<^sup>* demo_hundred q \<and> archived q (AttestationKey ''alice'' ''kyc'') \<and>
      is_valid ''alice'' ''kyc'' (rt_env q)"
proof -
  have "lease_ttl demo_host demo_ninety (AttestationKey ''alice'' ''kyc'') = 1555200"
    by (simp add: lease_ttl_def demo_ninety_facts)
  then show ?thesis
    using rent_lapses_early [OF demo_host_documented demo_ninety_reach demo_hundred_run]
    by (simp add: demo_ninety_facts unat_window window_value demo_simps)
qed

text \<open>
  The sequence counter of a history never has rent bought for it: no call changes the lease of a
  counter that exists, so that it ends as it was set, within the network's minimum.
\<close>

lemma counter_call:
  assumes "rent_inv h r" and "rt_lease r (AttestationSeq s ty) = Some l" and "rented_run h c r = Some q"
  shows "rt_lease q (AttestationSeq s ty) = Some l"
proof -
  obtain t where t: "run_call c (rt_env r) = (Ok (), t)" "q = settle h t r"
    using assms(3) by (rule rented_run_Some)
  have "has_entry (rt_env r) (AttestationSeq s ty)"
    using rent_inv_dom [OF assms(1), of "AttestationSeq s ty"] assms(2) by simp
  then have "has_entry t (AttestationSeq s ty)" using call_keeps_entry [OF t(1), of "AttestationSeq s ty"] by simp
  then show ?thesis using settle_unrented [OF t(1), of "AttestationSeq s ty" h] assms(2) t(2) by simp
qed

lemma counter_steps:
  "(rented_step h)\<^sup>*\<^sup>* q u \<Longrightarrow> rent_inv h q \<Longrightarrow> rt_lease q (AttestationSeq s ty) = Some l \<Longrightarrow> rt_ledger u \<le> l \<Longrightarrow>
     rt_lease u (AttestationSeq s ty) = Some l"
proof (induction rule: rtranclp_induct)
  case (step p u)
  have "rt_ledger p \<le> l" using step_ledger_mono [OF step(2)] step.prems(3) by simp
  then have lease: "rt_lease p (AttestationSeq s ty) = Some l" and fresh: "\<not> archived p (AttestationSeq s ty)"
    using step.IH step.prems by (simp_all add: archived_def)
  have inv: "rent_inv h p" using rent.steps_invar [OF step(1) step.prems(1)] .
  from step(2) show ?case
  proof cases
    case (rented_call c)
    then show ?thesis by (rule counter_call [OF inv lease])
  next
    case (rented_restore k)
    then show ?thesis using lease fresh by auto
  qed (use lease in simp_all)
qed

text \<open>Renewing an attestation buys rent for its current entry only, not for any entry of its history.\<close>

lemma renew_leaves_history:
  assumes "rent_inv h r" and "rented_run h (RenewAttestation c s ty) r = Some q"
  shows "rt_lease q (AttestationHistory s' ty' n) = rt_lease r (AttestationHistory s' ty' n)"
proof -
  let ?k = "AttestationHistory s' ty' n"
  obtain t where t: "run_call (RenewAttestation c s ty) (rt_env r) = (Ok (), t)" "q = settle h t r"
    using assms(2) by (rule rented_run_Some)
  obtain att where bumps: "new_bumps (rt_env r) t = [(AttestationKey s ty, rent_window att (rt_env r))]"
    and same: "has_entry t ?k = has_entry (rt_env r) ?k"
    using t(1) by (auto simp: renew_attestation_Ok_iff new_bumps_def)
  show ?thesis
    using same rent_inv_dom [OF assms(1), of ?k]
    by (auto simp: t(2) settle_def bumps pay_rent_other entry_leases_def simp del: has_entry.simps split: option.splits)
qed

lemma first_attestation:
  assumes "rent_inv h r" and "rt_lease r (AttestationSeq s ty) = None"
  shows "rt_lease r (AttestationKey s ty) = None"
proof -
  have "storage_get_attestation_seq s ty (rt_env r) = 0"
    using rent_inv_dom [OF assms(1), of "AttestationSeq s ty"] assms(2)
    by (simp add: storage_get_attestation_seq_def)
  moreover have "latest_wf s ty (rt_env r)" using assms(1) by (simp add: rent_inv_def contract_inv_def)
  ultimately have "\<not> has_entry (rt_env r) (AttestationKey s ty)"
    by (auto simp: latest_wf_def split: option.splits)
  then show ?thesis using rent_inv_dom [OF assms(1)] by blast
qed

text \<open>
  C18. The counter of a history is never paid for. After the first attestation of a pair no call extends
  the lease of the counter, in any state that follows before it ends, and it ends with the network's
  minimum. So for a lifetime longer than that a ledger comes in which the attestation is valid and the
  counter that numbers its history is archived; where rent was bought for the attestation, that is when
  the network's minimum is below half of the window, it and its history entry are live then.
\<close>

theorem counter_lapses:
  assumes host: "documented_host h" and reach: "reach fresh_rented (rented_step h) r"
    and run: "rented_run h (Attest a s ty p ttl) r = Some q"
    and first: "rt_lease r (AttestationSeq s ty) = None"
    and bound: "unat (ledger_timestamp (rt_env r)) + unat ttl < 2 ^ 64"
    and short: "5 * Suc (rh_min h) < unat ttl"
  shows "(\<forall>u. (rented_step h)\<^sup>*\<^sup>* q u \<and> rt_ledger u \<le> rt_ledger r + rh_min h \<longrightarrow>
        rt_lease u (AttestationSeq s ty) = Some (rt_ledger r + rh_min h)) \<and>
     (let q' = closed (Suc (rh_min h)) q
      in (rented_step h)\<^sup>*\<^sup>* q q' \<and> is_valid s ty (rt_env q') \<and> archived q' (AttestationSeq s ty) \<and>
         (rh_min h < unat (fst (attestation_ttl_window ttl)) \<longrightarrow>
            live q' (AttestationKey s ty) \<and> live q' (AttestationHistory s ty (next_seq s ty (rt_env r)))))"
proof -
  let ?q = "closed (Suc (rh_min h)) q"
  have inv: "rent_inv h r" and inv': "rent_inv h q"
    using rent.reach_invar reach.reach_step [OF reach rented_call [OF run]] reach by blast+
  note q = attest_leases [OF inv run]
  have fresh_ttl: "lease_ttl h r (AttestationKey s ty) = rh_min h"
    using first_attestation [OF inv first] by (simp add: lease_ttl_def)
  have "live ?q (AttestationKey s ty) \<and> live ?q (AttestationHistory s ty (next_seq s ty (rt_env r)))"
    if low: "rh_min h < window ttl div 2"
  proof -
    have "rh_extend h (window ttl div 2) (window ttl) (rh_min h) = window ttl"
      using host low unat_window(3) [of ttl] by (simp add: documented_host_def)
    then show ?thesis
      using q(2-4) low fresh_ttl by (simp add: live_def closed_def lifetime_unsaturated [OF bound])
  qed
  moreover have "archived ?q (AttestationSeq s ty)"
    using q(2) q(5) [OF first] by (simp add: archived_def closed_def)
  moreover have "(rented_step h)\<^sup>*\<^sup>* q ?q" using bound short q(1) by (simp add: closed_steps)
  moreover have "rt_lease u (AttestationSeq s ty) = Some (rt_ledger r + rh_min h)"
    if "(rented_step h)\<^sup>*\<^sup>* q u" and "rt_ledger u \<le> rt_ledger r + rh_min h" for u
    using counter_steps [OF that(1) inv' q(5) [OF first] that(2)] .
  ultimately show ?thesis using is_valid_closed [OF q(1) bound short] by (simp add: Let_def unat_window)
qed

theorem counter_lapses_witness:
  "let q = closed 4097 demo_ninety
   in (rented_step demo_host)\<^sup>*\<^sup>* demo_ninety q \<and> is_valid ''alice'' ''kyc'' (rt_env q) \<and>
      live q (AttestationKey ''alice'' ''kyc'') \<and>
      live q (AttestationHistory ''alice'' ''kyc'' (next_seq ''alice'' ''kyc'' demo_registered)) \<and>
      archived q (AttestationSeq ''alice'' ''kyc'')"
  using counter_lapses [OF demo_host_documented demo_leased_reach demo_ninety_run]
  by (simp add: Let_def demo_leased_facts demo_host_def unat_window window_value demo_simps)

end
