(* ===== verification/Batch_Benchmark.thy ===== *)
theory Batch_Benchmark
  imports Test_World
begin

text \<open>
  The batch benchmark (\<open>src/batch_gas_benchmark.rs\<close>), the set-up it shares with the other tests
  (\<open>src/test_util.rs\<close>) and the hot-path benchmarks (\<open>benches/hot_paths.rs\<close>). What the host charges
  for an invocation, the CPU instructions and the bytes of memory, is the parameter \<open>meter\<close>, a
  function of the call and the state it runs in. As elsewhere \<open>gen\<close> gives the generated addresses in
  order, \<open>start\<close> is the ledger time and \<open>sha256\<close> the host's digest. A panic is \<open>None\<close>. A
  measurement also returns the state it leaves, which the source drops.
\<close>

type_synonym meter = "call \<Rightarrow> env \<Rightarrow> u64 \<times> u64"

section \<open>Set-up\<close>

definition test_setup :: "(nat \<Rightarrow> Address) \<Rightarrow> u64 \<Rightarrow> env option" where
  "test_setup gen start = client_call (Initialize (gen 0)) (deployed start (\<lambda>_. True))"

definition ONE_DAY :: u64 where "ONE_DAY = 24 * 60 * 60"

definition BATCH_SIZES :: "u32 list" where "BATCH_SIZES = [1, 2, 5, 10, 15]"

definition to_be_bytes :: "u32 \<Rightarrow> u8 list" where
  "to_be_bytes i = map (\<lambda>k. ucast (drop_bit (8 * k) i)) [3, 2, 1, 0]"

text \<open>\<open>next\<close> is the number of addresses generated before.\<close>

definition batch_entries ::
  "(nat \<Rightarrow> Address) \<Rightarrow> (u8 list \<Rightarrow> 256 word) \<Rightarrow> nat \<Rightarrow> u32 \<Rightarrow> Symbol \<Rightarrow> BatchAttestEntry list" where
  "batch_entries gen sha256 next n kind =
     map (\<lambda>i. \<lparr>be_subject = gen (next + i), be_attestation_type = kind,
               be_payload_hash = compute_payload_hash sha256 (to_be_bytes (word_of_nat i)),
               be_ttl_seconds = ONE_DAY\<rparr>) [0..<unat n]"

section \<open>Measuring\<close>

text \<open>The loop of \<open>measure_individual\<close>: each call is charged on its own and the charges are summed.\<close>

fun measure_calls ::
  "meter \<Rightarrow> Address \<Rightarrow> Symbol \<Rightarrow> (Address \<times> Bytes32) list \<Rightarrow> u64 \<times> u64 \<Rightarrow> env
     \<Rightarrow> ((u64 \<times> u64) \<times> env) option" where
  "measure_calls meter attestor kind [] sums e = Some (sums, e)"
| "measure_calls meter attestor kind ((subject, hash) # calls) (total_cpu, total_mem) e =
     (let c = Attest attestor subject kind hash ONE_DAY in
      case client_call c e of
        None \<Rightarrow> None
      | Some e' \<Rightarrow>
          (case (checked_add total_cpu (fst (meter c e)), checked_add total_mem (snd (meter c e))) of
             (Some total_cpu, Some total_mem) \<Rightarrow>
               measure_calls meter attestor kind calls (total_cpu, total_mem) e'
           | _ \<Rightarrow> None))"

definition measure_individual ::
  "meter \<Rightarrow> (nat \<Rightarrow> Address) \<Rightarrow> (u8 list \<Rightarrow> 256 word) \<Rightarrow> u64 \<Rightarrow> u32 \<Rightarrow> ((u64 \<times> u64) \<times> env) option" where
  "measure_individual meter gen sha256 start n =
     Option.bind (test_setup gen start) (\<lambda>e.
     let attestor = gen 1 in
     Option.bind (client_call (AddAttestor attestor) e) (\<lambda>e.
     let kind = ''kyc_approved'';
         calls = map (\<lambda>i. (gen (2 + i), compute_payload_hash sha256 (to_be_bytes (word_of_nat i)))) [0..<unat n]
     in measure_calls meter attestor kind calls (0, 0) e))"

definition measure_batch ::
  "meter \<Rightarrow> (nat \<Rightarrow> Address) \<Rightarrow> (u8 list \<Rightarrow> 256 word) \<Rightarrow> u64 \<Rightarrow> u32 \<Rightarrow> ((u64 \<times> u64) \<times> env) option" where
  "measure_batch meter gen sha256 start n =
     Option.bind (test_setup gen start) (\<lambda>e.
     let attestor = gen 1 in
     Option.bind (client_call (AddAttestor attestor) e) (\<lambda>e.
     let kind = ''kyc_approved'';
         entries = batch_entries gen sha256 2 n kind;
         c = AttestBatch attestor entries
     in map_option (\<lambda>e'. (meter c e, e')) (client_call c e)))"

text \<open>The test: the outer option is a panic, the value whether the assertion holds.\<close>

definition attest_batch_stays_under_the_ledger_write_ceiling ::
  "(nat \<Rightarrow> Address) \<Rightarrow> (u8 list \<Rightarrow> 256 word) \<Rightarrow> u64 \<Rightarrow> bool option" where
  "attest_batch_stays_under_the_ledger_write_ceiling gen sha256 start =
     Option.bind (test_setup gen start) (\<lambda>e.
     let attestor = gen 1 in
     Option.bind (client_call (AddAttestor attestor) e) (\<lambda>e.
     let kind = ''kyc_approved'';
         entries = batch_entries gen sha256 2 15 kind
     in map_option (\<lambda>e. get_attestation_count e = 15) (client_call (AttestBatch attestor entries) e)))"

section \<open>Hot paths\<close>

text \<open>The benchmark harness runs the closure as often as it likes, here \<open>k\<close> times.\<close>

definition hot_setup :: "(nat \<Rightarrow> Address) \<Rightarrow> u64 \<Rightarrow> env option" where
  "hot_setup gen start =
     client_calls [Initialize (gen 0), AddAttestor (gen 1)] (deployed start (\<lambda>_. True))"

definition hot_payload :: "u8 list" where
  "hot_payload = map of_char ''kyc-decision:approved''"

fun repeat_op :: "nat \<Rightarrow> ('s \<Rightarrow> 's option) \<Rightarrow> 's \<Rightarrow> 's option" where
  "repeat_op 0 f s = Some s"
| "repeat_op (Suc k) f s = Option.bind (f s) (repeat_op k f)"

definition bench_attest ::
  "(nat \<Rightarrow> Address) \<Rightarrow> (u8 list \<Rightarrow> 256 word) \<Rightarrow> u64 \<Rightarrow> nat \<Rightarrow> env option" where
  "bench_attest gen sha256 start k =
     Option.bind (hot_setup gen start)
       (repeat_op k (client_call (Attest (gen 1) (gen 2) ''kyc_approved''
          (compute_payload_hash sha256 hot_payload) ONE_DAY)))"

definition bench_get_attestation ::
  "(nat \<Rightarrow> Address) \<Rightarrow> (u8 list \<Rightarrow> 256 word) \<Rightarrow> u64 \<Rightarrow> nat \<Rightarrow> env option" where
  "bench_get_attestation gen sha256 start k =
     Option.bind (hot_setup gen start) (\<lambda>e.
     Option.bind (client_call (Attest (gen 1) (gen 2) ''kyc_approved''
        (compute_payload_hash sha256 hot_payload) ONE_DAY) e)
       (repeat_op k (\<lambda>e. case get_attestation (gen 2) ''kyc_approved'' e of (Ok _, t) \<Rightarrow> Some t | _ \<Rightarrow> None)))"

definition bench_is_valid ::
  "(nat \<Rightarrow> Address) \<Rightarrow> (u8 list \<Rightarrow> 256 word) \<Rightarrow> u64 \<Rightarrow> nat \<Rightarrow> (env \<times> bool list) option" where
  "bench_is_valid gen sha256 start k =
     Option.bind (hot_setup gen start) (\<lambda>e.
     map_option (\<lambda>e. (e, map (\<lambda>_. is_valid (gen 2) ''kyc_approved'' e) [0..<k]))
       (client_call (Attest (gen 1) (gen 2) ''kyc_approved''
          (compute_payload_hash sha256 hot_payload) ONE_DAY) e))"

section \<open>The instance both measurements run on\<close>

definition bench_fixture :: "(nat \<Rightarrow> Address) \<Rightarrow> fixture" where
  "bench_fixture gen =
     \<lparr>fx_admin = gen 0, fx_attestors = [gen 1], fx_callers = [], fx_subjects = [], fx_kinds = [], fx_hash = 0\<rparr>"

lemma bench_instance:
  obtains e where "hot_setup gen start = Some e"
    "Option.bind (test_setup gen start) (client_call (AddAttestor (gen 1))) = Some e"
    "test_world (bench_fixture gen) 0 e" "untouched e"
    "pers_AttestationSeq e = (\<lambda>_. None)" "pers_AttestationHistory e = (\<lambda>_. None)"
    "ledger_timestamp e = start"
proof -
  let ?e0 = "(deployed start (\<lambda>_. True))\<lparr>inst_Admin := Some (gen 0), inst_Paused := Some False,
    published := [InitializedEv (gen 0)]\<rparr>"
  obtain e where e: "client_call (AddAttestor (gen 1)) ?e0 = Some e"
    and facts: "inst_Admin e = Some (gen 0)" "authorized e = (\<lambda>_. True)" "storage_is_attestor (gen 1) e"
      "inst_MaxAttestationTtl e = (\<lambda>_. None)" "inst_DefaultMaxAttestationTtl e = None"
      "inst_AttestationCount e = None" "pers_AttestationSeq e = (\<lambda>_. None)"
      "pers_AttestationHistory e = (\<lambda>_. None)"
      "pers_Attestation e = (\<lambda>_. None)" "inst_Paused e = Some False" "ledger_timestamp e = start"
    by (simp add: add_attestor_client storage_is_attestor_def deployed_def empty_env_def)
  have hot: "hot_setup gen start = Some e" using e by (simp add: hot_setup_def initialize_client)
  then have "contract_inv e" unfolding hot_setup_def by (rule client_calls_inv [OF _ deployed_inv])
  then have "test_world (bench_fixture gen) 0 e" "untouched e"
    using facts by (simp_all add: test_world_def bench_fixture_def untouched_def
        storage_get_attestation_count_def storage_get_attestation_seq_def storage_is_paused_def)
  moreover have "Option.bind (test_setup gen start) (client_call (AddAttestor (gen 1))) = Some e"
    using e by (simp add: test_setup_def initialize_client)
  ultimately show ?thesis using that hot facts by simp
qed

section \<open>What a run of attestations leaves\<close>

definition attest_all :: "Address \<Rightarrow> BatchAttestEntry list \<Rightarrow> env \<Rightarrow> env" where
  "attest_all a entries e =
     fold (\<lambda>b. recorded a (be_subject b) (be_attestation_type b) (be_payload_hash b) (be_ttl_seconds b)) entries e"

lemma attest_all_simps [simp]:
  "attest_all a [] e = e"
  "attest_all a (b # bs) e = attest_all a bs
     (recorded a (be_subject b) (be_attestation_type b) (be_payload_hash b) (be_ttl_seconds b) e)"
  by (simp_all add: attest_all_def)

definition day_entry :: "BatchAttestEntry \<Rightarrow> bool" where
  "day_entry b \<longleftrightarrow> be_ttl_seconds b = ONE_DAY \<and> length (be_attestation_type b) \<le> 24"

lemma ONE_DAY_in_range: "1 \<le> ONE_DAY" "ONE_DAY \<le> MAX_TTL_SECONDS"
  by (simp_all add: ONE_DAY_def MAX_TTL_SECONDS_def)

lemma client_try_True: "client_try c e = (True, t) \<Longrightarrow> run_call c e = (Ok (), t) \<and> client_call c e = Some t"
  by (auto simp: client_try_def client_call_def invoke_call_def all_or_nothing_def
      split: prod.splits outcome.splits)

definition running_world :: "fixture \<Rightarrow> nat \<Rightarrow> env \<Rightarrow> bool" where
  "running_world fx n e \<longleftrightarrow> test_world fx n e \<and> \<not> storage_is_paused e"

lemma running_attest:
  assumes "running_world fx n e" and "n + 1 < 2 ^ 64" and "a \<in> set (fx_attestors fx)" and "length ty \<le> 24"
  shows "client_call (Attest a s ty h ONE_DAY) e = Some (recorded a s ty h ONE_DAY e)"
    and "record_attestation a s ty h ONE_DAY e = (Ok (), recorded a s ty h ONE_DAY e)"
    and "running_world fx (Suc n) (recorded a s ty h ONE_DAY e)"
proof -
  have world: "test_world fx n e" "\<not> storage_is_paused e"
    using assms(1) by (simp_all add: running_world_def)
  note step = test_world_attest [OF world(1) assms(2,3) ONE_DAY_in_range assms(4)]
  have "client_try (Attest a s ty h ONE_DAY) e = (True, recorded a s ty h ONE_DAY e)"
    using step(1) world(2) by simp
  note ok = client_try_True [OF this]
  show "client_call (Attest a s ty h ONE_DAY) e = Some (recorded a s ty h ONE_DAY e)"
    and "record_attestation a s ty h ONE_DAY e = (Ok (), recorded a s ty h ONE_DAY e)"
    using ok by (simp_all add: attest_Ok_iff)
  show "running_world fx (Suc n) (recorded a s ty h ONE_DAY e)"
    using step(2) world(2) by (simp add: running_world_def storage_is_paused_def recorded_def)
qed

lemma running_attest_all:
  assumes "running_world fx n e" and "n + length entries < 2 ^ 64" and "a \<in> set (fx_attestors fx)"
    and "list_all day_entry entries"
  shows "record_batch a entries e = (Ok (), attest_all a entries e) \<and>
     running_world fx (n + length entries) (attest_all a entries e)"
  using assms(1,2,4)
proof (induction entries arbitrary: n e)
  case (Cons b bs)
  have b: "be_ttl_seconds b = ONE_DAY" "length (be_attestation_type b) \<le> 24"
    using Cons.prems(3) by (simp_all add: day_entry_def)
  note step = running_attest [OF Cons.prems(1) _ assms(3) b(2)]
  show ?case
    using step(2,3) Cons.IH [OF step(3)] Cons.prems(2,3) b(1) by (simp add: bindS_Ok_iff)
qed (simp add: retS_def)

lemma client_attest_batch:
  assumes "running_world fx n e" and "n + length entries < 2 ^ 64" and "a \<in> set (fx_attestors fx)"
    and "list_all day_entry entries" and "entries \<noteq> []"
  shows "client_call (AttestBatch a entries) e = Some (attest_all a entries e)"
proof -
  have "authorized e a" "storage_is_attestor a e" "\<not> storage_is_paused e"
    using assms(1,3) by (auto simp: running_world_def test_world_def)
  moreover have "validate_batch entries e = (Ok (), e)"
    using assms(4) by (auto simp: validate_batch_Ok_iff day_entry_def ONE_DAY_def list_all_iff)
  ultimately have "run_call (AttestBatch a entries) e = (Ok (), attest_all a entries e)"
    using assms running_attest_all [OF assms(1-4)] by (simp add: attest_batch_Ok_iff)
  then show ?thesis by (simp add: client_call_def invoke_call_def all_or_nothing_def)
qed

lemma count_attest_all:
  "storage_get_attestation_count (attest_all a entries e) =
     storage_get_attestation_count e + word_of_nat (length entries)"
  by (induction entries arbitrary: e)
    (simp_all add: recorded_def storage_get_attestation_count_def algebra_simps)

section \<open>The cost of a run\<close>

definition cheap :: "meter \<Rightarrow> bool" where
  "cheap meter \<longleftrightarrow> (\<forall>c e. unat (fst (meter c e)) < 2 ^ 32 \<and> unat (snd (meter c e)) < 2 ^ 32)"

lemma checked_add_room:
  assumes "unat x + Suc k * (2 ^ 32 - 1) < 2 ^ 64" and "unat y < 2 ^ 32"
  obtains z where "checked_add (x :: u64) y = Some z" "unat z + k * (2 ^ 32 - 1) < 2 ^ 64"
proof -
  have "unat x + unat y < 2 ^ 64" using assms by simp
  then have "checked_add x y = Some (x + y)" and "unat (x + y) = unat x + unat y"
    by (simp_all add: checked_add_def unat_word_ariths)
  then show ?thesis using that assms by simp
qed

lemma measure_calls_run:
  assumes "cheap meter" and "a \<in> set (fx_attestors fx)" and "length kind \<le> 24"
    and "running_world fx n e" and "n + length calls < 2 ^ 64"
    and "unat cpu + length calls * (2 ^ 32 - 1) < 2 ^ 64" and "unat mem + length calls * (2 ^ 32 - 1) < 2 ^ 64"
  shows "\<exists>sums. measure_calls meter a kind calls (cpu, mem) e =
     Some (sums, attest_all a (map (\<lambda>(s, h). \<lparr>be_subject = s, be_attestation_type = kind,
       be_payload_hash = h, be_ttl_seconds = ONE_DAY\<rparr>) calls) e)"
  using assms(4-7)
proof (induction calls arbitrary: n e cpu mem)
  case (Cons sh calls)
  obtain s h where sh: "sh = (s, h)" by fastforce
  let ?c = "Attest a s kind h ONE_DAY"
  have cost: "unat (fst (meter ?c e)) < 2 ^ 32" "unat (snd (meter ?c e)) < 2 ^ 32"
    using assms(1) by (simp_all add: cheap_def)
  obtain cpu' where cpu': "checked_add cpu (fst (meter ?c e)) = Some cpu'"
      "unat cpu' + length calls * (2 ^ 32 - 1) < 2 ^ 64"
    by (rule checked_add_room [of cpu "length calls", OF _ cost(1)]) (use Cons.prems(3) in simp)
  obtain mem' where mem': "checked_add mem (snd (meter ?c e)) = Some mem'"
      "unat mem' + length calls * (2 ^ 32 - 1) < 2 ^ 64"
    by (rule checked_add_room [of mem "length calls", OF _ cost(2)]) (use Cons.prems(4) in simp)
  have room: "n + 1 < 2 ^ 64" and "Suc n + length calls < 2 ^ 64" using Cons.prems(2) by simp_all
  then show ?case
    using running_attest(1,3) [OF Cons.prems(1) room assms(2,3)]
      Cons.IH [OF running_attest(3) [OF Cons.prems(1) room assms(2,3)] _ cpu'(2) mem'(2)] cpu'(1) mem'(1)
    by (simp add: sh Let_def)
qed simp

section \<open>The persistent keys of a run\<close>

definition persistent_keys :: "env \<Rightarrow> DataKey set" where
  "persistent_keys e =
     Attestor ` dom (pers_Attestor e) \<union> (\<lambda>(s, ty). AttestationKey s ty) ` dom (pers_Attestation e) \<union>
     (\<lambda>(s, ty). AttestationSeq s ty) ` dom (pers_AttestationSeq e) \<union>
     (\<lambda>(s, ty, q). AttestationHistory s ty q) ` dom (pers_AttestationHistory e)"

definition first_keys :: "Address \<times> Symbol \<Rightarrow> DataKey set" where
  "first_keys = (\<lambda>(s, ty). {AttestationKey s ty, AttestationSeq s ty, AttestationHistory s ty 1})"

definition entry_pair :: "BatchAttestEntry \<Rightarrow> Address \<times> Symbol" where
  "entry_pair b = (be_subject b, be_attestation_type b)"

lemma persistent_keys_recorded:
  "storage_get_attestation_seq s ty e = 0 \<Longrightarrow>
     persistent_keys (recorded a s ty h ttl e) = persistent_keys e \<union> first_keys (s, ty)"
  by (auto simp: persistent_keys_def first_keys_def recorded_def stored_def next_seq_def)

lemma seq_recorded_other:
  "(s', ty') \<noteq> (s, ty) \<Longrightarrow>
     storage_get_attestation_seq s' ty' (recorded a s ty h ttl e) = storage_get_attestation_seq s' ty' e"
  by (auto simp: storage_get_attestation_seq_def recorded_def stored_def)

lemma persistent_keys_attest_all:
  assumes "distinct (map entry_pair entries)"
    and "\<forall>b \<in> set entries. storage_get_attestation_seq (be_subject b) (be_attestation_type b) e = 0"
  shows "persistent_keys (attest_all a entries e) =
     persistent_keys e \<union> \<Union> (first_keys ` set (map entry_pair entries))"
  using assms
proof (induction entries arbitrary: e)
  case (Cons b bs)
  let ?e = "recorded a (be_subject b) (be_attestation_type b) (be_payload_hash b) (be_ttl_seconds b) e"
  have "\<forall>c \<in> set bs. storage_get_attestation_seq (be_subject c) (be_attestation_type c) ?e = 0"
  proof
    fix c
    assume c: "c \<in> set bs"
    then have "entry_pair c \<noteq> entry_pair b" using Cons.prems(1) by (metis distinct.simps(2) image_eqI list.set_map list.simps(9))
    then show "storage_get_attestation_seq (be_subject c) (be_attestation_type c) ?e = 0"
      using Cons.prems(2) c by (simp add: seq_recorded_other entry_pair_def)
  qed
  then have "persistent_keys (attest_all a bs ?e) = persistent_keys ?e \<union> \<Union> (first_keys ` set (map entry_pair bs))"
    using Cons by simp
  then show ?case
    using Cons.prems(2) by (simp add: persistent_keys_recorded entry_pair_def Un_assoc)
qed simp

lemma first_keys_disjoint: "p \<noteq> q \<Longrightarrow> first_keys p \<inter> first_keys q = {}"
  by (cases p; cases q) (auto simp: first_keys_def)

lemma card_first_keys:
  "distinct ps \<Longrightarrow> card (\<Union> (first_keys ` set ps)) = 3 * length ps"
proof (induction ps)
  case (Cons p ps)
  have "first_keys p \<inter> first_keys q = {}" if "q \<in> set ps" for q
    using Cons.prems that by (intro first_keys_disjoint) auto
  then have "first_keys p \<inter> \<Union> (first_keys ` set ps) = {}" by blast
  moreover have "finite (first_keys q)" "card (first_keys q) = 3" for q
    by (cases q; simp add: first_keys_def)+
  ultimately show ?case using Cons by (simp add: card_Un_disjoint)
qed simp

section \<open>The benchmarks and the test\<close>

lemma batch_entries_pairs:
  assumes "inj gen"
  shows "distinct (map entry_pair (batch_entries gen sha256 k n kind))"
proof -
  have "map entry_pair (batch_entries gen sha256 k n kind) = map (\<lambda>i. (gen (k + i), kind)) [0..<unat n]"
    by (simp add: batch_entries_def entry_pair_def)
  moreover have "inj (\<lambda>i. (gen (k + i), kind))"
    using assms by (intro injI) (simp add: inj_eq)
  then have "inj_on (\<lambda>i. (gen (k + i), kind)) {0..<unat n}" by (rule inj_on_subset) simp
  ultimately show ?thesis by (simp add: distinct_map)
qed

text \<open>
  The batch benchmark compares two ways of doing the same work: for every batch size,
  issuing the entries one by one and issuing them as a batch both succeed and leave exactly
  the same ledger, with as many attestations as entries. The run adds three persistent keys
  for every entry (its attestation, its sequence number, its history entry) and no other, the
  footprint on which the documented ceiling of a batch rests. The charge of a single
  call is assumed to be below \<open>2 ^ 32\<close>, so that the sums do not overflow.
\<close>

lemma benchmark_same_work:
  assumes "inj gen" and "cheap meter" and "0 < n"
  shows "\<exists>c1 c2 e0 e. measure_individual meter gen sha256 start n = Some (c1, e) \<and>
     measure_batch meter gen sha256 start n = Some (c2, e) \<and>
     unat (get_attestation_count e) = unat n \<and>
     Option.bind (test_setup gen start) (client_call (AddAttestor (gen 1))) = Some e0 \<and>
     persistent_keys e0 \<subseteq> persistent_keys e \<and> card (persistent_keys e - persistent_keys e0) = 3 * unat n"
proof -
  obtain e0 where e0: "Option.bind (test_setup gen start) (client_call (AddAttestor (gen 1))) = Some e0"
    "test_world (bench_fixture gen) 0 e0" "untouched e0" "pers_AttestationSeq e0 = (\<lambda>_. None)"
    "pers_AttestationHistory e0 = (\<lambda>_. None)"
    by (rule bench_instance)
  let ?entries = "batch_entries gen sha256 2 n ''kyc_approved''" and ?a = "gen 1"
  let ?calls = "map (\<lambda>i. (gen (2 + i), compute_payload_hash sha256 (to_be_bytes (word_of_nat i)))) [0..<unat n]"
  let ?e = "attest_all ?a ?entries e0"
  have world: "running_world (bench_fixture gen) 0 e0" using e0(2,3) by (simp add: running_world_def untouched_def)
  have a: "?a \<in> set (fx_attestors (bench_fixture gen))" by (simp add: bench_fixture_def)
  have size: "unat n < 2 ^ 32" by (rule unat_u32_bound)
  have entries: "map (\<lambda>(s, h). \<lparr>be_subject = s, be_attestation_type = ''kyc_approved'',
      be_payload_hash = h, be_ttl_seconds = ONE_DAY\<rparr>) ?calls = ?entries"
    by (simp add: batch_entries_def)
  have len: "length ?entries = unat n" "list_all day_entry ?entries"
    by (simp_all add: batch_entries_def day_entry_def list_all_iff)
  have "\<exists>sums. measure_calls meter ?a ''kyc_approved'' ?calls (0, 0) e0 = Some (sums, ?e)"
    using measure_calls_run [OF assms(2) a _ world, of "''kyc_approved''" ?calls 0 0] size
    unfolding entries by simp
  moreover have "client_call (AttestBatch ?a ?entries) e0 = Some ?e"
  proof (rule client_attest_batch [OF world _ a len(2)])
    have "0 < unat n" using assms(3) by (simp add: word_less_nat_alt)
    then show "?entries \<noteq> []" using len(1) by force
  qed (use len(1) size in simp)
  moreover have "unat (get_attestation_count ?e) = unat n"
    using e0(3) size
    by (simp add: get_attestation_count_def count_attest_all len(1) untouched_def unsigned_ucast_eq take_bit_nat_eq_self)
  moreover have keys: "persistent_keys ?e = persistent_keys e0 \<union> \<Union> (first_keys ` set (map entry_pair ?entries))"
    using e0(4) by (intro persistent_keys_attest_all batch_entries_pairs [OF assms(1)])
      (simp add: storage_get_attestation_seq_def)
  moreover have "persistent_keys e0 \<inter> \<Union> (first_keys ` set (map entry_pair ?entries)) = {}"
    using e0(3-5) by (auto simp: persistent_keys_def first_keys_def untouched_def)
  then have "persistent_keys ?e - persistent_keys e0 = \<Union> (first_keys ` set (map entry_pair ?entries))"
    using keys by blast
  ultimately show ?thesis
    using e0(1) card_first_keys [OF batch_entries_pairs [OF assms(1), of sha256 2 n "''kyc_approved''"]] len(1)
    by (auto simp: measure_individual_def measure_batch_def Let_def bind_eq_Some_conv)
qed

text \<open>The test of the ceiling passes in the model, whatever the addresses and the digest.\<close>

lemma ledger_write_ceiling_test:
  "attest_batch_stays_under_the_ledger_write_ceiling gen sha256 start = Some True"
proof -
  obtain e0 where e0: "Option.bind (test_setup gen start) (client_call (AddAttestor (gen 1))) = Some e0"
    "test_world (bench_fixture gen) 0 e0" "untouched e0"
    by (rule bench_instance)
  let ?entries = "batch_entries gen sha256 2 15 ''kyc_approved''"
  have len: "length ?entries = 15" "list_all day_entry ?entries"
    by (simp_all add: batch_entries_def day_entry_def list_all_iff)
  have "running_world (bench_fixture gen) 0 e0" using e0(2,3) by (simp add: running_world_def untouched_def)
  then have "client_call (AttestBatch (gen 1) ?entries) e0 = Some (attest_all (gen 1) ?entries e0)"
    using len by (intro client_attest_batch) (auto simp: bench_fixture_def)
  then show ?thesis
    using e0(1,3) len(1)
    by (auto simp: attest_batch_stays_under_the_ledger_write_ceiling_def bind_eq_Some_conv
        get_attestation_count_def count_attest_all untouched_def Let_def)
qed

text \<open>
  The hot paths never panic, however often the harness runs them: \<open>attest\<close> as long as the
  counters last, the two reads always; a read leaves the state alone.
\<close>

lemma repeat_attest:
  assumes "a \<in> set (fx_attestors fx)" and "length ty \<le> 24"
  shows "running_world fx n e \<Longrightarrow> n + k < 2 ^ 64 \<Longrightarrow>
     \<exists>t. repeat_op k (client_call (Attest a s ty h ONE_DAY)) e = Some t \<and> running_world fx (n + k) t \<and>
       storage_get_attestation_count t = storage_get_attestation_count e + word_of_nat k"
proof (induction k arbitrary: n e)
  case (Suc k)
  have room: "n + 1 < 2 ^ 64" using Suc.prems(2) by simp
  note step = running_attest [OF Suc.prems(1) room assms, of s h]
  show ?case
    using step(1) Suc.IH [OF step(3)] Suc.prems(2)
    by (auto simp: recorded_def storage_get_attestation_count_def algebra_simps)
qed simp

lemma bench_attest_runs:
  assumes "k < 2 ^ 64"
  shows "\<exists>e. bench_attest gen sha256 start k = Some e \<and> unat (get_attestation_count e) = k"
proof -
  obtain e0 where e0: "hot_setup gen start = Some e0" "test_world (bench_fixture gen) 0 e0" "untouched e0"
    by (rule bench_instance)
  then have "running_world (bench_fixture gen) 0 e0" by (simp add: running_world_def untouched_def)
  then show ?thesis
    using repeat_attest [of "gen 1" "bench_fixture gen" "''kyc_approved''" 0 e0 k "gen 2"
        "compute_payload_hash sha256 hot_payload"] e0 assms
    by (auto simp: bench_attest_def bench_fixture_def get_attestation_count_def untouched_def
        unsigned_of_nat take_bit_nat_eq_self)
qed

lemma hot_reads_run:
  assumes "unat start + 86400 < 2 ^ 64"
  shows "bench_get_attestation gen sha256 start k = bench_attest gen sha256 start 1"
    and "\<exists>e. bench_is_valid gen sha256 start k = Some (e, replicate k True)"
proof -
  obtain e0 where e0: "hot_setup gen start = Some e0" "test_world (bench_fixture gen) 0 e0" "untouched e0"
    "ledger_timestamp e0 = start"
    by (rule bench_instance)
  let ?h = "compute_payload_hash sha256 hot_payload"
  let ?e = "recorded (gen 1) (gen 2) ''kyc_approved'' ?h ONE_DAY e0"
  have "running_world (bench_fixture gen) 0 e0" using e0(2,3) by (simp add: running_world_def untouched_def)
  then have run: "client_call (Attest (gen 1) (gen 2) ''kyc_approved'' ?h ONE_DAY) e0 = Some ?e"
    by (rule running_attest) (simp_all add: bench_fixture_def)
  have current: "pers_Attestation ?e (gen 2, ''kyc_approved'') =
      Some (new_attestation (gen 1) (gen 2) ''kyc_approved'' ?h ONE_DAY e0)" by (simp add: recorded_def)
  have "repeat_op k (\<lambda>e. case get_attestation (gen 2) ''kyc_approved'' e of (Ok _, t) \<Rightarrow> Some t | _ \<Rightarrow> None) ?e =
      Some ?e"
    by (induction k) (simp_all add: get_attestation_def storage_get_attestation_def current)
  then show "bench_get_attestation gen sha256 start k = bench_attest gen sha256 start 1"
    using e0(1) run by (simp add: bench_get_attestation_def bench_attest_def)
  have "start < saturating_add start ONE_DAY"
    using assms by (simp add: word_less_nat_alt unat_saturating_add ONE_DAY_def)
  then have "is_valid (gen 2) ''kyc_approved'' ?e"
    by (simp add: is_valid_def storage_get_attestation_def current new_attestation_def e0(4) recorded_def)
  then show "\<exists>e. bench_is_valid gen sha256 start k = Some (e, replicate k True)"
    using e0(1) run by (simp add: bench_is_valid_def map_replicate_const)
qed

end
