(* ===== verification/Storage_Ttl_Tests.thy ===== *)
theory Storage_Ttl_Tests
  imports Storage_Rent Batch_Benchmark
begin

text \<open>
  The tests of the rent windows against a network (\<open>src/storage_ttl_tests.rs\<close>), run on the contract
  machine with leases. \<open>gen\<close> gives the generated addresses in order, \<open>start\<close> and \<open>ledger\<close> are the time
  and the number of the first ledger, \<open>sha256\<close> is the host's digest; a panic is \<open>None\<close>. They pass on
  every documented network that gives new entries less than 15 days.
\<close>

section \<open>Set-up\<close>

definition ttl_setup :: "rent_host \<Rightarrow> (nat \<Rightarrow> Address) \<Rightarrow> u64 \<Rightarrow> nat \<Rightarrow> rented option" where
  "ttl_setup h gen start ledger =
     Option.bind
       (rented_run h (Initialize (gen 0))
          \<lparr>rt_env = deployed start (\<lambda>_. True), rt_ledger = ledger, rt_lease = (\<lambda>_. None)\<rparr>)
       (rented_run h (AddAttestor (gen 1)))"

definition get_ttl :: "rented \<Rightarrow> DataKey \<Rightarrow> nat option" where
  "get_ttl r k = map_option (\<lambda>l. l - rt_ledger r) (rt_lease r k)"

definition attestation_ttl :: "rented \<Rightarrow> Address \<Rightarrow> Symbol \<Rightarrow> nat option" where
  "attestation_ttl r subject kind = get_ttl r (AttestationKey subject kind)"

definition attestor_ttl :: "rented \<Rightarrow> Address \<Rightarrow> nat option" where
  "attestor_ttl r attestor = get_ttl r (Attestor attestor)"

definition payload_digest :: "(u8 list \<Rightarrow> 256 word) \<Rightarrow> Bytes32" where
  "payload_digest sha256 = compute_payload_hash sha256 (map of_char ''payload'')"

text \<open>\<open>set_timestamp\<close> and \<open>set_sequence_number\<close>: 300 days of ledgers pass.\<close>

definition pass_300_days :: "rented \<Rightarrow> rented" where
  "pass_300_days r = r\<lparr>rt_env := (rt_env r)\<lparr>ledger_timestamp := ledger_timestamp (rt_env r) + ONE_DAY * 300\<rparr>,
                       rt_ledger := rt_ledger r + unat (LEDGERS_PER_DAY * 300)\<rparr>"

section \<open>The tests\<close>

definition short_lived_attestation_buys_only_the_minimum_rent_window ::
  "rent_host \<Rightarrow> (nat \<Rightarrow> Address) \<Rightarrow> (u8 list \<Rightarrow> 256 word) \<Rightarrow> u64 \<Rightarrow> nat \<Rightarrow> bool option" where
  "short_lived_attestation_buys_only_the_minimum_rent_window h gen sha256 start ledger =
     Option.bind (ttl_setup h gen start ledger) (\<lambda>r.
     Option.bind (rented_run h (Attest (gen 1) (gen 2) ''payment_confirmed'' (payload_digest sha256) (ONE_DAY * 7)) r) (\<lambda>r.
     map_option (\<lambda>ttl. ttl \<le> unat (LEDGERS_PER_DAY * 31) \<and> unat (LEDGERS_PER_DAY * 29) \<le> ttl)
       (attestation_ttl r (gen 2) ''payment_confirmed'')))"

text \<open>What the next two tests share: the limit raised, then an attestation for two years.\<close>

definition two_year_attestation ::
  "rent_host \<Rightarrow> (nat \<Rightarrow> Address) \<Rightarrow> (u8 list \<Rightarrow> 256 word) \<Rightarrow> u64 \<Rightarrow> nat \<Rightarrow> rented option" where
  "two_year_attestation h gen sha256 start ledger =
     Option.bind (ttl_setup h gen start ledger) (\<lambda>r.
     Option.bind (rented_run h (SetDefaultMaxTtl (ONE_DAY * 365 * 3)) r)
       (rented_run h (Attest (gen 1) (gen 2) ''kyc_approved'' (payload_digest sha256) (ONE_DAY * 365 * 2))))"

definition long_lived_attestation_buys_the_network_maximum_window ::
  "rent_host \<Rightarrow> (nat \<Rightarrow> Address) \<Rightarrow> (u8 list \<Rightarrow> 256 word) \<Rightarrow> u64 \<Rightarrow> nat \<Rightarrow> bool option" where
  "long_lived_attestation_buys_the_network_maximum_window h gen sha256 start ledger =
     Option.bind (two_year_attestation h gen sha256 start ledger) (\<lambda>r.
     map_option (\<lambda>ttl. unat (MAX_ENTRY_TTL_LEDGERS - LEDGERS_PER_DAY) \<le> ttl)
       (attestation_ttl r (gen 2) ''kyc_approved''))"

definition renew_attestation_extends_storage_ttl_again ::
  "rent_host \<Rightarrow> (nat \<Rightarrow> Address) \<Rightarrow> (u8 list \<Rightarrow> 256 word) \<Rightarrow> u64 \<Rightarrow> nat \<Rightarrow> bool option" where
  "renew_attestation_extends_storage_ttl_again h gen sha256 start ledger =
     Option.bind (two_year_attestation h gen sha256 start ledger) (\<lambda>r.
     let r = pass_300_days r in
     Option.bind (attestation_ttl r (gen 2) ''kyc_approved'') (\<lambda>ttl_before.
     Option.bind (rented_run h (RenewAttestation (gen 1) (gen 2) ''kyc_approved'') r) (\<lambda>r.
     map_option (\<lambda>ttl_after. ttl_before < ttl_after) (attestation_ttl r (gen 2) ''kyc_approved''))))"

definition attestor_allow_list_entry_buys_the_long_lived_window ::
  "rent_host \<Rightarrow> (nat \<Rightarrow> Address) \<Rightarrow> u64 \<Rightarrow> nat \<Rightarrow> bool option" where
  "attestor_allow_list_entry_buys_the_long_lived_window h gen start ledger =
     Option.bind (ttl_setup h gen start ledger) (\<lambda>r.
     map_option (\<lambda>ttl. unat (MAX_ENTRY_TTL_LEDGERS - LEDGERS_PER_DAY) \<le> ttl) (attestor_ttl r (gen 1)))"

definition renew_attestor_extends_storage_ttl_again ::
  "rent_host \<Rightarrow> (nat \<Rightarrow> Address) \<Rightarrow> u64 \<Rightarrow> nat \<Rightarrow> bool option" where
  "renew_attestor_extends_storage_ttl_again h gen start ledger =
     Option.bind (ttl_setup h gen start ledger) (\<lambda>r.
     let r = pass_300_days r in
     Option.bind (attestor_ttl r (gen 1)) (\<lambda>ttl_before.
     Option.bind (rented_run h (RenewAttestor (gen 1)) r) (\<lambda>r.
     map_option (\<lambda>ttl_after. ttl_before < ttl_after) (attestor_ttl r (gen 1)))))"

section \<open>They pass\<close>

definition ttl_env :: "(nat \<Rightarrow> Address) \<Rightarrow> u64 \<Rightarrow> env" where
  "ttl_env gen start =
     (deployed start (\<lambda>_. True))\<lparr>inst_Admin := Some (gen 0), inst_Paused := Some False,
       pers_Attestor := [gen 1 \<mapsto> True],
       ttl_bumps := [(Attestor (gen 1), ATTESTOR_TTL_THRESHOLD, ATTESTOR_TTL_EXTEND_TO)],
       published := [InitializedEv (gen 0), AttestorAddedEv (gen 1)]\<rparr>"

definition ttl_state :: "(nat \<Rightarrow> Address) \<Rightarrow> u64 \<Rightarrow> nat \<Rightarrow> rented" where
  "ttl_state gen start ledger =
     \<lparr>rt_env = ttl_env gen start, rt_ledger = ledger, rt_lease = [Attestor (gen 1) \<mapsto> ledger + 6312000]\<rparr>"

lemmas ttl_env_simps = ttl_env_def deployed_def empty_env_def

lemma ttl_setup_state:
  assumes "documented_host h" and "rh_min h < 1555200"
  shows "ttl_setup h gen start ledger = Some (ttl_state gen start ledger)"
    and "reach fresh_rented (rented_step h) (ttl_state gen start ledger)"
proof -
  let ?e0 = "deployed start (\<lambda>_. True)"
  let ?e1 = "?e0\<lparr>inst_Admin := Some (gen 0), inst_Paused := Some False, published := [InitializedEv (gen 0)]\<rparr>"
  let ?r0 = "\<lparr>rt_env = ?e0, rt_ledger = ledger, rt_lease = (\<lambda>_. None)\<rparr>"
  let ?r1 = "\<lparr>rt_env = ?e1, rt_ledger = ledger, rt_lease = (\<lambda>_. None)\<rparr>"
  have "run_call (Initialize (gen 0)) ?e0 = (Ok (), ?e1)"
    by (simp add: initialize_Ok_iff deployed_def empty_env_def)
  moreover have "settle h ?e1 ?r0 = ?r1"
  proof -
    have "has_entry ?e1 k = False" for k by (cases k) (simp_all add: deployed_def empty_env_def)
    then show ?thesis by (simp add: settle_def new_bumps_def entry_leases_def fun_eq_iff)
  qed
  ultimately have run0: "rented_run h (Initialize (gen 0)) ?r0 = Some ?r1" by (simp add: rented_run_def)
  have "run_call (AddAttestor (gen 1)) ?e1 = (Ok (), ttl_env gen start)"
    by (simp add: add_attestor_Ok_iff ttl_env_simps storage_is_attestor_def)
  moreover have "settle h (ttl_env gen start) ?r1 = ttl_state gen start ledger"
  proof -
    have "has_entry (ttl_env gen start) k = (k = Attestor (gen 1))" for k
      by (cases k) (auto simp: ttl_env_simps)
    moreover have "new_bumps ?e1 (ttl_env gen start) =
        [(Attestor (gen 1), ATTESTOR_TTL_THRESHOLD, ATTESTOR_TTL_EXTEND_TO)]"
      by (rule new_bumps_append) (simp add: ttl_env_simps)
    moreover have "rh_extend h 1555200 6312000 (rh_min h) = 6312000"
      using assms by (simp add: documented_host_def ttl_consts)
    ultimately show ?thesis
      by (auto simp: settle_def ttl_state_def entry_leases_def pay_rent_def ttl_consts fun_eq_iff
          simp del: has_entry.simps)
  qed
  ultimately have run1: "rented_run h (AddAttestor (gen 1)) ?r1 = Some (ttl_state gen start ledger)"
    by (simp add: rented_run_def archived_def)
  show "ttl_setup h gen start ledger = Some (ttl_state gen start ledger)"
    using run0 run1 by (simp add: ttl_setup_def)
  have "fresh_rented ?r0" by (auto simp: fresh_rented_def fresh_def deployed_def)
  then show "reach fresh_rented (rented_step h) (ttl_state gen start ledger)"
    using reach.reach_init reach.reach_step rented_call [OF run0] rented_call [OF run1] by metis
qed

lemma attestor_window_test:
  assumes "documented_host h" and "rh_min h < 1555200"
  shows "attestor_allow_list_entry_buys_the_long_lived_window h gen start ledger = Some True"
  using ttl_setup_state(1) [OF assms]
  by (simp add: attestor_allow_list_entry_buys_the_long_lived_window_def attestor_ttl_def get_ttl_def
      ttl_state_def ttl_consts)

lemma renew_attestor_test:
  assumes "documented_host h" and "rh_min h < 1555200"
  shows "renew_attestor_extends_storage_ttl_again h gen start ledger = Some True"
proof -
  let ?r = "pass_300_days (ttl_state gen start ledger)"
  let ?t = "(rt_env ?r)\<lparr>ttl_bumps := ttl_bumps (rt_env ?r) @ [(Attestor (gen 1), ATTESTOR_TTL_THRESHOLD, ATTESTOR_TTL_EXTEND_TO)],
    published := published (rt_env ?r) @ [AttestorRenewedEv (gen 1)]\<rparr>"
  have lease: "rt_lease ?r (Attestor (gen 1)) = Some (ledger + 6312000)" "rt_ledger ?r = ledger + 5184000"
    by (simp_all add: pass_300_days_def ttl_state_def ttl_consts)
  have call: "run_call (RenewAttestor (gen 1)) (rt_env ?r) = (Ok (), ?t)"
    by (simp add: renew_attestor_Ok_iff ttl_state_def pass_300_days_def ttl_env_simps storage_is_attestor_def)
  then have run: "rented_run h (RenewAttestor (gen 1)) ?r = Some (settle h ?t ?r)"
    using lease by (simp add: rented_run_def archived_def)
  have "new_bumps (rt_env ?r) ?t = [(Attestor (gen 1), ATTESTOR_TTL_THRESHOLD, ATTESTOR_TTL_EXTEND_TO)]"
    by (rule new_bumps_append) simp
  moreover have "rh_extend h 1555200 6312000 1128000 = 6312000"
    using assms(1) by (simp add: documented_host_def ttl_consts)
  moreover have "has_entry ?t (Attestor (gen 1))"
    by (simp add: pass_300_days_def ttl_state_def ttl_env_simps)
  ultimately have "rt_lease (settle h ?t ?r) (Attestor (gen 1)) = Some (ledger + 11496000)"
    using lease by (simp add: settle_def pay_rent_def entry_leases_def ttl_consts del: has_entry.simps)
  then show ?thesis
    using ttl_setup_state(1) [OF assms] run lease
    by (simp add: renew_attestor_extends_storage_ttl_again_def attestor_ttl_def get_ttl_def)
qed

text \<open>A first attestation on this state, for \<open>ttl\<close> seconds below the configured limit.\<close>

lemma ttl_attest:
  assumes "documented_host h" and "rh_min h < 259200" and "rent_inv h r"
    and env: "rt_env r = (ttl_env gen start)\<lparr>inst_DefaultMaxAttestationTtl := limit, published := evs\<rparr>"
    and lease: "rt_lease r = [Attestor (gen 1) \<mapsto> rt_ledger r + 6312000]"
    and ok: "ttl \<noteq> 0" "length ty \<le> 24" "ttl \<le> storage_get_max_attestation_ttl ty (rt_env r)"
    and room: "unat start + unat ttl < 2 ^ 64"
  shows "\<exists>q. rented_run h (Attest (gen 1) s ty p ttl) r = Some q \<and>
     rt_env q = recorded (gen 1) s ty p ttl (rt_env r) \<and> rt_ledger q = rt_ledger r \<and>
     rt_lease q (AttestationKey s ty) = Some (rt_ledger r + window ttl)"
proof -
  have "run_call (Attest (gen 1) s ty p ttl) (rt_env r) = (Ok (), recorded (gen 1) s ty p ttl (rt_env r))"
    using ok by (simp add: attest_Ok_iff record_attestation_Ok_iff env ttl_env_simps storage_is_paused_def
        storage_is_attestor_def seq_room_def count_room_def storage_get_attestation_seq_def
        storage_get_attestation_count_def)
  then obtain q where q: "rented_run h (Attest (gen 1) s ty p ttl) r = Some q"
    by (simp add: rented_run_def archived_def lease)
  note facts = attest_leases [OF assms(3) q]
  have "lifetime ttl (rt_env r) = ttl"
    by (rule lifetime_unsaturated) (use room in \<open>simp add: env ttl_env_simps\<close>)
  moreover have "rh_extend h (window ttl div 2) (window ttl) (rh_min h) = window ttl"
    using assms(1,2) unat_window(3) [of ttl] by (simp add: documented_host_def window_value)
  ultimately show ?thesis
    using q facts(1-3) by (simp add: lease_ttl_def lease)
qed

lemma short_lived_test:
  assumes "documented_host h" and "rh_min h < 259200" and "unat start + 604800 < 2 ^ 64"
  shows "short_lived_attestation_buys_only_the_minimum_rent_window h gen sha256 start ledger = Some True"
proof -
  let ?r = "ttl_state gen start ledger"
  have setup_ok: "ttl_setup h gen start ledger = Some ?r" and inv: "rent_inv h ?r"
    using ttl_setup_state [of h gen start ledger] rent.reach_invar assms(1,2) by auto
  have "604800 \<le> storage_get_max_attestation_ttl ''payment_confirmed'' (rt_env ?r)"
    by (simp add: ttl_state_def ttl_env_simps storage_get_max_attestation_ttl_def ttl_consts word_le_nat_alt)
  then have "\<exists>q. rented_run h (Attest (gen 1) (gen 2) ''payment_confirmed'' (payload_digest sha256) 604800) ?r = Some q \<and>
      rt_ledger q = ledger \<and> rt_lease q (AttestationKey (gen 2) ''payment_confirmed'') = Some (ledger + window 604800)"
    using ttl_attest [OF assms(1,2) inv, where gen = gen and start = start and limit = None
        and evs = "published (ttl_env gen start)" and ttl = 604800 and ty = "''payment_confirmed''"
        and s = "gen 2" and p = "payload_digest sha256"] assms(3)
    by (auto simp: ttl_state_def ttl_env_def deployed_def empty_env_def)
  then show ?thesis
    by (auto simp: short_lived_attestation_buys_only_the_minimum_rent_window_def setup_ok attestation_ttl_def
        get_ttl_def window_value ONE_DAY_def ttl_consts)
qed

lemma two_year_state:
  assumes "documented_host h" and "rh_min h < 259200" and "unat start + 63072000 < 2 ^ 64"
  obtains q e where "two_year_attestation h gen sha256 start ledger = Some q"
    and "rt_env q = recorded (gen 1) (gen 2) ''kyc_approved'' (payload_digest sha256) 63072000 e"
    and "authorized e = (\<lambda>_. True)" "inst_Admin e = Some (gen 0)" "ledger_timestamp e = start"
    and "rt_ledger q = ledger" and "rt_lease q (AttestationKey (gen 2) ''kyc_approved'') = Some (ledger + 6312000)"
proof -
  let ?r = "ttl_state gen start ledger"
  have setup_ok: "ttl_setup h gen start ledger = Some ?r" and reach: "reach fresh_rented (rented_step h) ?r"
    using ttl_setup_state [of h gen start ledger] assms(1,2) by auto
  let ?e = "(ttl_env gen start)\<lparr>inst_DefaultMaxAttestationTtl := Some 94608000,
    published := published (ttl_env gen start) @ [DefaultMaxAttestationTtlChangedEv 94608000]\<rparr>"
  let ?r1 = "?r\<lparr>rt_env := ?e\<rparr>"
  have "run_call (SetDefaultMaxTtl 94608000) (rt_env ?r) = (Ok (), ?e)"
    by (simp add: set_default_max_attestation_ttl_Ok_iff ttl_state_def ttl_env_simps)
  moreover have "settle h ?e ?r = ?r1"
  proof -
    have "has_entry ?e k = (k = Attestor (gen 1))" for k by (cases k) (auto simp: ttl_env_simps)
    then show ?thesis
      by (auto simp: settle_def new_bumps_def entry_leases_def ttl_state_def fun_eq_iff simp del: has_entry.simps)
  qed
  ultimately have run: "rented_run h (SetDefaultMaxTtl 94608000) ?r = Some ?r1" by (simp add: rented_run_def)
  then have inv: "rent_inv h ?r1" using rent.reach_invar reach.reach_step [OF reach] rented_call by metis
  have "63072000 \<le> storage_get_max_attestation_ttl ''kyc_approved'' (rt_env ?r1)"
    by (simp add: ttl_env_simps storage_get_max_attestation_ttl_def word_le_nat_alt)
  then obtain q where "rented_run h (Attest (gen 1) (gen 2) ''kyc_approved'' (payload_digest sha256) 63072000) ?r1 = Some q"
      "rt_env q = recorded (gen 1) (gen 2) ''kyc_approved'' (payload_digest sha256) 63072000 (rt_env ?r1)"
      "rt_ledger q = ledger" "rt_lease q (AttestationKey (gen 2) ''kyc_approved'') = Some (ledger + window 63072000)"
    using ttl_attest [OF assms(1,2) inv, where gen = gen and start = start and limit = "Some 94608000"
        and evs = "published (ttl_env gen start) @ [DefaultMaxAttestationTtlChangedEv 94608000]" and ttl = 63072000
        and ty = "''kyc_approved''" and s = "gen 2" and p = "payload_digest sha256"] assms(3)
    by (auto simp: ttl_state_def)
  then show ?thesis
    using that [of q "rt_env ?r1"] setup_ok run
    by (simp add: two_year_attestation_def ONE_DAY_def window_value ttl_env_simps)
qed

lemma long_lived_test:
  assumes "documented_host h" and "rh_min h < 259200" and "unat start + 63072000 < 2 ^ 64"
  shows "long_lived_attestation_buys_the_network_maximum_window h gen sha256 start ledger = Some True"
  by (rule two_year_state [OF assms, of gen sha256 ledger])
    (simp add: long_lived_attestation_buys_the_network_maximum_window_def attestation_ttl_def get_ttl_def ttl_consts)

lemma renew_attestation_test:
  assumes "documented_host h" and "rh_min h < 259200" and "unat start + 63072000 < 2 ^ 64"
  shows "renew_attestation_extends_storage_ttl_again h gen sha256 start ledger = Some True"
proof -
  obtain q e where two: "two_year_attestation h gen sha256 start ledger = Some q"
    and env: "rt_env q = recorded (gen 1) (gen 2) ''kyc_approved'' (payload_digest sha256) 63072000 e"
      "authorized e = (\<lambda>_. True)" "inst_Admin e = Some (gen 0)" "ledger_timestamp e = start"
    and lease: "rt_ledger q = ledger" "rt_lease q (AttestationKey (gen 2) ''kyc_approved'') = Some (ledger + 6312000)"
    by (rule two_year_state [OF assms])
  let ?r = "pass_300_days q" and ?k = "AttestationKey (gen 2) ''kyc_approved''"
  let ?att = "new_attestation (gen 1) (gen 2) ''kyc_approved'' (payload_digest sha256) 63072000 e"
  let ?w = "rent_window ?att (rt_env ?r)"
  let ?t = "(rt_env ?r)\<lparr>ttl_bumps := ttl_bumps (rt_env ?r) @ [(?k, ?w)],
    published := published (rt_env ?r) @ [AttestationRenewedEv (gen 2) ''kyc_approved'' (gen 1)]\<rparr>"
  have now: "unat (ledger_timestamp (rt_env ?r)) = unat start + 25920000"
    using assms(3) by (simp add: pass_300_days_def env ONE_DAY_def unat_word_ariths)
  have "unat (saturating_sub (att_expires_at ?att) (ledger_timestamp (rt_env ?r))) = 37152000"
    using assms(3) env(4) by (simp add: new_attestation_def unat_saturating_sub unat_saturating_add now)
  then obtain threshold extend_to where w: "?w = (threshold, extend_to)" "unat threshold = 3156000" "unat extend_to = 6312000"
    using unat_window(1,2) [of "saturating_sub (att_expires_at ?att) (ledger_timestamp (rt_env ?r))"]
    by (simp add: rent_window_def window_value prod_eq_iff)
  have "run_call (RenewAttestation (gen 1) (gen 2) ''kyc_approved'') (rt_env ?r) = (Ok (), ?t)"
    using env by (simp add: renew_attestation_Ok_iff pass_300_days_def new_attestation_def)
  moreover have lease': "rt_lease ?r ?k = Some (ledger + 6312000)" "rt_ledger ?r = ledger + 5184000"
    using lease by (simp_all add: pass_300_days_def ttl_consts)
  ultimately have run: "rented_run h (RenewAttestation (gen 1) (gen 2) ''kyc_approved'') ?r = Some (settle h ?t ?r)"
    by (simp add: rented_run_def archived_def)
  have "new_bumps (rt_env ?r) ?t = [(?k, ?w)]" by (rule new_bumps_append) simp
  moreover have "rh_extend h 3156000 6312000 1128000 = 6312000"
    using assms(1) by (simp add: documented_host_def ttl_consts)
  moreover have "has_entry ?t ?k" using env(1) by (simp add: pass_300_days_def)
  ultimately have "rt_lease (settle h ?t ?r) ?k = Some (ledger + 11496000)"
    using lease' w by (simp add: settle_def pay_rent_def entry_leases_def del: has_entry.simps)
  then show ?thesis
    using two run lease' by (simp add: renew_attestation_extends_storage_ttl_again_def attestation_ttl_def get_ttl_def)
qed

end
