(* ===== verification/Float64.thy ===== *)
theory Float64
  imports Anchor_Prelude "HOL-Library.Log_Nat"
begin

text \<open>
  The floating-point operations the code uses, on binary64 values: a finite value is \<open>m * 2 ^ e\<close>, the
  conversion from an integer, the product, the sum, the difference and the quotient round to 53 bits,
  half to even, with overflow to infinity, and the cast to \<open>u64\<close> truncates and saturates. The sign of
  zero is not kept: neither the minimum nor the cast depends on it, and no divisor of the code is a
  negative zero. Then the fixed-point formatting \<open>{:.d}\<close>, and the facts: rounding leaves a
  representable value as it is and moves no other by more than half a unit, and an exact quotient is
  computed exactly.
\<close>

section \<open>Values\<close>

datatype f64 = NaN | Infinite bool | Finite int int

definition round_half_even :: "int \<Rightarrow> nat \<Rightarrow> int" where
  "round_half_even m k =
     (let q = m div 2 ^ k; r = m mod 2 ^ k in
      if 2 * r > 2 ^ k \<or> 2 * r = 2 ^ k \<and> odd q then q + 1 else q)"

definition round_f64 :: "int \<Rightarrow> int \<Rightarrow> f64" where
  "round_f64 m e =
     (let k = max (bitlen \<bar>m\<bar> - 53) (- 1074 - e);
          (m', e') = (if k \<le> 0 then (m, e) else (round_half_even m (nat k), e + k))
      in if bitlen \<bar>m'\<bar> + e' > 1024 \<and> m' \<noteq> 0 then Infinite (m < 0) else Finite m' e')"

definition f64_of_nat :: "nat \<Rightarrow> f64" where
  "f64_of_nat n = round_f64 (int n) 0"

fun f64_mul :: "f64 \<Rightarrow> f64 \<Rightarrow> f64" where
  "f64_mul NaN y = NaN"
| "f64_mul x NaN = NaN"
| "f64_mul (Infinite a) (Infinite b) = Infinite (a \<noteq> b)"
| "f64_mul (Infinite a) (Finite m e) = (if m = 0 then NaN else Infinite (a \<noteq> (m < 0)))"
| "f64_mul (Finite m e) (Infinite b) = (if m = 0 then NaN else Infinite (b \<noteq> (m < 0)))"
| "f64_mul (Finite m e) (Finite m' e') = round_f64 (m * m') (e + e')"

text \<open>The order on values that are not NaN.\<close>

fun f64_le :: "f64 \<Rightarrow> f64 \<Rightarrow> bool" where
  "f64_le (Infinite True) y = True"
| "f64_le x (Infinite False) = True"
| "f64_le (Finite m e) (Finite m' e') =
     (m * 2 ^ nat (e - min e e') \<le> m' * 2 ^ nat (e' - min e e'))"
| "f64_le x y = False"

definition f64_min :: "f64 \<Rightarrow> f64 \<Rightarrow> f64" where
  "f64_min x y = (if x = NaN then y else if y = NaN then x else if f64_le x y then x else y)"

definition truncated :: "int \<Rightarrow> int \<Rightarrow> int" where
  "truncated m e = (if e \<ge> 0 then m * 2 ^ nat e else m div 2 ^ nat (- e))"

fun f64_to_u64 :: "f64 \<Rightarrow> u64" where
  "f64_to_u64 NaN = 0"
| "f64_to_u64 (Infinite neg) = (if neg then 0 else - 1)"
| "f64_to_u64 (Finite m e) =
     (let v = truncated m e
      in if v < 0 then 0 else if v \<ge> 2 ^ 64 then - 1 else word_of_int v)"

section \<open>Sums and quotients\<close>

fun f64_neg :: "f64 \<Rightarrow> f64" where
  "f64_neg NaN = NaN"
| "f64_neg (Infinite neg) = Infinite (\<not> neg)"
| "f64_neg (Finite m e) = Finite (- m) e"

fun f64_add :: "f64 \<Rightarrow> f64 \<Rightarrow> f64" where
  "f64_add NaN y = NaN"
| "f64_add x NaN = NaN"
| "f64_add (Infinite a) (Infinite b) = (if a = b then Infinite a else NaN)"
| "f64_add (Infinite a) (Finite m e) = Infinite a"
| "f64_add (Finite m e) (Infinite b) = Infinite b"
| "f64_add (Finite m e) (Finite m' e') =
     round_f64 (m * 2 ^ nat (e - min e e') + m' * 2 ^ nat (e' - min e e')) (min e e')"

definition f64_sub :: "f64 \<Rightarrow> f64 \<Rightarrow> f64" where
  "f64_sub x y = f64_add x (f64_neg y)"

text \<open>
  The quotient is computed to at least 55 bits, with a last bit that tells whether anything was cut
  off, and rounded once.
\<close>

fun f64_div :: "f64 \<Rightarrow> f64 \<Rightarrow> f64" where
  "f64_div NaN y = NaN"
| "f64_div x NaN = NaN"
| "f64_div (Infinite a) (Infinite b) = NaN"
| "f64_div (Infinite a) (Finite m e) = Infinite (a \<noteq> (m < 0))"
| "f64_div (Finite m e) (Infinite b) = Finite 0 0"
| "f64_div (Finite m e) (Finite m' e') =
     (if m' = 0 then if m = 0 then NaN else Infinite (m < 0)
      else let k = nat (bitlen \<bar>m'\<bar>) + 55;
               n = \<bar>m\<bar> * 2 ^ k;
               q = 2 * (n div \<bar>m'\<bar>) + (if n mod \<bar>m'\<bar> = 0 then 0 else 1)
           in round_f64 (sgn m * sgn m' * q) (e - e' - int k - 1))"

definition f64_pos :: "f64 \<Rightarrow> bool" where
  "f64_pos x = (case x of NaN \<Rightarrow> False | Infinite neg \<Rightarrow> \<not> neg | Finite m e \<Rightarrow> 0 < m)"

section \<open>Formatting\<close>

text \<open>\<open>{:.d}\<close> prints the value rounded half to even to \<open>d\<close> decimals; \<open>{:>n}\<close> pads with spaces on the left.\<close>

definition fmt_decimals :: "nat \<Rightarrow> nat \<Rightarrow> string" where
  "fmt_decimals d n =
     (if d = 0 then show_nat n
      else let frac = show_nat (n mod 10 ^ d)
           in show_nat (n div 10 ^ d) @ ''.'' @ replicate (d - length frac) (CHR ''0'') @ frac)"

fun fmt_f64 :: "nat \<Rightarrow> f64 \<Rightarrow> string" where
  "fmt_f64 d NaN = ''NaN''"
| "fmt_f64 d (Infinite neg) = (if neg then ''-inf'' else ''inf'')"
| "fmt_f64 d (Finite m e) =
     (let n = \<bar>m\<bar> * 10 ^ d;
          r = (if e \<ge> 0 then n * 2 ^ nat e else round_half_even n (nat (- e)))
      in (if m < 0 then ''-'' else []) @ fmt_decimals d (nat r))"

definition pad_left :: "nat \<Rightarrow> string \<Rightarrow> string" where
  "pad_left n s = replicate (n - length s) (CHR '' '') @ s"

section \<open>Facts\<close>

lemma bitlen_below: "0 \<le> x \<Longrightarrow> x < 2 ^ k \<Longrightarrow> bitlen x \<le> int k"
  by (simp add: bitlen_le_iff_power)

lemma round_f64_exact:
  assumes "\<bar>m\<bar> < 2 ^ 53" and "0 \<le> e" and "e \<le> 971"
  shows "round_f64 m e = Finite m e"
proof -
  have "bitlen \<bar>m\<bar> \<le> 53" using bitlen_below [of "\<bar>m\<bar>" 53] assms(1) by simp
  with assms(2,3) show ?thesis by (simp add: round_f64_def Let_def)
qed

lemma f64_of_nat_exact: "n < 2 ^ 53 \<Longrightarrow> f64_of_nat n = Finite (int n) 0"
  by (simp add: f64_of_nat_def round_f64_exact)

lemma f64_le_int_scale:
  assumes "f64_le (Finite m e) (Finite (int n) 0)"
  shows "truncated m e \<le> int n"
proof (cases "e \<ge> 0")
  case True
  with assms show ?thesis by (simp add: truncated_def min_def split: if_splits)
next
  case False
  with assms have "m \<le> int n * 2 ^ nat (- e)" by simp
  then have "m div 2 ^ nat (- e) \<le> int n * 2 ^ nat (- e) div 2 ^ nat (- e)"
    by (rule zdiv_mono1) simp
  with False show ?thesis by (simp add: truncated_def)
qed

lemma unat_u64_of_int: "0 \<le> v \<Longrightarrow> v < 2 ^ 64 \<Longrightarrow> unat (word_of_int v :: u64) = nat v"
  by (simp add: unsigned_of_int take_bit_int_eq_self)

lemma f64_to_u64_le:
  assumes "f64_le x (Finite (int n) 0)" and "n < 2 ^ 64"
  shows "unat (f64_to_u64 x) \<le> n"
proof (cases x)
  case (Finite m e)
  have v: "truncated m e \<le> int n" using f64_le_int_scale assms(1) Finite by blast
  with assms(2) show ?thesis by (auto simp: Finite Let_def unat_u64_of_int)
next
  case (Infinite neg)
  then show ?thesis using assms(1) by (cases neg) simp_all
qed (use assms(1) in simp)

lemma f64_to_u64_int: "n < 2 ^ 64 \<Longrightarrow> unat (f64_to_u64 (Finite (int n) 0)) = n"
  by (simp add: truncated_def Let_def unat_u64_of_int del: of_int_of_nat_eq)

lemma f64_to_u64_min:
  assumes "n < 2 ^ 64"
  shows "unat (f64_to_u64 (f64_min x (Finite (int n) 0))) \<le> n"
proof (cases "x \<noteq> NaN \<and> f64_le x (Finite (int n) 0)")
  case True
  then show ?thesis using f64_to_u64_le assms by (simp add: f64_min_def)
next
  case False
  then have "f64_min x (Finite (int n) 0) = Finite (int n) 0" by (auto simp: f64_min_def)
  then show ?thesis using f64_to_u64_int [OF assms] by simp
qed

section \<open>Rounding\<close>

fun f64_real :: "f64 \<Rightarrow> real" where
  "f64_real (Finite m e) = real_of_int m * 2 powi e"
| "f64_real _ = 0"

lemma round_half_even_nearest: "2 * \<bar>m - round_half_even m k * 2 ^ k\<bar> \<le> 2 ^ k"
proof -
  define q r p where defs: "q = m div 2 ^ k" "r = m mod 2 ^ k" "p = (2::int) ^ k"
  have "m = q * p + r" unfolding defs by (rule div_mult_mod_eq [symmetric])
  moreover have "0 \<le> r" "r < p" by (simp_all add: defs)
  ultimately have "\<bar>m - q * p\<bar> = r" "\<bar>m - (q + 1) * p\<bar> = p - r" by (simp_all add: algebra_simps)
  then have up: "2 * r \<le> p \<Longrightarrow> 2 * \<bar>m - q * p\<bar> \<le> p" 
    and down: "p \<le> 2 * r \<Longrightarrow> 2 * \<bar>m - (q + 1) * p\<bar> \<le> p"
    by simp_all
  show ?thesis
  proof (cases "2 * r > p \<or> 2 * r = p \<and> odd q")
    case True
    then have "round_half_even m k = q + 1" and "p \<le> 2 * r" by (auto simp: round_half_even_def Let_def defs)
    then show ?thesis using down by (simp only: defs(3))
  next
    case False
    then have "round_half_even m k = q" and "2 * r \<le> p" by (auto simp: round_half_even_def Let_def defs)
    then show ?thesis using up by (simp only: defs(3))
  qed
qed

lemma round_half_even_mult: "round_half_even (a * 2 ^ k) k = a"
  by (simp add: round_half_even_def)

lemma round_f64_scaled:
  assumes "\<bar>a\<bar> < 2 ^ 53" and "- 1074 \<le> e + int j" and "e + int j \<le> 971"
  shows "\<exists>m' e'. round_f64 (a * 2 ^ j) e = Finite m' e' \<and> f64_real (Finite m' e') = real_of_int a * 2 powi (e + int j)"
proof -
  let ?m = "a * 2 ^ j"
  define k where "k = max (bitlen \<bar>?m\<bar> - 53) (- 1074 - e)"
  have "\<bar>?m\<bar> < 2 ^ (53 + j)" using assms(1) by (simp add: abs_mult power_add)
  then have len: "bitlen \<bar>?m\<bar> \<le> 53 + int j" using bitlen_below [of "\<bar>?m\<bar>" "53 + j"] by simp
  then have k: "k \<le> int j" using assms(2) by (simp add: k_def)
  show ?thesis
  proof (cases "k \<le> 0")
    case True
    then have "round_f64 ?m e = Finite ?m e"
      using len assms(3) by (simp add: round_f64_def Let_def flip: k_def)
    then show ?thesis by (simp add: power_int_add)
  next
    case False
    then have nk: "nat k \<le> j" "int (nat k) = k" using k by simp_all
    have m: "?m = a * 2 ^ (j - nat k) * 2 ^ nat k" using nk(1) by (simp flip: power_add)
    then have r: "round_half_even ?m (nat k) = a * 2 ^ (j - nat k)" using round_half_even_mult by metis
    have "\<bar>a * 2 ^ (j - nat k)\<bar> < 2 ^ (53 + (j - nat k))" using assms(1) by (simp add: abs_mult power_add)
    then have "bitlen \<bar>a * 2 ^ (j - nat k)\<bar> \<le> 53 + int (j - nat k)"
      using bitlen_below [of "\<bar>a * 2 ^ (j - nat k)\<bar>" "53 + (j - nat k)"] by simp
    then have "bitlen \<bar>a * 2 ^ (j - nat k)\<bar> + (e + k) \<le> 1024" using assms(3) nk by linarith
    then have "round_f64 ?m e = Finite (a * 2 ^ (j - nat k)) (e + k)"
      using False r by (simp add: round_f64_def Let_def flip: k_def)
    moreover have "(2::real) ^ (j - nat k) * 2 powi (e + k) = 2 powi (e + int j)"
      using nk by (simp add: flip: power_int_add power_int_of_nat) (simp add: of_nat_diff add.commute)
    ultimately show ?thesis by (simp add: mult.assoc)
  qed
qed

lemma f64_div_exact:
  assumes "b \<noteq> 0" and "\<bar>a\<bar> < 2 ^ 53" and "- 1074 \<le> e - e'" and "e - e' \<le> 971"
  shows "\<exists>m x. f64_div (Finite (a * b) e) (Finite b e') = Finite m x \<and>
     f64_real (Finite m x) = real_of_int a * 2 powi (e - e')"
proof -
  define k where "k = nat (bitlen \<bar>b\<bar>) + 55"
  have n: "\<bar>a * b\<bar> * 2 ^ k = (\<bar>a\<bar> * 2 ^ k) * \<bar>b\<bar>" by (simp add: abs_mult)
  then have q: "\<bar>a * b\<bar> * 2 ^ k div \<bar>b\<bar> = \<bar>a\<bar> * 2 ^ k" "\<bar>a * b\<bar> * 2 ^ k mod \<bar>b\<bar> = 0"
    using assms(1) by simp_all
  have "sgn (a * b) * sgn b * (2 * (\<bar>a\<bar> * 2 ^ k)) = (sgn a * \<bar>a\<bar>) * (sgn b * sgn b) * 2 ^ Suc k"
    by (simp add: sgn_mult power_Suc mult_ac)
  also have "\<dots> = a * 2 ^ Suc k" using assms(1) by (simp add: sgn_mult_abs flip: sgn_mult)
  finally have "f64_div (Finite (a * b) e) (Finite b e') = round_f64 (a * 2 ^ Suc k) (e - e' - int k - 1)"
    using assms(1) q by (simp only: f64_div.simps Let_def if_False refl if_True add_0_right flip: k_def)
  moreover have "e - e' - int k - 1 + int (Suc k) = e - e'" by simp
  ultimately show ?thesis
    using round_f64_scaled [of a "e - e' - int k - 1" "Suc k"] assms by simp
qed

lemma f64_div_self:
  assumes "m \<noteq> 0"
  shows "\<exists>m' x. f64_div (Finite m e) (Finite m e) = Finite m' x \<and> f64_real (Finite m' x) = 1"
  using f64_div_exact [OF assms, of 1 e e] by simp

section \<open>Positive values\<close>

lemma round_f64_zero: "\<exists>e'. round_f64 0 e = Finite 0 e'"
  by (simp add: round_f64_def round_half_even_def Let_def)

lemma round_half_even_pos:
  assumes "0 < k" and "bitlen m - 53 = int k" and "0 < m"
  shows "0 < round_half_even m k \<and> round_half_even m k \<le> 2 ^ 53"
proof -
  have len: "bitlen m = int (52 + k) + 1" using assms(2) by simp
  then have bounds: "2 ^ (52 + k) \<le> m" "m < 2 ^ (53 + k)"
    using bitlen_bounds [OF assms(3)] by (simp_all add: nat_add_distrib)
  have "2 ^ 52 * 2 ^ k div 2 ^ k \<le> m div 2 ^ k"
    using bounds(1) by (intro zdiv_mono1) (simp_all add: power_add)
  moreover have "(m div 2 ^ k) * 2 ^ k \<le> m" by (simp flip: minus_mod_eq_div_mult)
  then have "(m div 2 ^ k) * 2 ^ k < 2 ^ 53 * 2 ^ k"
    using bounds(2) unfolding power_add by (rule order.strict_trans1)
  then have "m div 2 ^ k < 2 ^ 53" by (rule mult_right_less_imp_less) simp
  ultimately show ?thesis by (simp add: round_half_even_def Let_def)
qed

lemma round_f64_pos:
  assumes "0 < m" and "- 1074 \<le> e" and "bitlen m + e \<le> 1000"
  shows "\<exists>m' e'. round_f64 m e = Finite m' e' \<and> 0 < m'"
proof (cases "bitlen m \<le> 53")
  case True
  then show ?thesis using assms by (simp add: round_f64_def Let_def)
next
  case False
  let ?k = "nat (bitlen m - 53)"
  have k: "0 < ?k" "bitlen m - 53 = int ?k" using False by simp_all
  note r = round_half_even_pos [OF k assms(1)]
  then have "bitlen (round_half_even m ?k) \<le> 54" using bitlen_below [of "round_half_even m ?k" 54] by simp
  then show ?thesis using r assms False by (simp add: round_f64_def Let_def)
qed

lemma f64_of_nat_pos:
  assumes "0 < n" and "n < 2 ^ 64"
  shows "\<exists>m e. f64_of_nat n = Finite m e \<and> 0 < m"
  unfolding f64_of_nat_def
  by (rule round_f64_pos) (use assms bitlen_below [of "int n" 64] in simp_all)

lemma f64_div_pos:
  assumes "0 < a" and "a < 2 ^ 53" and "0 < b" and "b < 2 ^ 53"
  shows "\<exists>m e. f64_div (Finite a 0) (Finite b 0) = Finite m e \<and> 0 < m"
proof -
  define k where "k = nat (bitlen \<bar>b\<bar>) + 55"
  define q where "q = 2 * (\<bar>a\<bar> * 2 ^ k div \<bar>b\<bar>) + (if \<bar>a\<bar> * 2 ^ k mod \<bar>b\<bar> = 0 then 0 else 1)"
  have len: "bitlen b \<le> 53" using assms bitlen_below [of b 53] by simp
  then have k: "k \<le> 108" "nat (bitlen b) \<le> k" using assms by (simp_all add: k_def)
  have "b < 2 ^ nat (bitlen b)" using bitlen_bounds [OF assms(3)] by simp
  also have "\<dots> \<le> 2 ^ k" using k(2) by (intro power_increasing) simp_all
  finally have "b \<le> a * 2 ^ k" using assms(1) by (smt (verit) mult_le_cancel_right1 zero_less_power)
  then have "0 < a * 2 ^ k div b" using assms(3) by (simp add: pos_imp_zdiv_pos_iff)
  then have pos: "0 < q" using assms by (auto simp: q_def)
  have "a * 2 ^ k div b \<le> a * 2 ^ k" 
    using assms zdiv_mono2 [of "a * 2 ^ k" 1 b] by simp
  also have "a * 2 ^ k \<le> 2 ^ 53 * 2 ^ 108"
    using assms(1,2) k(1) by (intro mult_mono power_increasing) simp_all
  finally have "q < 2 ^ 163" using assms(1,3) by (simp add: q_def)
  then have "bitlen q \<le> 163" using pos bitlen_below [of q 163] by simp
  then have "\<exists>m e. round_f64 q (0 - 0 - int k - 1) = Finite m e \<and> 0 < m"
    using pos k(1) by (intro round_f64_pos) simp_all
  moreover have "f64_div (Finite a 0) (Finite b 0) = round_f64 q (0 - 0 - int k - 1)"
  proof -
    have "f64_div (Finite a 0) (Finite b 0) = round_f64 (sgn a * sgn b * q) (0 - 0 - int k - 1)"
      using assms(3) by (simp only: f64_div.simps Let_def q_def flip: k_def) simp
    then show ?thesis using assms(1,3) by simp
  qed
  ultimately show ?thesis by simp
qed

text \<open>A difference of equal values is zero.\<close>

lemma f64_real_scale: "n \<le> e \<Longrightarrow> real_of_int (m * 2 ^ nat (e - n)) * 2 powi n = f64_real (Finite m e)"
  by (simp add: mult.assoc flip: power_int_add power_int_of_nat)

lemma f64_sub_zero:
  assumes "f64_real (Finite m e) = f64_real (Finite m' e')"
  shows "\<exists>x. f64_sub (Finite m e) (Finite m' e') = Finite 0 x"
proof -
  let ?n = "min e e'"
  have "real_of_int (m * 2 ^ nat (e - ?n)) * 2 powi ?n = real_of_int (m' * 2 ^ nat (e' - ?n)) * 2 powi ?n"
    using assms by (simp only: f64_real_scale min.cobounded1 min.cobounded2)
  then have "m * 2 ^ nat (e - ?n) = m' * 2 ^ nat (e' - ?n)"
    by (simp only: mult_cancel_right of_int_eq_iff power_int_eq_0_iff) simp
  then have "f64_sub (Finite m e) (Finite m' e') = round_f64 0 ?n" by (simp add: f64_sub_def)
  then show ?thesis using round_f64_zero by simp
qed

end
