(* ===== verification/Benchmark_Reports.thy ===== *)
theory Benchmark_Reports
  imports Batch_Benchmark Float64
begin

text \<open>
  The tables the benchmarks print: \<open>batch_amortizes_fixed_overhead\<close> (\<open>src/batch_gas_benchmark.rs\<close>) and
  \<open>benchmark_sha256_hashing\<close> (\<open>src/hash_benchmark.rs\<close>), each as the list of the lines it prints. The
  charges of the host are the parameter \<open>meter\<close>, and the time a loop takes is \<open>elapsed\<close>, a number of
  nanoseconds. Rates and averages are computed in binary64 as the code does.
\<close>

section \<open>Batches against single calls\<close>

definition savings_pct :: "f64 \<Rightarrow> f64 \<Rightarrow> f64" where
  "savings_pct individual_per_entry batch_per_entry =
     f64_mul (Finite 100 0) (f64_sub (Finite 1 0) (f64_div batch_per_entry individual_per_entry))"

definition amortization_line :: "u32 \<Rightarrow> u64 \<Rightarrow> u64 \<Rightarrow> string" where
  "amortization_line n individual_cpu batch_cpu =
     (let individual_per_entry = f64_div (f64_of_nat (unat individual_cpu)) (f64_of_nat (unat n));
          batch_per_entry = f64_div (f64_of_nat (unat batch_cpu)) (f64_of_nat (unat n))
      in pad_left 10 (show_nat (unat n)) @ '' | '' @ pad_left 14 (show_nat (unat individual_cpu)) @ '' | '' @
         pad_left 14 (show_nat (unat batch_cpu)) @ '' | '' @ pad_left 12 (fmt_f64 0 individual_per_entry) @ '' | '' @
         pad_left 12 (fmt_f64 0 batch_per_entry) @ '' | '' @
         pad_left 8 (fmt_f64 1 (savings_pct individual_per_entry batch_per_entry)) @ ''%'')"

definition amortization_header :: string where
  "amortization_header =
     pad_left 10 ''batch_size'' @ '' | '' @ pad_left 14 ''individual_cpu'' @ '' | '' @ pad_left 14 ''batch_cpu'' @
     '' | '' @ pad_left 12 ''indiv/entry'' @ '' | '' @ pad_left 12 ''batch/entry'' @ '' | '' @ pad_left 9 ''savings''"

definition amortization_row ::
  "meter \<Rightarrow> (nat \<Rightarrow> Address) \<Rightarrow> (u8 list \<Rightarrow> 256 word) \<Rightarrow> u64 \<Rightarrow> u32 \<Rightarrow> string option" where
  "amortization_row meter gen sha256 start n =
     Option.bind (measure_individual meter gen sha256 start n) (\<lambda>((individual_cpu, individual_mem), _).
     map_option (\<lambda>((batch_cpu, batch_mem), _). amortization_line n individual_cpu batch_cpu)
       (measure_batch meter gen sha256 start n))"

definition batch_amortizes_fixed_overhead ::
  "meter \<Rightarrow> (nat \<Rightarrow> Address) \<Rightarrow> (u8 list \<Rightarrow> 256 word) \<Rightarrow> u64 \<Rightarrow> string list option" where
  "batch_amortizes_fixed_overhead meter gen sha256 start =
     map_option (Cons amortization_header) (those (map (amortization_row meter gen sha256 start) BATCH_SIZES))"

section \<open>Hashing\<close>

definition HASH_SIZES :: "nat list" where "HASH_SIZES = [32, 64, 1024, 16384, 32768, 65536]"

definition hash_iterations :: "nat \<Rightarrow> nat" where
  "hash_iterations bytes = (if bytes \<le> 64 then 50000 else if bytes = 1024 then 10000 else 1000)"

text \<open>\<open>Duration::as_secs_f64\<close>.\<close>

definition as_secs_f64 :: "nat \<Rightarrow> f64" where
  "as_secs_f64 d = f64_add (f64_of_nat (d div 10 ^ 9)) (f64_div (f64_of_nat (d mod 10 ^ 9)) (f64_of_nat (10 ^ 9)))"

definition avg_time_ns :: "nat \<Rightarrow> nat \<Rightarrow> f64" where
  "avg_time_ns duration iterations = f64_div (f64_of_nat duration) (f64_of_nat iterations)"

definition throughput :: "nat \<Rightarrow> nat \<Rightarrow> nat \<Rightarrow> f64" where
  "throughput bytes iterations duration =
     (let size_mb = f64_div (f64_of_nat bytes) (f64_mul (Finite 1024 0) (Finite 1024 0))
      in if f64_pos (as_secs_f64 duration)
         then f64_div (f64_mul size_mb (f64_of_nat iterations)) (as_secs_f64 duration)
         else Finite 0 0)"

definition size_str :: "nat \<Rightarrow> string" where
  "size_str bytes = (if bytes < 1024 then show_nat bytes @ '' B'' else show_nat (bytes div 1024) @ '' KB'')"

text \<open>The costs are those of hashing the zero payload once, the time that of the loop.\<close>

definition hash_line :: "(u8 list \<Rightarrow> u64 \<times> u64) \<Rightarrow> (nat \<Rightarrow> nat) \<Rightarrow> nat \<Rightarrow> string" where
  "hash_line meter elapsed bytes =
     (let data = replicate bytes 0;
          (cpu_cost, mem_cost) = meter data;
          iterations = hash_iterations bytes;
          duration = elapsed bytes
      in ''| '' @ pad_left 12 (size_str bytes) @ '' | '' @ pad_left 10 (show_nat iterations) @ '' | '' @
         pad_left 16 (show_nat (unat cpu_cost)) @ '' | '' @ pad_left 14 (show_nat (unat mem_cost)) @ '' | '' @
         pad_left 13 (fmt_f64 1 (avg_time_ns duration iterations)) @ '' | '' @
         pad_left 17 (fmt_f64 2 (throughput bytes iterations duration)) @ '' |'')"

definition benchmark_sha256_hashing :: "(u8 list \<Rightarrow> u64 \<times> u64) \<Rightarrow> (nat \<Rightarrow> nat) \<Rightarrow> string list" where
  "benchmark_sha256_hashing meter elapsed =
     [CHR 0x0A # ''| Payload Size | Iterations | CPU Instructions | Memory (Bytes) | Avg Time (ns) | Throughput (MB/s) |'',
      ''|-------------:|-----------:|-----------------:|---------------:|--------------:|------------------:|''] @
     map (hash_line meter elapsed) HASH_SIZES @ [[]]"

section \<open>Facts\<close>

text \<open>
  The batch table has a line for every batch size, whatever the host charges below \<open>2 ^ 32\<close> a call, and
  a batch that costs what the single calls cost together is reported as saving nothing.
\<close>

lemma those_all_Some:
  "(\<And>x. x \<in> set xs \<Longrightarrow> f x \<noteq> None) \<Longrightarrow> \<exists>ys. those (map f xs) = Some ys \<and> length ys = length xs"
proof (induction xs)
  case (Cons x xs)
  then obtain y ys where "f x = Some y" "those (map f xs) = Some ys" "length ys = length xs"
    by (metis list.set_intros option.exhaust_sel)
  then show ?case by simp
qed simp

lemma amortization_table_complete:
  assumes "inj gen" and "cheap meter"
  shows "\<exists>table. batch_amortizes_fixed_overhead meter gen sha256 start = Some (amortization_header # table) \<and>
     length table = length BATCH_SIZES"
proof -
  have "amortization_row meter gen sha256 start n \<noteq> None" if n: "0 < n" for n
  proof -
    obtain c1 c2 e where "measure_individual meter gen sha256 start n = Some (c1, e)"
        "measure_batch meter gen sha256 start n = Some (c2, e)"
      using benchmark_same_work [OF assms n, of sha256 start] by blast
    then show ?thesis by (simp add: amortization_row_def split: prod.splits)
  qed
  moreover have "0 < n" if "n \<in> set BATCH_SIZES" for n using that by (auto simp: BATCH_SIZES_def)
  ultimately show ?thesis
    using those_all_Some [of BATCH_SIZES "amortization_row meter gen sha256 start"]
    by (auto simp: batch_amortizes_fixed_overhead_def)
qed

lemma digit_chars:
  "char_of (48::nat) = CHR ''0''" "char_of (49::nat) = CHR ''1''" "char_of (50::nat) = CHR ''2''"
  "char_of (51::nat) = CHR ''3''" "char_of (52::nat) = CHR ''4''" "char_of (54::nat) = CHR ''6''"
  by code_simp+

lemma fmt_zero: "fmt_f64 1 (Finite 0 e) = ''0.0''"
  by (simp add: fmt_decimals_def round_half_even_def show_nat.simps digit_chars Let_def)

lemma savings_of_equal_cost:
  assumes "0 < cpu" and "cpu < 2 ^ 53" and "0 < n" and "n < 2 ^ 32"
  defines "per_entry \<equiv> f64_div (f64_of_nat cpu) (f64_of_nat n)"
  shows "fmt_f64 1 (savings_pct per_entry per_entry) = ''0.0''"
proof -
  obtain m e where y: "per_entry = Finite m e" "0 < m"
    using f64_div_pos [of "int cpu" "int n"] assms by (auto simp: f64_of_nat_exact)
  then obtain m' x where one: "f64_div per_entry per_entry = Finite m' x" "f64_real (Finite m' x) = 1"
    using f64_div_self [of m e] by auto
  then obtain x' where "f64_sub (Finite 1 0) (Finite m' x) = Finite 0 x'"
    using f64_sub_zero [of 1 0 m' x] by auto
  then obtain z where "savings_pct per_entry per_entry = Finite 0 z"
    using round_f64_zero [of x'] one(1) by (auto simp: savings_pct_def)
  then show ?thesis using fmt_zero by simp
qed

text \<open>
  The hash table has a line for every payload size; a loop too short for the clock is reported with
  throughput zero instead of dividing by zero, and an average that is a whole number of nanoseconds is
  computed exactly.
\<close>

lemma hash_table_complete:
  "length (benchmark_sha256_hashing meter elapsed) = length HASH_SIZES + 3"
  by (simp add: benchmark_sha256_hashing_def)

lemma throughput_of_no_time: "throughput bytes iterations 0 = Finite 0 0"
proof -
  have ns: "f64_of_nat (10 ^ 9) = Finite (10 ^ 9) 0" "f64_of_nat 0 = Finite 0 0"
    using f64_of_nat_exact [of "10 ^ 9"] f64_of_nat_exact [of 0] by simp_all
  obtain m x where q: "f64_div (Finite 0 0) (Finite (10 ^ 9) 0) = Finite m x" "f64_real (Finite m x) = 0"
    using f64_div_exact [of "10 ^ 9" 0 0 0] by auto
  then have "m = 0" by simp
  then have "as_secs_f64 0 = round_f64 0 (min 0 x)"
    using q(1) by (simp add: as_secs_f64_def ns del: f64_div.simps power_numeral)
  then have "\<not> f64_pos (as_secs_f64 0)"
    using round_f64_zero [of "min 0 x"] by (auto simp: f64_pos_def)
  then show ?thesis by (simp add: throughput_def)
qed

lemma avg_time_exact:
  assumes "bytes \<in> set HASH_SIZES" and "t < 2 ^ 32"
  shows "f64_real (avg_time_ns (t * hash_iterations bytes) (hash_iterations bytes)) = real t"
proof -
  let ?i = "hash_iterations bytes"
  have i: "0 < ?i" "?i \<le> 50000" by (simp_all add: hash_iterations_def)
  have "t * ?i < 2 ^ 53"
    using assms(2) i(2) mult_mono [of t "2 ^ 32 - 1" ?i 50000] by simp
  then have "f64_of_nat (t * ?i) = Finite (int t * int ?i) 0" "f64_of_nat ?i = Finite (int ?i) 0"
    using i by (simp_all add: f64_of_nat_exact)
  then show ?thesis
    using f64_div_exact [of "int ?i" "int t" 0 0] i assms(2) by (auto simp: avg_time_ns_def)
qed

lemma size_column: "map size_str HASH_SIZES = [''32 B'', ''64 B'', ''1 KB'', ''16 KB'', ''32 KB'', ''64 KB'']"
  by (simp add: HASH_SIZES_def size_str_def show_nat.simps digit_chars)

end
