(* ===== verification/Wasm_Artifact_Path.thy ===== *)
theory Wasm_Artifact_Path
  imports Anchor_Prelude "HOL-Library.Sublist"
begin

text \<open>
  The path of the release artifact (\<open>src/wasm_artifact_path.rs\<close>), built by pushing path segments,
  with the Unix reading of \<open>std::path\<close>: a segment that starts at the root replaces the path, any
  other is appended after a separator. The facts are those the three unit tests sample, for every
  manifest directory; the tests themselves follow from them.
\<close>

definition path_push :: "string \<Rightarrow> string \<Rightarrow> string" where
  "path_push path segment =
     (let need_sep = (path \<noteq> [] \<and> last path \<noteq> CHR ''/'') in
      if segment \<noteq> [] \<and> hd segment = CHR ''/'' then segment
      else if need_sep then path @ ''/'' @ segment
      else path @ segment)"

definition path_collect :: "string list \<Rightarrow> string" where
  "path_collect segments = fold (\<lambda>segment path. path_push path segment) segments []"

definition wasm_artifact_path :: "string \<Rightarrow> string" where
  "wasm_artifact_path manifest_dir =
     path_collect [manifest_dir, ''target'', ''wasm32v1-none'', ''release'', ''anchorkit.wasm'']"

text \<open>
  The components of a path: empty ones and \<open>.\<close> are skipped, \<open>..\<close> is not a normal component. A
  leading \<open>.\<close> is a component of its own, which is not normal and never a file name.
\<close>

definition path_segments :: "string \<Rightarrow> string list" where
  "path_segments path = filter (\<lambda>c. c \<noteq> [] \<and> c \<noteq> ''.'') (split_on (CHR ''/'') path)"

definition normal_components :: "string \<Rightarrow> string list" where
  "normal_components path = filter (\<lambda>c. c \<noteq> ''..'') (path_segments path)"

definition file_name :: "string \<Rightarrow> string option" where
  "file_name path =
     (case rev (path_segments path) of
        [] \<Rightarrow> None
      | c # _ \<Rightarrow> if c = ''..'' then None else Some c)"

section \<open>What the tests check\<close>

lemma split_on_append:
  "split_on s (xs @ s # ys) = split_on s xs @ split_on s ys"
  by (induction xs) (auto split: list.split)

lemma path_push_start: "path_push [] d = d"
  by (simp add: path_push_def)

lemma path_push_relative:
  "hd segment \<noteq> CHR ''/'' \<Longrightarrow>
     path_push p segment = p @ (if p = [] \<or> last p = CHR ''/'' then [] else ''/'') @ segment"
  by (simp add: path_push_def Let_def)

lemma path_push_after:
  assumes "s \<noteq> []" "last s \<noteq> CHR ''/''" and "hd segment \<noteq> CHR ''/''"
  shows "path_push (p @ s) segment = p @ s @ ''/'' @ segment"
  using assms by (simp add: path_push_def Let_def)

text \<open>Written out: a separator only where the manifest directory does not end in one.\<close>

lemma wasm_artifact_path_eq:
  "wasm_artifact_path d =
     d @ (if d = [] \<or> last d = CHR ''/'' then [] else ''/'') @ ''target/wasm32v1-none/release/anchorkit.wasm''"
proof -
  let ?p = "d @ (if d = [] \<or> last d = CHR ''/'' then [] else ''/'')"
  have "path_push d ''target'' = ?p @ ''target''" by (subst path_push_relative) simp_all
  moreover have "path_push (?p @ ''target'') ''wasm32v1-none'' = ?p @ ''target/wasm32v1-none''"
    by (subst path_push_after) simp_all
  moreover have "path_push (?p @ ''target/wasm32v1-none'') ''release'' = ?p @ ''target/wasm32v1-none/release''"
    by (subst path_push_after) simp_all
  moreover have "path_push (?p @ ''target/wasm32v1-none/release'') ''anchorkit.wasm'' =
      ?p @ ''target/wasm32v1-none/release/anchorkit.wasm''"
    by (subst path_push_after) simp_all
  ultimately show ?thesis
    by (simp only: wasm_artifact_path_def path_collect_def fold_simps path_push_start append_assoc)
qed

lemma path_segments_tail:
  "path_segments ''target/wasm32v1-none/release/anchorkit.wasm'' =
     [''target'', ''wasm32v1-none'', ''release'', ''anchorkit.wasm'']"
  by code_simp

lemma wasm_artifact_segments:
  "path_segments (wasm_artifact_path d) =
     path_segments d @ [''target'', ''wasm32v1-none'', ''release'', ''anchorkit.wasm'']"
proof -
  let ?tail = "''target/wasm32v1-none/release/anchorkit.wasm''"
  have sep: "path_segments (xs @ CHR ''/'' # ys) = path_segments xs @ path_segments ys" for xs ys
    by (simp add: path_segments_def split_on_append)
  consider "d = []" | xs where "d = xs @ [CHR ''/'']" | "d \<noteq> []" "last d \<noteq> CHR ''/''"
    by (metis append_butlast_last_id)
  then show ?thesis
  proof cases
    case 1
    then have "wasm_artifact_path d = ?tail" by (simp add: wasm_artifact_path_eq)
    then show ?thesis using 1 path_segments_tail by (simp add: path_segments_def)
  next
    case (2 xs)
    then have "wasm_artifact_path d = xs @ CHR ''/'' # ?tail" by (simp add: wasm_artifact_path_eq)
    moreover have "path_segments d = path_segments xs" using 2 sep [of xs "[]"] by (simp add: path_segments_def)
    ultimately show ?thesis by (simp only: sep path_segments_tail)
  next
    case 3
    then have "wasm_artifact_path d = d @ CHR ''/'' # ?tail" by (simp add: wasm_artifact_path_eq)
    then show ?thesis by (simp only: sep path_segments_tail)
  qed
qed

text \<open>Each segment is a component of its own, after those of the manifest directory.\<close>

lemma separate_path_components:
  "normal_components (wasm_artifact_path d) =
     normal_components d @ [''target'', ''wasm32v1-none'', ''release'', ''anchorkit.wasm'']"
  by (simp add: normal_components_def wasm_artifact_segments)

text \<open>The manifest directory stays the leading text, whatever it looks like.\<close>

lemma preserves_manifest_dir_verbatim:
  "prefix d (wasm_artifact_path d)" "suffix ''anchorkit.wasm'' (wasm_artifact_path d)"
proof -
  show "prefix d (wasm_artifact_path d)" by (simp add: wasm_artifact_path_eq)
  have "wasm_artifact_path d =
      (d @ (if d = [] \<or> last d = CHR ''/'' then [] else ''/'') @ ''target/wasm32v1-none/release/'') @ ''anchorkit.wasm''"
    by (simp add: wasm_artifact_path_eq)
  then show "suffix ''anchorkit.wasm'' (wasm_artifact_path d)" unfolding suffix_def by blast
qed

lemma wasm_filename_is_the_final_component: "file_name (wasm_artifact_path d) = Some ''anchorkit.wasm''"
  by (simp add: file_name_def wasm_artifact_segments)

section \<open>The tests\<close>

definition joins_segments_as_separate_path_components :: bool where
  "joins_segments_as_separate_path_components \<longleftrightarrow>
     (let path = wasm_artifact_path ''/repo'' in
      normal_components path = [''repo'', ''target'', ''wasm32v1-none'', ''release'', ''anchorkit.wasm''])"

text \<open>The backslash is the character 92.\<close>

definition windows_dir :: string where
  "windows_dir = ''C:'' @ [CHR 92] @ ''a'' @ [CHR 92] @ ''Anchorkit-1'' @ [CHR 92] @ ''Anchorkit-1''"

definition preserves_a_windows_style_manifest_dir_verbatim :: bool where
  "preserves_a_windows_style_manifest_dir_verbatim \<longleftrightarrow>
     (let windows_style_manifest_dir = windows_dir; joined = wasm_artifact_path windows_style_manifest_dir
      in prefix windows_style_manifest_dir joined \<and> suffix ''anchorkit.wasm'' joined)"

definition wasm_filename_is_the_final_component_regardless_of_manifest_dir_trailing_separator :: bool where
  "wasm_filename_is_the_final_component_regardless_of_manifest_dir_trailing_separator \<longleftrightarrow>
     (let with_trailing = wasm_artifact_path ''/repo/''; without_trailing = wasm_artifact_path ''/repo''
      in file_name with_trailing = Some ''anchorkit.wasm'' \<and> file_name without_trailing = Some ''anchorkit.wasm'')"

lemma artifact_path_tests_pass:
  joins_segments_as_separate_path_components
  preserves_a_windows_style_manifest_dir_verbatim
  wasm_filename_is_the_final_component_regardless_of_manifest_dir_trailing_separator
proof -
  have "normal_components ''/repo'' = [''repo'']" by code_simp
  then show joins_segments_as_separate_path_components
    by (simp add: joins_segments_as_separate_path_components_def separate_path_components)
qed (simp_all add: preserves_a_windows_style_manifest_dir_verbatim_def preserves_manifest_dir_verbatim
    wasm_filename_is_the_final_component_regardless_of_manifest_dir_trailing_separator_def
    wasm_filename_is_the_final_component)

end
