(* ===== verification/Contract_Unit_Tests.thy ===== *)
theory Contract_Unit_Tests
  imports Payload_Domain Multisig
begin

text \<open>
  The unit tests that stand beside the code of the contract crate (\<open>src/domain_validator.rs\<close>,
  \<open>src/hash.rs\<close>, \<open>src/multisig.rs\<close>, \<open>src/migrations.rs\<close>, \<open>src/storage.rs\<close>), each a definition that says whether its
  assertions hold, and the proof that the model passes it. They tie the definitions to the
  behaviour the authors wrote down. Texts are their UTF-8 bytes.
\<close>

section \<open>Domain validator\<close>

definition test_domain :: "string \<Rightarrow> u8 list" where
  "test_domain s = map of_char s"

definition accepts_plausible_domains :: bool where
  "accepts_plausible_domains \<longleftrightarrow>
     validate_anchor_domain (test_domain ''anchor.example.com'') \<and>
     validate_anchor_domain (test_domain ''a.co'') \<and>
     validate_anchor_domain (test_domain ''sub.multi-part.anchor.io'')"

definition rejects_empty_and_oversized :: bool where
  "rejects_empty_and_oversized \<longleftrightarrow>
     \<not> validate_anchor_domain (test_domain []) \<and>
     (let too_long_label = replicate 64 97 @ test_domain ''.com'' in
      \<not> validate_anchor_domain too_long_label)"

definition rejects_missing_dot :: bool where
  "rejects_missing_dot \<longleftrightarrow> \<not> validate_anchor_domain (test_domain ''localhost'')"

definition rejects_leading_and_trailing_dots :: bool where
  "rejects_leading_and_trailing_dots \<longleftrightarrow>
     \<not> validate_anchor_domain (test_domain ''.example.com'') \<and>
     \<not> validate_anchor_domain (test_domain ''example.com.'')"

definition rejects_consecutive_dots :: bool where
  "rejects_consecutive_dots \<longleftrightarrow> \<not> validate_anchor_domain (test_domain ''example..com'')"

definition rejects_hyphen_at_label_boundary :: bool where
  "rejects_hyphen_at_label_boundary \<longleftrightarrow>
     \<not> validate_anchor_domain (test_domain ''-example.com'') \<and>
     \<not> validate_anchor_domain (test_domain ''example-.com'')"

definition rejects_disallowed_characters :: bool where
  "rejects_disallowed_characters \<longleftrightarrow>
     \<not> validate_anchor_domain (test_domain ''exa mple.com'') \<and>
     \<not> validate_anchor_domain (test_domain ''example.com/path'') \<and>
     \<not> validate_anchor_domain (test_domain ''exa_mple.com'')"

definition str_variant_agrees_with_bytes_variant :: bool where
  "str_variant_agrees_with_bytes_variant \<longleftrightarrow>
     list_all (\<lambda>c. validate_domain_syntax c = validate_anchor_domain c) [
      test_domain ''anchor.example.com'',
      test_domain ''a.co'',
      test_domain ''sub.multi-part.anchor.io'',
      test_domain '''',
      test_domain ''localhost'',
      test_domain ''.example.com'',
      test_domain ''example.com.'',
      test_domain ''example..com'',
      test_domain ''-example.com'',
      test_domain ''example-.com'',
      test_domain ''exa mple.com'',
      test_domain ''example.com/path'',
      test_domain ''exa_mple.com'']"

definition rejects_unicode_homograph_characters :: bool where
  "rejects_unicode_homograph_characters \<longleftrightarrow>
     list_all (\<lambda>c. \<not> validate_anchor_domain c) [
      [208, 181, 120, 97, 109, 112, 108, 101, 46, 99, 111, 109],
      [103, 206, 191, 206, 191, 103, 108, 101, 46, 99, 111, 109],
      [215, 164, 215, 153, 115, 104, 101, 114, 46, 99, 111, 109],
      [216, 170, 208, 181, 209, 129, 209, 130, 46, 101, 120, 97, 109, 112, 108, 101, 46, 99, 111, 109],
      [116, 101, 115, 116, 228, 190, 139, 227, 129, 136, 46, 99, 111, 109]]"

definition accepts_punycode_encoded_domains :: bool where
  "accepts_punycode_encoded_domains \<longleftrightarrow>
     list_all validate_domain_syntax [
      test_domain ''xn--h1alffa9f.xn--p1ai'',
      test_domain ''xn--2n1b961e.kr'',
      test_domain ''xn--80akhbyknj4f.xn--p1ai'',
      test_domain ''xn--9ca.com'',
      test_domain ''xn--bcher-kva.de'']"

definition str_is_ascii :: "u8 list \<Rightarrow> bool" where
  "str_is_ascii s = list_all (\<lambda>b. b < 128) s"

definition homograph_attack_fuzzing_corpus :: bool where
  "homograph_attack_fuzzing_corpus \<longleftrightarrow>
     list_all (\<lambda>c. let should_reject = \<not> str_is_ascii c; result = validate_anchor_domain c in
       if should_reject then \<not> result else result) [
      [209, 128, 208, 176, 115, 104, 97, 46, 209, 128, 209, 132],
      [97, 109, 208, 176, 122, 111, 110, 46, 99, 111, 109],
      [209, 128, 208, 176, 209, 143, 208, 189, 208, 180, 101, 120, 46, 209, 128, 209, 132],
      [103, 208, 190, 208, 190, 103, 108, 101, 46, 99, 111, 109],
      [206, 181, 120, 97, 109, 112, 108, 101, 46, 99, 111, 109],
      [207, 129, 97, 121, 112, 97, 108, 46, 99, 111, 109],
      [215, 164, 216, 167, 217, 138, 208, 177, 215, 149, 215, 167, 46, 99, 111, 109],
      [216, 163, 217, 133, 208, 183, 215, 149, 215, 159, 46, 99, 111, 109],
      test_domain ''l1nked1n.com'',
      test_domain ''reddlt.com'',
      test_domain ''I1l1O0.com'',
      [101, 120, 101, 109, 112, 108, 101, 204, 129, 46, 99, 111, 109],
      [99, 97, 102, 195, 169, 46, 99, 111, 109]]"

text \<open>
  What the homograph corpora sample: a text with any byte outside ASCII is refused, as every
  multi-byte UTF-8 character is made of such bytes.
\<close>

lemma non_ascii_refused:
  assumes "\<not> str_is_ascii d"
  shows "\<not> validate_anchor_domain d" "\<not> validate_domain_syntax d"
proof -
  have ascii: "b < 128" if "label_char b \<or> b = 46" for b
    using that by (auto simp: label_char_def is_ascii_alphanumeric_def word_le_nat_alt word_less_nat_alt)
  have "\<not> list_all valid_label (split_dots d)"
  proof
    assume "list_all valid_label (split_dots d)"
    then have "\<forall>l \<in> set (split_dots d). \<forall>b \<in> set l. label_char b"
      by (auto simp: valid_label_def list_all_iff)
    then have "\<forall>b \<in> set d. b < 128" using ascii split_on_cover [of _ d 46] by blast
    with assms show False by (simp add: str_is_ascii_def list_all_iff)
  qed
  then show "\<not> validate_anchor_domain d" "\<not> validate_domain_syntax d"
    by (simp_all add: validate_anchor_domain_def validate_domain_syntax_def is_valid_domain_syntax_iff)
qed

lemma domain_tests_pass:
  accepts_plausible_domains
  rejects_empty_and_oversized
  rejects_missing_dot
  rejects_leading_and_trailing_dots
  rejects_consecutive_dots
  rejects_hyphen_at_label_boundary
  rejects_disallowed_characters
  str_variant_agrees_with_bytes_variant
  accepts_punycode_encoded_domains
  by code_simp+

lemma homograph_tests_pass:
  rejects_unicode_homograph_characters
  homograph_attack_fuzzing_corpus
  by code_simp+

section \<open>Payload digests\<close>

definition same_input_hashes_the_same :: "(u8 list \<Rightarrow> 256 word) \<Rightarrow> bool" where
  "same_input_hashes_the_same sha256 \<longleftrightarrow>
     (let d = test_domain ''kyc-approved:alice'';
          a = compute_payload_hash sha256 d; b = compute_payload_hash sha256 d
      in a = b)"

definition different_input_hashes_differently :: "(u8 list \<Rightarrow> 256 word) \<Rightarrow> bool" where
  "different_input_hashes_differently sha256 \<longleftrightarrow>
     (let a = compute_payload_hash sha256 (test_domain ''payload-a'');
          b = compute_payload_hash sha256 (test_domain ''payload-b'')
      in a \<noteq> b)"

definition verify_matches_computed_hash :: "(u8 list \<Rightarrow> 256 word) \<Rightarrow> bool" where
  "verify_matches_computed_hash sha256 \<longleftrightarrow>
     (let d = test_domain ''payment-confirmed:12345'';
          h = compute_payload_hash sha256 d
      in verify_payload_hash sha256 d h)"

definition verify_rejects_tampered_payload :: "(u8 list \<Rightarrow> 256 word) \<Rightarrow> bool" where
  "verify_rejects_tampered_payload sha256 \<longleftrightarrow>
     (let original = test_domain ''payment-confirmed:12345'';
          h = compute_payload_hash sha256 original;
          tampered = test_domain ''payment-confirmed:99999''
      in \<not> verify_payload_hash sha256 tampered h)"

text \<open>Two pass whatever the digest is; the other two say that it has no collision on their inputs.\<close>

lemma hash_tests:
  "same_input_hashes_the_same sha256"
  "verify_matches_computed_hash sha256"
  "different_input_hashes_differently sha256 \<longleftrightarrow>
     sha256 (test_domain ''payload-a'') \<noteq> sha256 (test_domain ''payload-b'')"
  "verify_rejects_tampered_payload sha256 \<longleftrightarrow>
     sha256 (test_domain ''payment-confirmed:99999'') \<noteq> sha256 (test_domain ''payment-confirmed:12345'')"
  unfolding same_input_hashes_the_same_def verify_matches_computed_hash_def
    different_input_hashes_differently_def verify_rejects_tampered_payload_def Let_def
    compute_payload_hash_def verify_payload_hash_def
  by blast+

section \<open>Signer configuration\<close>

definition test_initialize_multisig_basic :: "Address \<Rightarrow> bool" where
  "test_initialize_multisig_basic a \<longleftrightarrow>
     fst (multisig_initialize_multisig [a] 1 empty_env) = Ok ()"

definition test_initialize_multisig_rejects_empty_signers :: bool where
  "test_initialize_multisig_rejects_empty_signers \<longleftrightarrow>
     fst (multisig_initialize_multisig [] 1 empty_env) = Err EmptySignerList"

definition test_initialize_multisig_rejects_zero_threshold :: "Address \<Rightarrow> bool" where
  "test_initialize_multisig_rejects_zero_threshold a \<longleftrightarrow>
     fst (multisig_initialize_multisig [a] 0 empty_env) = Err InvalidThreshold"

definition test_initialize_multisig_rejects_threshold_exceeding_signers :: "Address \<Rightarrow> bool" where
  "test_initialize_multisig_rejects_threshold_exceeding_signers a \<longleftrightarrow>
     fst (multisig_initialize_multisig [a] 2 empty_env) = Err InvalidThreshold"

definition test_initialize_multisig_rejects_duplicate_signers :: "Address \<Rightarrow> bool" where
  "test_initialize_multisig_rejects_duplicate_signers a \<longleftrightarrow>
     fst (multisig_initialize_multisig [a, a] 1 empty_env) = Err DuplicateSigner"

lemma multisig_tests_pass:
  "test_initialize_multisig_basic a"
  test_initialize_multisig_rejects_empty_signers
  "test_initialize_multisig_rejects_zero_threshold a"
  "test_initialize_multisig_rejects_threshold_exceeding_signers a"
  "test_initialize_multisig_rejects_duplicate_signers a"
  by (simp_all add: test_initialize_multisig_basic_def test_initialize_multisig_rejects_empty_signers_def
      test_initialize_multisig_rejects_zero_threshold_def
      test_initialize_multisig_rejects_threshold_exceeding_signers_def
      test_initialize_multisig_rejects_duplicate_signers_def multisig_initialize_multisig_def
      op_defs word_le_nat_alt word_less_nat_alt)

section \<open>Schema versions\<close>

definition test_no_migration_needed_when_schema_current :: "unit contract_op \<Rightarrow> bool" where
  "test_no_migration_needed_when_schema_current absent \<longleftrightarrow>
     (let e = storage_set_schema_version CURRENT_SCHEMA_VERSION empty_env in
      fst (run_pending_migrations absent e) = Ok ())"

definition test_get_schema_version_defaults_to_one :: bool where
  "test_get_schema_version_defaults_to_one \<longleftrightarrow>
     fst (migrations_get_schema_version empty_env) = Ok CURRENT_SCHEMA_VERSION"

definition test_reject_future_schema_version :: "unit contract_op \<Rightarrow> bool" where
  "test_reject_future_schema_version absent \<longleftrightarrow>
     (let e = storage_set_schema_version (CURRENT_SCHEMA_VERSION + 1) empty_env in
      fst (run_pending_migrations absent e) = Err Unauthorized)"

definition test_set_schema_version :: bool where
  "test_set_schema_version \<longleftrightarrow>
     (case migrations_set_schema_version 2 empty_env of
        (Ok _, e) \<Rightarrow> fst (migrations_get_schema_version e) = Ok 2
      | _ \<Rightarrow> False)"

lemma migration_tests_pass:
  "test_no_migration_needed_when_schema_current absent"
  test_get_schema_version_defaults_to_one
  "test_reject_future_schema_version absent"
  test_set_schema_version
  by (simp_all add: test_no_migration_needed_when_schema_current_def test_get_schema_version_defaults_to_one_def
      test_reject_future_schema_version_def test_set_schema_version_def run_pending_migrations_def
      migrations_get_schema_version_def migrations_set_schema_version_def storage_get_schema_version_def
      storage_set_schema_version_def CURRENT_SCHEMA_VERSION_def empty_env_def word_less_nat_alt op_defs)

section \<open>Rent windows\<close>

definition ONE_DAY_SECONDS :: u64 where "ONE_DAY_SECONDS = 24 * 60 * 60"

definition floors_short_lived_attestations_to_the_minimum_window :: bool where
  "floors_short_lived_attestations_to_the_minimum_window \<longleftrightarrow>
     (let extend_to = attestation_extend_to ONE_DAY_SECONDS in extend_to = MIN_ATTESTATION_TTL_EXTEND_TO)"

definition tracks_a_mid_range_lifetime_proportionally :: bool where
  "tracks_a_mid_range_lifetime_proportionally \<longleftrightarrow>
     (let ninety_days = ONE_DAY_SECONDS * 90; extend_to = attestation_extend_to ninety_days
      in extend_to = LEDGERS_PER_DAY * 90)"

definition caps_long_lived_attestations_to_the_maximum_window :: bool where
  "caps_long_lived_attestations_to_the_maximum_window \<longleftrightarrow>
     (let ten_years = ONE_DAY_SECONDS * 365 * 10; extend_to = attestation_extend_to ten_years
      in extend_to = MAX_ATTESTATION_TTL_EXTEND_TO)"

definition threshold_is_half_of_the_purchased_window :: bool where
  "threshold_is_half_of_the_purchased_window \<longleftrightarrow>
     (let (threshold, extend_to) = attestation_ttl_window (ONE_DAY_SECONDS * 90) in threshold = extend_to div 2)"

lemma ttl_window_tests_pass:
  floors_short_lived_attestations_to_the_minimum_window
  tracks_a_mid_range_lifetime_proportionally
  caps_long_lived_attestations_to_the_maximum_window
  threshold_is_half_of_the_purchased_window
  by (simp_all add: floors_short_lived_attestations_to_the_minimum_window_def
      tracks_a_mid_range_lifetime_proportionally_def caps_long_lived_attestations_to_the_maximum_window_def
      threshold_is_half_of_the_purchased_window_def attestation_ttl_window_def word_unat_eq_iff
      unat_attestation_extend_to ONE_DAY_SECONDS_def ttl_consts Let_def)

end
