(* ===== verification/Webhook_Types.thy ===== *)
theory Webhook_Types
  imports Anchor_Prelude
begin

text \<open>
  The data of the webhook SDK: JSON values as \<open>serde_json\<close> has them, the error type
  (\<open>webhook-sdk/src/errors.rs\<close>) with its display texts, and the delivery and
  dead-letter structures (\<open>webhook-sdk/src/types.rs\<close>). A string is the list of its bytes. An
  instant of the monotonic clock, a UTC time and a duration are numbers of nanoseconds. The
  random identifier and the time that a constructor takes from the system are its
  arguments.
\<close>

section \<open>JSON values\<close>

text \<open>
  A number is a non-negative or a negative integer or a float, the latter given by its
  bits. The object is the list of its entries in the order of the sorted keys.
\<close>

datatype json_number = PosInt u64 | NegInt u64 | Float u64

datatype json =
    JNull | JBool bool | JNumber json_number | JString string
  | JArray "json list" | JObject "(string \<times> json) list"

type_synonym instant = nat
type_synonym duration = nat
type_synonym utc_time = int

section \<open>Errors\<close>

text \<open>An error of another library is carried as the text it displays.\<close>

datatype WebhookError =
    DeliveryFailed string
  | MaxRetriesExceeded
  | CircuitOpen_err
  | InvalidWebhookUrl string
  | StorageError string
  | SerializationError string
  | HttpError string
  | DatabaseError string
  | MissingSignatureHeader
  | MalformedSignatureHeader string
  | InvalidSignature_err

fun webhook_error_to_string :: "WebhookError \<Rightarrow> string" where
  "webhook_error_to_string (DeliveryFailed m) = ''Delivery failed: '' @ m"
| "webhook_error_to_string MaxRetriesExceeded = ''Max retries exceeded''"
| "webhook_error_to_string CircuitOpen_err =
     ''Circuit breaker open: refusing to call a repeatedly failing destination''"
| "webhook_error_to_string (InvalidWebhookUrl m) = ''Invalid webhook URL: '' @ m"
| "webhook_error_to_string (StorageError m) = ''Storage error: '' @ m"
| "webhook_error_to_string (SerializationError m) = ''Serialization error: '' @ m"
| "webhook_error_to_string (HttpError m) = ''HTTP error: '' @ m"
| "webhook_error_to_string (DatabaseError m) = ''Database error: '' @ m"
| "webhook_error_to_string MissingSignatureHeader = ''Missing signature header''"
| "webhook_error_to_string (MalformedSignatureHeader m) = ''Malformed signature header: '' @ m"
| "webhook_error_to_string InvalidSignature_err =
     ''Invalid signature: payload may have been tampered with''"

section \<open>Deliveries and dead letters\<close>

record WebhookDelivery =
  wd_id :: string
  wd_url :: string
  wd_payload :: json
  wd_status_code :: "u16 option"
  wd_response_body :: "string option"
  wd_attempt :: u32
  wd_error :: "string option"
  wd_created_at :: utc_time
  wd_last_attempted_at :: "utc_time option"
  wd_delivered :: bool

definition WebhookDelivery_new :: "string \<Rightarrow> utc_time \<Rightarrow> string \<Rightarrow> json \<Rightarrow> WebhookDelivery" where
  "WebhookDelivery_new uuid now url payload =
     \<lparr>wd_id = uuid, wd_url = url, wd_payload = payload, wd_status_code = None,
      wd_response_body = None, wd_attempt = 0, wd_error = None, wd_created_at = now,
      wd_last_attempted_at = None, wd_delivered = False\<rparr>"

record DeadLetter =
  dl_id :: string
  dl_delivery :: WebhookDelivery
  dl_reason :: string
  dl_dead_lettered_at :: utc_time

definition DeadLetter_from_delivery ::
  "string \<Rightarrow> utc_time \<Rightarrow> WebhookDelivery \<Rightarrow> string \<Rightarrow> DeadLetter" where
  "DeadLetter_from_delivery uuid now delivery reason =
     \<lparr>dl_id = uuid, dl_delivery = delivery, dl_reason = reason, dl_dead_lettered_at = now\<rparr>"

end
