(* ===== verification/Circuit_Breaker.thy ===== *)
theory Circuit_Breaker
  imports Webhook_Types
begin

text \<open>
  The circuit breaker (\<open>webhook-sdk/src/circuit_breaker.rs\<close>): one breaker with its
  permits, and the registry with one breaker per destination host. The operations take
  the current instant where the code reads the clock. Each runs under the breaker's lock, so
  the concurrent use of one breaker is an interleaving of whole operations: the step
  relation \<open>breaker_step\<close> over the breaker, the permits not yet resolved and the clock. The
  locale \<open>call_gate\<close> is what a client that makes one call at a time relies on.
\<close>

section \<open>One breaker\<close>

datatype CircuitState = Closed | Open | HalfOpen

record CircuitBreakerConfig =
  failure_threshold :: u32
  cooldown :: duration

definition CircuitBreakerConfig_default :: CircuitBreakerConfig where
  "CircuitBreakerConfig_default = \<lparr>failure_threshold = 5, cooldown = 30 * 10 ^ 9\<rparr>"

record Inner =
  cb_state :: CircuitState
  consecutive_failures :: u32
  opened_at :: "instant option"

definition CircuitBreaker_new :: Inner where
  "CircuitBreaker_new = \<lparr>cb_state = Closed, consecutive_failures = 0, opened_at = None\<rparr>"

text \<open>
  A permit is its \<open>is_probe\<close> flag; \<open>None\<close> is the refusal \<open>CircuitOpen\<close>. \<open>Instant::elapsed\<close>
  saturates at zero, as the subtraction of naturals does.
\<close>

record Permit =
  is_probe :: bool

definition cooldown_elapsed :: "CircuitBreakerConfig \<Rightarrow> instant \<Rightarrow> Inner \<Rightarrow> bool" where
  "cooldown_elapsed config now inner =
     (case opened_at inner of None \<Rightarrow> False | Some t \<Rightarrow> now - t \<ge> cooldown config)"

definition try_acquire ::
  "CircuitBreakerConfig \<Rightarrow> instant \<Rightarrow> Inner \<Rightarrow> Permit option \<times> Inner" where
  "try_acquire config now inner =
     (case cb_state inner of
        Closed \<Rightarrow> (Some \<lparr>is_probe = False\<rparr>, inner)
      | Open \<Rightarrow>
          if cooldown_elapsed config now inner
          then (Some \<lparr>is_probe = True\<rparr>, inner\<lparr>cb_state := HalfOpen\<rparr>)
          else (None, inner)
      | HalfOpen \<Rightarrow> (None, inner))"

definition record_success :: "bool \<Rightarrow> Inner \<Rightarrow> Inner" where
  "record_success probe inner =
     inner\<lparr>cb_state := Closed, consecutive_failures := 0, opened_at := None\<rparr>"

text \<open>
  The failure count is incremented under overflow checks; \<open>None\<close> is the panic at the end of
  the 32-bit range.
\<close>

definition record_failure ::
  "CircuitBreakerConfig \<Rightarrow> instant \<Rightarrow> bool \<Rightarrow> Inner \<Rightarrow> Inner option" where
  "record_failure config now probe inner =
     (if probe then Some (inner\<lparr>cb_state := Open, opened_at := Some now\<rparr>)
      else
        case checked_add (consecutive_failures inner) 1 of
          None \<Rightarrow> None
        | Some n \<Rightarrow>
            let inner = inner\<lparr>consecutive_failures := n\<rparr> in
            if n \<ge> failure_threshold config
            then Some (inner\<lparr>cb_state := Open, opened_at := Some now\<rparr>)
            else Some inner)"

definition Permit_success :: "Permit \<Rightarrow> Inner \<Rightarrow> Inner" where
  "Permit_success permit = record_success (is_probe permit)"

definition Permit_failure ::
  "CircuitBreakerConfig \<Rightarrow> instant \<Rightarrow> Permit \<Rightarrow> Inner \<Rightarrow> Inner option" where
  "Permit_failure config now permit = record_failure config now (is_probe permit)"

text \<open>Dropping a permit reports a failure unless its outcome was reported before.\<close>

definition Permit_drop ::
  "CircuitBreakerConfig \<Rightarrow> instant \<Rightarrow> bool \<Rightarrow> Permit \<Rightarrow> Inner \<Rightarrow> Inner option" where
  "Permit_drop config now resolved permit inner =
     (if \<not> resolved then record_failure config now (is_probe permit) inner else Some inner)"

section \<open>The registry\<close>

type_synonym breaker_map = "string \<rightharpoonup> Inner"

definition breaker_for :: "string \<Rightarrow> breaker_map \<Rightarrow> Inner \<times> breaker_map" where
  "breaker_for key breakers =
     (case breakers key of
        Some b \<Rightarrow> (b, breakers)
      | None \<Rightarrow> (CircuitBreaker_new, breakers(key \<mapsto> CircuitBreaker_new)))"

definition state_for :: "string \<Rightarrow> breaker_map \<Rightarrow> CircuitState option" where
  "state_for key breakers = map_option cb_state (breakers key)"

section \<open>Well-formed breakers\<close>

text \<open>
  The relation of the three fields: a closed breaker is below its threshold and has no
  opening time, any other has one.
\<close>

definition breaker_wf :: "CircuitBreakerConfig \<Rightarrow> Inner \<Rightarrow> bool" where
  "breaker_wf config b \<longleftrightarrow>
     (if cb_state b = Closed
      then opened_at b = None \<and>
           (consecutive_failures b = 0 \<or> consecutive_failures b < failure_threshold config)
      else opened_at b \<noteq> None)"

lemmas breaker_ops =
  try_acquire_def record_success_def record_failure_def Permit_success_def Permit_failure_def
  CircuitBreaker_new_def

lemma breaker_wf_new: "breaker_wf config CircuitBreaker_new"
  by (simp add: breaker_wf_def CircuitBreaker_new_def)

lemma breaker_wf_acquire: "breaker_wf config b \<Longrightarrow> breaker_wf config (snd (try_acquire config now b))"
  by (auto simp: breaker_wf_def try_acquire_def split: CircuitState.splits)

lemma breaker_wf_success: "breaker_wf config (record_success probe b)"
  by (simp add: breaker_wf_def record_success_def)

lemma breaker_wf_failure:
  "breaker_wf config b \<Longrightarrow> record_failure config now probe b = Some b' \<Longrightarrow> breaker_wf config b'"
  by (auto simp: breaker_wf_def record_failure_def Let_def split: if_splits option.splits)

section \<open>Interleaved use\<close>

record breaker_sys =
  bs_inner :: Inner
  bs_permits :: "Permit list"
  bs_now :: instant

inductive breaker_step :: "CircuitBreakerConfig \<Rightarrow> breaker_sys \<Rightarrow> breaker_sys \<Rightarrow> bool"
  for config :: CircuitBreakerConfig where
  granted: "try_acquire config (bs_now s) (bs_inner s) = (Some p, b) \<Longrightarrow>
     breaker_step config s (s\<lparr>bs_inner := b, bs_permits := p # bs_permits s\<rparr>)"
| refused: "try_acquire config (bs_now s) (bs_inner s) = (None, b) \<Longrightarrow>
     breaker_step config s (s\<lparr>bs_inner := b\<rparr>)"
| reported: "p \<in> set (bs_permits s) \<Longrightarrow>
     breaker_step config s
       (s\<lparr>bs_inner := Permit_success p (bs_inner s), bs_permits := remove1 p (bs_permits s)\<rparr>)"
| failed: "p \<in> set (bs_permits s) \<Longrightarrow>
     Permit_failure config (bs_now s) p (bs_inner s) = Some b \<Longrightarrow>
     breaker_step config s (s\<lparr>bs_inner := b, bs_permits := remove1 p (bs_permits s)\<rparr>)"
| dropped: "p \<in> set (bs_permits s) \<Longrightarrow>
     Permit_drop config (bs_now s) False p (bs_inner s) = Some b \<Longrightarrow>
     breaker_step config s (s\<lparr>bs_inner := b, bs_permits := remove1 p (bs_permits s)\<rparr>)"
| passed: "bs_now s \<le> now \<Longrightarrow> breaker_step config s (s\<lparr>bs_now := now\<rparr>)"

inductive_simps breaker_step_iff: "breaker_step config s t"

definition breaker_start :: "breaker_sys \<Rightarrow> bool" where
  "breaker_start s \<longleftrightarrow> bs_inner s = CircuitBreaker_new \<and> bs_permits s = []"

definition probes :: "Permit list \<Rightarrow> Permit list" where
  "probes ps = filter is_probe ps"

text \<open>
  The invariant of the interleaved use: the breaker is well-formed, was not opened in the
  future, and while it is half-open the permit of a probe is outstanding.
\<close>

definition breaker_inv :: "CircuitBreakerConfig \<Rightarrow> breaker_sys \<Rightarrow> bool" where
  "breaker_inv config s \<longleftrightarrow>
     breaker_wf config (bs_inner s) \<and>
     (\<forall>t. opened_at (bs_inner s) = Some t \<longrightarrow> t \<le> bs_now s) \<and>
     (cb_state (bs_inner s) = HalfOpen \<longrightarrow> (\<exists>p \<in> set (bs_permits s). is_probe p))"

lemma failure_state:
  "record_failure config now probe b = Some b' \<Longrightarrow>
     (opened_at b' = Some now \<and> cb_state b' = Open) \<or>
     (\<not> probe \<and> opened_at b' = opened_at b \<and> cb_state b' = cb_state b)"
  by (auto simp: record_failure_def Let_def split: if_splits option.splits)

lemma breaker_inv_failure:
  assumes "breaker_inv config s" and "p \<in> set (bs_permits s)"
    and "record_failure config (bs_now s) (is_probe p) (bs_inner s) = Some b"
  shows "breaker_inv config (s\<lparr>bs_inner := b, bs_permits := remove1 p (bs_permits s)\<rparr>)"
proof -
  have "\<exists>q \<in> set (remove1 p (bs_permits s)). is_probe q"
    if "cb_state b = HalfOpen"
  proof -
    have "\<not> is_probe p" and "cb_state (bs_inner s) = HalfOpen"
      using failure_state [OF assms(3)] that by auto
    then obtain q where "q \<in> set (bs_permits s)" "is_probe q"
      using assms(1) by (auto simp: breaker_inv_def)
    with \<open>\<not> is_probe p\<close> have "q \<in> set (remove1 p (bs_permits s))"
      by (metis in_set_remove1)
    with \<open>is_probe q\<close> show ?thesis by blast
  qed
  then show ?thesis
    using assms failure_state [OF assms(3)] breaker_wf_failure [OF _ assms(3)]
    by (auto simp: breaker_inv_def)
qed

lemma breaker_inv_step:
  assumes "breaker_inv config s" and "breaker_step config s t"
  shows "breaker_inv config t"
  using assms(2)
proof cases
  case (granted p b)
  then show ?thesis
    using assms(1) breaker_wf_acquire [of config "bs_inner s" "bs_now s"]
    by (auto simp: breaker_inv_def try_acquire_def split: CircuitState.splits if_splits)
next
  case (refused b)
  then show ?thesis
    using assms(1) by (auto simp: breaker_inv_def try_acquire_def split: CircuitState.splits if_splits)
next
  case (reported p)
  then show ?thesis
    by (auto simp: breaker_inv_def Permit_success_def breaker_wf_success)
      (simp_all add: record_success_def)
next
  case (failed p b)
  then show ?thesis using assms(1) breaker_inv_failure by (simp add: Permit_failure_def)
next
  case (dropped p b)
  then show ?thesis using assms(1) breaker_inv_failure by (simp add: Permit_drop_def)
next
  case (passed now)
  then show ?thesis using assms(1) by (auto simp: breaker_inv_def)
qed

interpretation breaker: invariant_system breaker_start "breaker_step config" "breaker_inv config"
  for config
proof (unfold_locales, goal_cases)
  case (1 s)
  then show ?case
    by (simp add: breaker_start_def breaker_inv_def breaker_wf_new) (simp add: CircuitBreaker_new_def)
next
  case (2 s t)
  then show ?case by (rule breaker_inv_step)
qed

section \<open>One call at a time\<close>

text \<open>
  What a client that acquires, calls and reports before it acquires again relies on: a
  refusal changes nothing, and whatever the outcome of the call, the gate is idle again, that
  is, waits for no outcome. The client's lemma is that any series of such calls leaves the
  gate idle.
\<close>

datatype call_outcome = CallOk | CallFailed

locale call_gate =
  fixes idle :: "'b \<Rightarrow> bool"
    and acquire :: "instant \<Rightarrow> 'b \<Rightarrow> 'p option \<times> 'b"
    and succeed :: "'p \<Rightarrow> 'b \<Rightarrow> 'b"
    and report_failure :: "instant \<Rightarrow> 'p \<Rightarrow> 'b \<Rightarrow> 'b option"
  assumes refused_same: "acquire now b = (None, b') \<Longrightarrow> b' = b"
    and succeed_idle: "idle b \<Longrightarrow> acquire now b = (Some p, b') \<Longrightarrow> idle (succeed p b')"
    and failure_idle: "idle b \<Longrightarrow> acquire now b = (Some p, b') \<Longrightarrow>
      report_failure later p b' = Some b'' \<Longrightarrow> idle b''"
begin

fun guarded_call :: "instant \<Rightarrow> instant \<Rightarrow> call_outcome \<Rightarrow> 'b \<Rightarrow> 'b option" where
  "guarded_call now later r b =
     (case acquire now b of
        (None, b') \<Rightarrow> Some b'
      | (Some p, b') \<Rightarrow>
          (case r of CallOk \<Rightarrow> Some (succeed p b') | CallFailed \<Rightarrow> report_failure later p b'))"

lemma guarded_call_idle: "idle b \<Longrightarrow> guarded_call now later r b = Some b' \<Longrightarrow> idle b'"
  by (auto dest: refused_same succeed_idle failure_idle split: prod.splits option.splits call_outcome.splits)

end

definition breaker_idle :: "CircuitBreakerConfig \<Rightarrow> Inner \<Rightarrow> bool" where
  "breaker_idle config b \<longleftrightarrow> breaker_wf config b \<and> cb_state b \<noteq> HalfOpen"

lemma breaker_refused_same: "try_acquire config now b = (None, b') \<Longrightarrow> b' = b"
  by (auto simp: try_acquire_def split: CircuitState.splits if_splits)

interpretation breaker_gate: call_gate "breaker_idle config" "try_acquire config" Permit_success
  "Permit_failure config" for config
proof (unfold_locales, goal_cases)
  case (1 now b b')
  then show ?case by (rule breaker_refused_same)
next
  case (2 b now p b')
  then show ?case
    by (simp add: breaker_idle_def Permit_success_def breaker_wf_success) (simp add: record_success_def)
next
  case (3 b now p b' later b'')
  have wf: "breaker_wf config b'"
    using 3(1,2) breaker_wf_acquire [of config b now] by (simp add: breaker_idle_def)
  have "cb_state b' = HalfOpen \<longrightarrow> is_probe p"
    using 3(1,2) by (auto simp: breaker_idle_def try_acquire_def split: CircuitState.splits if_splits)
  then show ?case
    using 3(3) failure_state [of config later "is_probe p" b' b''] breaker_wf_failure [OF wf]
    by (auto simp: breaker_idle_def Permit_failure_def)
qed

lemma breaker_idle_new: "breaker_idle config CircuitBreaker_new"
  by (simp add: breaker_idle_def breaker_wf_new) (simp add: CircuitBreaker_new_def)

text \<open>
  A dead destination: calls at the given times, each reported as a failure if it was let
  through; the result counts those that were.
\<close>

fun failing_calls :: "CircuitBreakerConfig \<Rightarrow> instant list \<Rightarrow> Inner \<Rightarrow> (nat \<times> Inner) option" where
  "failing_calls config [] b = Some (0, b)"
| "failing_calls config (now # ts) b =
     (case try_acquire config now b of
        (None, b') \<Rightarrow> failing_calls config ts b'
      | (Some p, b') \<Rightarrow>
          (case Permit_failure config now p b' of
             None \<Rightarrow> None
           | Some b'' \<Rightarrow> map_option (apfst Suc) (failing_calls config ts b'')))"

definition trip_count :: "CircuitBreakerConfig \<Rightarrow> nat" where
  "trip_count config = max 1 (unat (failure_threshold config))"

lemma failing_calls_open:
  "cb_state b = Open \<Longrightarrow> opened_at b = Some t0 \<Longrightarrow>
     \<forall>now \<in> set ts. now < t0 + cooldown config \<Longrightarrow> 0 < cooldown config \<Longrightarrow>
     failing_calls config ts b = Some (0, b)"
proof (induction ts)
  case (Cons now ts)
  have "now < t0 + cooldown config" using Cons.prems(3) by simp
  with Cons.prems(4) have "now - t0 < cooldown config" by linarith
  with Cons show ?case by (simp add: try_acquire_def cooldown_elapsed_def)
qed simp

lemma failing_calls_closed:
  assumes cool: "\<forall>now \<in> set ts. t0 \<le> now \<and> now < t0 + cooldown config"
    and "cb_state b = Closed" and "opened_at b = None"
    and "unat (consecutive_failures b) < trip_count config"
  shows "\<exists>b'. failing_calls config ts b =
       Some (min (length ts) (trip_count config - unat (consecutive_failures b)), b') \<and>
     (cb_state b' = (if length ts < trip_count config - unat (consecutive_failures b)
        then Closed else Open))"
  using assms
proof (induction ts arbitrary: b)
  case Nil
  then show ?case by simp
next
  case (Cons now ts)
  let ?n = "unat (consecutive_failures b)"
  have now: "t0 \<le> now" "now < t0 + cooldown config" using Cons.prems(1) by auto
  have bound: "?n + 1 < 2 ^ 32"
    using Cons.prems(4) unat_u32_bound [of "failure_threshold config"]
    by (auto simp: trip_count_def max_def split: if_splits)
  then have add: "checked_add (consecutive_failures b) 1 = Some (consecutive_failures b + 1)"
    and n1: "unat (consecutive_failures b + 1) = Suc ?n"
    by (simp_all add: checked_add_def unat_add_no_overflow)
  show ?case
  proof (cases "Suc ?n < trip_count config")
    case True
    then have below: "\<not> failure_threshold config \<le> consecutive_failures b + 1"
      by (auto simp: trip_count_def word_le_nat_alt n1)
    let ?b = "b\<lparr>consecutive_failures := consecutive_failures b + 1\<rparr>"
    obtain b' where "failing_calls config ts ?b =
        Some (min (length ts) (trip_count config - Suc ?n), b')"
      "cb_state b' = (if length ts < trip_count config - Suc ?n then Closed else Open)"
      using Cons.IH [of ?b] Cons.prems True n1 by auto
    then show ?thesis
      using Cons.prems(2) add below True
      by (simp add: try_acquire_def Permit_failure_def record_failure_def Let_def)
        (auto simp: min_def)
  next
    case False
    with Cons.prems(4) have last: "trip_count config - ?n = 1" by simp
    have above: "failure_threshold config \<le> consecutive_failures b + 1"
      using False by (auto simp: trip_count_def word_le_nat_alt n1)
    let ?b = "b\<lparr>consecutive_failures := consecutive_failures b + 1, cb_state := Open,
        opened_at := Some now\<rparr>"
    have "failing_calls config ts ?b = Some (0, ?b)"
      using Cons.prems(1) now by (intro failing_calls_open) auto
    then show ?thesis
      using Cons.prems(2) add above last
      by (simp add: try_acquire_def Permit_failure_def record_failure_def Let_def)
  qed
qed

section \<open>Properties\<close>

definition demo_breaker_config :: CircuitBreakerConfig where
  "demo_breaker_config = \<lparr>failure_threshold = 1, cooldown = 10\<rparr>"

text \<open>
  C24. A destination that fails every call is called exactly threshold-many times
  within a cooldown (once, for the threshold 0), however many calls are attempted, and
  the breaker is open from then on; below the threshold it stays closed and lets every
  call through.
\<close>

theorem breaker_trips:
  assumes "\<forall>now \<in> set ts. t0 \<le> now \<and> now < t0 + cooldown config"
  shows "\<exists>b. failing_calls config ts CircuitBreaker_new =
       Some (min (length ts) (trip_count config), b) \<and>
     cb_state b = (if length ts < trip_count config then Closed else Open)"
  using failing_calls_closed [OF assms, of CircuitBreaker_new]
  by (simp add: CircuitBreaker_new_def trip_count_def)

theorem breaker_trips_witness:
  "\<exists>b. failing_calls demo_breaker_config [100, 101, 102] CircuitBreaker_new = Some (1, b) \<and>
     cb_state b = Open"
  using breaker_trips [of "[100, 101, 102]" 100 demo_breaker_config]
  by (simp add: demo_breaker_config_def trip_count_def del: failing_calls.simps)

text \<open>
  The breaker never gets stuck: in every state of its interleaved use with the invariant and with
  no permit outstanding it is not half-open, and one cooldown later a call is let through.
  While the cooldown has not passed, an open breaker refuses and stays as it is.
\<close>

lemma breaker_never_stuck:
  assumes inv: "breaker_inv config s" and "bs_permits s = []"
  shows "cb_state (bs_inner s) \<noteq> HalfOpen \<and>
     (bs_now s + cooldown config \<le> now \<longrightarrow> fst (try_acquire config now (bs_inner s)) \<noteq> None) \<and>
     (\<forall>t. cb_state (bs_inner s) = Open \<and> opened_at (bs_inner s) = Some t \<and> now < t + cooldown config
        \<and> t \<le> now \<longrightarrow> try_acquire config now (bs_inner s) = (None, bs_inner s))"
proof -
  have idle: "cb_state (bs_inner s) \<noteq> HalfOpen" using assms by (simp add: breaker_inv_def)
  have opened: "\<exists>t. opened_at (bs_inner s) = Some t \<and> t \<le> bs_now s" if "cb_state (bs_inner s) = Open"
    using inv that by (auto simp: breaker_inv_def breaker_wf_def)
  show ?thesis
    using idle opened
    by (auto simp: try_acquire_def cooldown_elapsed_def split: CircuitState.split)
qed

text \<open>
  C25. Two probes can be in flight at once: when two calls were let through while the
  breaker was closed and both fail, the second failure arriving after the cooldown and the
  first probe, the half-open breaker is opened again under the probe and hands out a second
  one after another cooldown.
\<close>

theorem two_probes_in_flight:
  "\<exists>s. reach breaker_start (breaker_step demo_breaker_config) s \<and> length (probes (bs_permits s)) = 2"
proof -
  let ?c = demo_breaker_config
  let ?p = "\<lparr>is_probe = False\<rparr>" and ?q = "\<lparr>is_probe = True\<rparr>"
  let ?open = "\<lambda>n t. \<lparr>cb_state = Open, consecutive_failures = n, opened_at = Some t\<rparr>"
  let ?half = "\<lambda>n t. \<lparr>cb_state = HalfOpen, consecutive_failures = n, opened_at = Some t\<rparr>"
  let ?s = "\<lambda>b ps now. \<lparr>bs_inner = b, bs_permits = ps, bs_now = now\<rparr>"
  note defs = demo_breaker_config_def breaker_ops checked_add_def cooldown_elapsed_def
  have s0: "reach breaker_start (breaker_step ?c) (?s CircuitBreaker_new [] 0)"
    by (rule reach.reach_init) (simp add: breaker_start_def)
  have s1: "reach breaker_start (breaker_step ?c) (?s CircuitBreaker_new [?p] 0)"
    using reach.reach_step [OF s0 granted [of _ _ ?p CircuitBreaker_new]] by (simp add: defs)
  have s2: "reach breaker_start (breaker_step ?c) (?s CircuitBreaker_new [?p, ?p] 0)"
    using reach.reach_step [OF s1 granted [of _ _ ?p CircuitBreaker_new]] by (simp add: defs)
  have s3: "reach breaker_start (breaker_step ?c) (?s (?open 1 0) [?p] 0)"
    using reach.reach_step [OF s2 failed [of ?p _ _ "?open 1 0"]] by (simp add: defs)
  have s4: "reach breaker_start (breaker_step ?c) (?s (?open 1 0) [?p] 10)"
    using reach.reach_step [OF s3 passed [of _ 10]] by simp
  have s5: "reach breaker_start (breaker_step ?c) (?s (?half 1 0) [?q, ?p] 10)"
    using reach.reach_step [OF s4 granted [of _ _ ?q "?half 1 0"]] by (simp add: defs)
  have s6: "reach breaker_start (breaker_step ?c) (?s (?open 2 10) [?q] 10)"
    using reach.reach_step [OF s5 failed [of ?p _ _ "?open 2 10"]] by (simp add: defs)
  have s7: "reach breaker_start (breaker_step ?c) (?s (?open 2 10) [?q] 20)"
    using reach.reach_step [OF s6 passed [of _ 20]] by simp
  have s8: "reach breaker_start (breaker_step ?c) (?s (?half 2 10) [?q, ?q] 20)"
    using reach.reach_step [OF s7 granted [of _ _ ?q "?half 2 10"]] by (simp add: defs)
  have "length (probes (bs_permits (?s (?half 2 10) [?q, ?q] 20))) = 2" by (simp add: probes_def)
  with s8 show ?thesis by blast
qed

end
