(* ===== verification/Retry.thy ===== *)
theory Retry
  imports Webhook_Types Float64
begin

text \<open>
  Retry with backoff (\<open>webhook-sdk/src/retry.rs\<close>), over the binary64 operations of \<open>Float64\<close>. The
  precision of \<open>powi\<close> is left open by Rust, so it is a parameter.
\<close>

section \<open>Operations\<close>

definition as_millis :: "duration \<Rightarrow> nat" where
  "as_millis d = d div 10 ^ 6"

definition from_millis :: "u64 \<Rightarrow> duration" where
  "from_millis ms = unat ms * 10 ^ 6"

record RetryConfig =
  max_retries :: u32
  initial_backoff :: duration
  max_backoff :: duration
  backoff_multiplier :: f64

definition RetryConfig_default :: RetryConfig where
  "RetryConfig_default =
     \<lparr>max_retries = 5, initial_backoff = 100 * 10 ^ 6, max_backoff = 60 * 10 ^ 9,
      backoff_multiplier = Finite 2 0\<rparr>"

definition backoff_duration :: "(f64 \<Rightarrow> int \<Rightarrow> f64) \<Rightarrow> RetryConfig \<Rightarrow> u32 \<Rightarrow> duration" where
  "backoff_duration pow_i config attempt =
     (let backoff_ms = f64_mul (f64_of_nat (as_millis (initial_backoff config)))
                         (pow_i (backoff_multiplier config) (sint attempt));
          capped = f64_to_u64 (f64_min backoff_ms (f64_of_nat (as_millis (max_backoff config))))
      in from_millis capped)"

definition should_retry :: "RetryConfig \<Rightarrow> u32 \<Rightarrow> bool" where
  "should_retry config attempt = (attempt < max_retries config)"

section \<open>Facts\<close>

lemma backoff_le_max:
  assumes "as_millis (max_backoff config) < 2 ^ 53"
  shows "backoff_duration pow_i config attempt \<le> max_backoff config"
proof -
  let ?n = "as_millis (max_backoff config)"
  have "unat (f64_to_u64 (f64_min x (f64_of_nat ?n))) \<le> ?n" for x
    using f64_to_u64_min [of ?n x] assms by (simp add: f64_of_nat_exact)
  then have "backoff_duration pow_i config attempt \<le> ?n * 10 ^ 6"
    by (simp add: backoff_duration_def Let_def from_millis_def)
  also have "\<dots> \<le> max_backoff config" by (simp add: as_millis_def)
  finally show ?thesis .
qed

text \<open>The default schedule, with an exact power of two.\<close>

lemma default_backoff:
  assumes "pow_i (Finite 2 0) (int n) = Finite 1 (int n)" and "n \<le> 900"
  shows "backoff_duration pow_i RetryConfig_default (word_of_nat n) = min (100 * 2 ^ n) 60000 * 10 ^ 6"
proof -
  have n: "sint (word_of_nat n :: u32) = int n"
    using assms(2) by (simp add: signed_of_nat signed_take_bit_int_eq_self)
  have prod: "f64_mul (f64_of_nat 100) (Finite 1 (int n)) = Finite 100 (int n)"
    using assms(2) by (simp add: f64_of_nat_exact round_f64_exact)
  have capped: "unat (f64_to_u64 (f64_min (Finite 100 (int n)) (Finite 60000 0))) = min (100 * 2 ^ n) 60000"
  proof (cases "(100 :: nat) * 2 ^ n \<le> 60000")
    case True
    then have le: "(100 :: int) * 2 ^ n \<le> 60000" by (simp flip: of_nat_le_iff [where 'a = int])
    have "unat (word_of_int (100 * 2 ^ n) :: u64) = nat (100 * 2 ^ n)"
      using le by (intro unat_u64_of_int) simp_all
    then have "unat (f64_to_u64 (Finite 100 (int n))) = 100 * 2 ^ n"
      using le by (simp add: truncated_def Let_def nat_mult_distrib nat_power_eq)
    then show ?thesis using True le by (simp add: f64_min_def)
  next
    case False
    then have "\<not> (100 :: int) * 2 ^ n \<le> 60000" by (simp flip: of_nat_le_iff [where 'a = int])
    with False show ?thesis by (simp add: f64_min_def truncated_def)
  qed
  have ms: "as_millis (initial_backoff RetryConfig_default) = 100"
    "as_millis (max_backoff RetryConfig_default) = 60000"
    "backoff_multiplier RetryConfig_default = Finite 2 0"
    by (simp_all add: RetryConfig_default_def as_millis_def)
  have cap: "f64_of_nat 60000 = Finite 60000 0" by (simp add: f64_of_nat_exact)
  have "backoff_duration pow_i RetryConfig_default (word_of_nat n) =
      from_millis (f64_to_u64 (f64_min (Finite 100 (int n)) (Finite 60000 0)))"
    by (simp only: backoff_duration_def Let_def ms n assms(1) prod cap)
  then show ?thesis using capped by (simp add: from_millis_def)
qed

section \<open>Properties\<close>

text \<open>
  No backoff exceeds the configured maximum, whatever the multiplier and the attempt
  and however \<open>powi\<close> rounds, overflows or fails, for every maximum below \<open>2 ^ 53\<close>
  milliseconds; and under the default configuration, with an exact power of two, the
  backoff of attempt \<open>n\<close> is \<open>100 * 2 ^ n\<close> milliseconds, cut off at one minute.
\<close>

lemma backoff_bounded:
  assumes "as_millis (max_backoff config) < 2 ^ 53"
    and "pow_i (Finite 2 0) (int n) = Finite 1 (int n)" and "n \<le> 900"
  shows "backoff_duration pow_i config attempt \<le> max_backoff config \<and>
     backoff_duration pow_i RetryConfig_default (word_of_nat n) = min (100 * 2 ^ n) 60000 * 10 ^ 6"
  using assms by (simp add: backoff_le_max default_backoff)

end
