(* ===== verification/Log_Redaction.thy ===== *)
theory Log_Redaction
  imports Webhook_Types
begin

text \<open>
  Request and response logging with redaction (\<open>webhook-sdk/src/logging.rs\<close>). A log sink is
  the list of lines written to it. The JSON printer and parser of \<open>serde_json\<close> are the
  parameters \<open>to_str\<close> and \<open>from_str\<close>; \<open>Inl\<close> is their error.
\<close>

type_synonym json_printer = "json \<Rightarrow> string + string"
type_synonym json_parser = "string \<Rightarrow> string + json"

section \<open>What is a secret\<close>

definition REDACTED :: string where "REDACTED = ''[REDACTED]''"

definition SENSITIVE_HEADER_NAMES :: "string list" where
  "SENSITIVE_HEADER_NAMES = [''authorization'', ''cookie'', ''set-cookie'', ''x-api-key'']"

definition SENSITIVE_KEY_NAMES :: "string list" where
  "SENSITIVE_KEY_NAMES =
     [''authorization'', ''token'', ''access_token'', ''refresh_token'', ''api_key'', ''apikey'',
      ''secret'', ''password'', ''jwt'', ''client_secret'']"

definition is_jwt_shaped :: "string \<Rightarrow> bool" where
  "is_jwt_shaped s =
     (let segments = split_on (CHR ''.'') s in
      length segments = 3 \<and>
      list_all (\<lambda>seg. seg \<noteq> [] \<and>
        list_all (\<lambda>c. is_ascii_alphanumeric_char c \<or> c = CHR ''-'' \<or> c = CHR ''_'') seg) segments)"

definition sensitive_key :: "string \<Rightarrow> bool" where
  "sensitive_key key = List.member SENSITIVE_KEY_NAMES (to_ascii_lowercase key)"

section \<open>Redaction\<close>

definition redact_headers :: "(string \<times> string) list \<Rightarrow> (string \<times> string) list" where
  "redact_headers headers =
     map (\<lambda>(name, content).
       let redact = List.member SENSITIVE_HEADER_NAMES (to_ascii_lowercase name) \<or> is_jwt_shaped content
       in (name, if redact then REDACTED else content)) headers"

lemma size_entry: "(k, v) \<in> set entries \<Longrightarrow> size v < size (JObject entries)"
proof -
  assume "(k, v) \<in> set entries"
  then have "size_prod (\<lambda>_. 0) size (k, v) \<le> size_list (size_prod (\<lambda>_. 0) size) entries"
    by (rule size_list_estimation') simp
  then show ?thesis by simp
qed

lemma size_item: "v \<in> set items \<Longrightarrow> size v < size (JArray items)"
  using size_list_estimation' [of v items "size v" size] by simp

function redact_body :: "json \<Rightarrow> json" and redact_scalar_or_recurse :: "json \<Rightarrow> json" where
  "redact_body (JObject entries) =
     JObject (map (\<lambda>(key, v).
       (key, if sensitive_key key then redact_scalar_or_recurse v else redact_body v)) entries)"
| "redact_body (JArray items) = JArray (map redact_body items)"
| "redact_body (JString s) = (if is_jwt_shaped s then JString REDACTED else JString s)"
| "redact_body JNull = JNull"
| "redact_body (JBool b) = JBool b"
| "redact_body (JNumber n) = JNumber n"
| "redact_scalar_or_recurse (JObject entries) = redact_body (JObject entries)"
| "redact_scalar_or_recurse (JArray items) = redact_body (JArray items)"
| "redact_scalar_or_recurse JNull = JNull"
| "redact_scalar_or_recurse (JString s) = JString REDACTED"
| "redact_scalar_or_recurse (JNumber n) = JString REDACTED"
| "redact_scalar_or_recurse (JBool b) = JString REDACTED"
  by pat_completeness auto

termination
  by (relation "measure (\<lambda>x. case x of Inl v \<Rightarrow> 2 * size v | Inr v \<Rightarrow> 2 * size v + 1)")
    (auto dest: size_entry size_item)

section \<open>Log lines\<close>

record LoggingConfig =
  lc_redact :: bool

definition LoggingConfig_default :: LoggingConfig where
  "LoggingConfig_default = \<lparr>lc_redact = True\<rparr>"

definition LoggingConfig_new :: LoggingConfig where
  "LoggingConfig_new = LoggingConfig_default"

definition LoggingConfig_with_sink :: LoggingConfig where
  "LoggingConfig_with_sink = \<lparr>lc_redact = True\<rparr>"

definition without_redaction :: "LoggingConfig \<Rightarrow> LoggingConfig" where
  "without_redaction config = config\<lparr>lc_redact := False\<rparr>"

definition is_redacting :: "LoggingConfig \<Rightarrow> bool" where
  "is_redacting config = lc_redact config"

definition write_line :: "string \<Rightarrow> string list \<Rightarrow> string list" where
  "write_line line sink = sink @ [line]"

definition or_empty :: "string + string \<Rightarrow> string" where
  "or_empty r = (case r of Inl _ \<Rightarrow> [] | Inr s \<Rightarrow> s)"

definition log_request ::
  "json_printer \<Rightarrow> LoggingConfig \<Rightarrow> string \<Rightarrow> string \<Rightarrow> (string \<times> string) list \<Rightarrow> json
     \<Rightarrow> string list \<Rightarrow> string list" where
  "log_request to_str config verb url headers body sink =
     (let (headers, body) =
            (if lc_redact config then (redact_headers headers, redact_body body) else (headers, body))
      in write_line (''[webhook-sdk] request method='' @ verb @ '' url='' @ url @ '' headers='' @
           or_empty (to_str (JObject (map (apsnd JString) headers))) @ '' body='' @
           or_empty (to_str body)) sink)"

definition log_response ::
  "json_printer \<Rightarrow> json_parser \<Rightarrow> LoggingConfig \<Rightarrow> string \<Rightarrow> u16 option \<Rightarrow> string option
     \<Rightarrow> string option \<Rightarrow> string list \<Rightarrow> string list" where
  "log_response to_str from_str config url status body err sink =
     (let logged_body = map_option (\<lambda>b.
            case from_str b of
              Inr parsed \<Rightarrow>
                let redacted = (if lc_redact config then redact_body parsed else parsed)
                in or_empty (to_str redacted)
            | Inl _ \<Rightarrow> if lc_redact config \<and> is_jwt_shaped b then REDACTED else b) body
      in write_line (''[webhook-sdk] response url='' @ url @ '' status='' @
           (case status of None \<Rightarrow> ''-'' | Some s \<Rightarrow> show_nat (unat s)) @ '' body='' @
           (case logged_body of None \<Rightarrow> ''-'' | Some b \<Rightarrow> b) @ '' error='' @
           (case err of None \<Rightarrow> ''-'' | Some m \<Rightarrow> m)) sink)"

section \<open>Redaction, node by node\<close>

lemma REDACTED_not_jwt [simp]: "\<not> is_jwt_shaped REDACTED"
  by (simp add: is_jwt_shaped_def REDACTED_def Let_def)

text \<open>
  A path gives the positions to descend by. The node at a path comes with the object key it is stored
  under directly; the root and the items of an array are under none.
\<close>

fun node_at :: "nat list \<Rightarrow> string option \<Rightarrow> json \<Rightarrow> (string option \<times> json) option" where
  "node_at [] key v = Some (key, v)"
| "node_at (i # path) key (JObject entries) =
     (if i < length entries then node_at path (Some (fst (entries ! i))) (snd (entries ! i)) else None)"
| "node_at (i # path) key (JArray items) =
     (if i < length items then node_at path None (items ! i) else None)"
| "node_at (i # path) key _ = None"

text \<open>What a node is by itself: a scalar or null, the keys of an object, the length of an array.\<close>

fun head_of :: "json \<Rightarrow> json" where
  "head_of (JObject entries) = JObject (map (\<lambda>(key, _). (key, JNull)) entries)"
| "head_of (JArray items) = JArray (map (\<lambda>_. JNull) items)"
| "head_of v = v"

definition shown :: "nat list \<Rightarrow> json \<Rightarrow> json option" where
  "shown path v = map_option (\<lambda>(_, n). head_of n) (node_at path None v)"

fun scalar :: "json \<Rightarrow> bool" where
  "scalar (JString s) = True"
| "scalar (JNumber n) = True"
| "scalar (JBool b) = True"
| "scalar _ = False"

definition under_sensitive :: "string option \<Rightarrow> bool" where
  "under_sensitive key = (case key of None \<Rightarrow> False | Some k \<Rightarrow> sensitive_key k)"

lemma under_sensitive_simps [simp]:
  "\<not> under_sensitive None" "under_sensitive (Some k) = sensitive_key k"
  by (simp_all add: under_sensitive_def)

text \<open>A node is secret when it is a scalar directly under a sensitive key or a string shaped like a JWT.\<close>

definition secret :: "string option \<Rightarrow> json \<Rightarrow> bool" where
  "secret key v \<longleftrightarrow>
     scalar v \<and> under_sensitive key \<or> (case v of JString s \<Rightarrow> is_jwt_shaped s | _ \<Rightarrow> False)"

definition blanked :: "string option \<times> json \<Rightarrow> json" where
  "blanked = (\<lambda>(key, n). if secret key n then JString REDACTED else head_of n)"

lemma redact_scalar [simp]: "scalar v \<Longrightarrow> redact_scalar_or_recurse v = JString REDACTED"
  by (cases v) simp_all

lemma redact_recurse:
  "redact_scalar_or_recurse v = (if scalar v then JString REDACTED else redact_body v)"
  by (cases v) simp_all

lemma redact_nodes:
  "map_option (\<lambda>(_, n). head_of n)
     (node_at path key (if under_sensitive key then redact_scalar_or_recurse v else redact_body v)) =
   map_option blanked (node_at path key v)"
proof (induction path arbitrary: key v)
  case Nil
  show ?case by (cases v) (auto simp: redact_recurse blanked_def secret_def)
next
  case (Cons i path)
  show ?case
  proof (cases v)
    case (JArray items)
    then show ?thesis using Cons [of None "items ! i"] by (simp add: redact_recurse)
  next
    case (JObject entries)
    then show ?thesis
      using Cons [of "Some (fst (entries ! i))" "snd (entries ! i)"]
      by (simp add: redact_recurse case_prod_beta)
  qed (auto simp: redact_recurse)
qed

lemma shown_redact: "shown path (redact_body v) = map_option blanked (node_at path None v)"
  using redact_nodes [of path None v] by (simp add: shown_def)

lemma node_at_key: "map_option snd (node_at path key v) = map_option snd (node_at path key' v)"
  by (cases "(path, key, v)" rule: node_at.cases) simp_all

lemma shown_key: "map_option (\<lambda>(_, n). head_of n) (node_at path key v) = shown path v"
  using arg_cong [OF node_at_key [of path key v None], of "map_option head_of"]
  by (simp add: shown_def option.map_comp case_prod_beta' comp_def)

lemma shown_Nil [simp]: "shown [] v = Some (head_of v)"
  by (simp add: shown_def)

lemma shown_Cons [simp]:
  "shown (i # path) (JArray items) = (if i < length items then shown path (items ! i) else None)"
  "shown (i # path) (JObject entries) =
     (if i < length entries then shown path (snd (entries ! i)) else None)"
  using shown_key [of path "Some (fst (entries ! i))" "snd (entries ! i)"]
  by (simp_all add: shown_def)

text \<open>A value is determined by what its nodes show.\<close>

lemma shown_inject: "(\<And>path. shown path v = shown path w) \<Longrightarrow> v = w"
proof (induction v arbitrary: w)
  case (JArray items)
  obtain items' where w: "w = JArray items'" and len: "length items = length items'"
    using JArray.prems [of "[]"] by (cases w) (auto dest: map_eq_imp_length_eq)
  have "items ! i = items' ! i" if "i < length items" for i
  proof (rule JArray.IH)
    show "items ! i \<in> set items" using that by simp
    show "shown path (items ! i) = shown path (items' ! i)" for path
      using JArray.prems [of "i # path"] that len w by simp
  qed
  then show ?case using w len by (simp add: nth_equalityI)
next
  case (JObject entries)
  obtain entries' where w: "w = JObject entries'"
    and heads: "map (\<lambda>(key, _). (key, JNull)) entries = map (\<lambda>(key, _). (key, JNull)) entries'"
    using JObject.prems [of "[]"] by (cases w) auto
  have len: "length entries = length entries'" using heads by (rule map_eq_imp_length_eq)
  have "entries ! i = entries' ! i" if i: "i < length entries" for i
  proof (rule prod_eqI)
    show "fst (entries ! i) = fst (entries' ! i)"
      using arg_cong [OF heads, of "\<lambda>xs. fst (xs ! i)"] i len by (simp add: case_prod_beta)
    show "snd (entries ! i) = snd (entries' ! i)"
    proof (rule JObject.IH)
      show "entries ! i \<in> set entries" using i by simp
      show "snd (entries ! i) \<in> Basic_BNFs.snds (entries ! i)" by (simp add: prod_set_simps snds.intros)
      show "shown path (snd (entries ! i)) = shown path (snd (entries' ! i))" for path
        using JObject.prems [of "i # path"] i len w by simp
    qed
  qed
  then show ?case using w len by (simp add: nth_equalityI)
next
  case JNull
  show ?case using JNull.prems [of "[]"] by (cases w) simp_all
next
  case (JBool b)
  show ?case using JBool.prems [of "[]"] by (cases w) simp_all
next
  case (JNumber n)
  show ?case using JNumber.prems [of "[]"] by (cases w) simp_all
next
  case (JString s)
  show ?case using JString.prems [of "[]"] by (cases w) simp_all
qed

text \<open>
  Nothing else is a secret to the code: neither what is nested in an array or an object under a
  sensitive key, nor a key, nor null.
\<close>

lemma nested_secrets_survive:
  assumes "v \<in> {JArray [JString s], JObject [(key, JString s)], JNull}"
    and "\<not> is_jwt_shaped s" and "\<not> sensitive_key key"
  shows "redact_body (JObject [(''password'', v)]) = JObject [(''password'', v)]"
  using assms by (auto simp: redact_recurse)

lemma keys_survive: "redact_body (JObject entries) = JObject entries' \<Longrightarrow> map fst entries' = map fst entries"
  by auto

lemma redact_again:
  "redact_body (redact_body v) = redact_body v"
  "redact_scalar_or_recurse (redact_scalar_or_recurse v) = redact_scalar_or_recurse v"
  by (induction v and v rule: redact_body_redact_scalar_or_recurse.induct) (auto split: if_splits)

section \<open>The public part\<close>

text \<open>
  A string the log shows as the placeholder: one that is shaped like a JWT, or the placeholder itself.
\<close>

definition hidden :: "string \<Rightarrow> bool" where
  "hidden s \<longleftrightarrow> is_jwt_shaped s \<or> s = REDACTED"

text \<open>
  Two values with the same public part: they differ at most in hidden strings, and in scalars directly
  under a sensitive key. What is nested deeper under a sensitive key is public, and so are keys.
\<close>

inductive same_public :: "json \<Rightarrow> json \<Rightarrow> bool" where
  same_value: "same_public v v"
| same_hidden: "hidden s \<Longrightarrow> hidden t \<Longrightarrow> same_public (JString s) (JString t)"
| same_array: "list_all2 same_public vs ws \<Longrightarrow> same_public (JArray vs) (JArray ws)"
| same_object: "list_all2 (\<lambda>x y. fst x = fst y \<and>
       (same_public (snd x) (snd y) \<or>
        sensitive_key (fst x) \<and> scalar (snd x) \<and> scalar (snd y))) vs ws \<Longrightarrow>
     same_public (JObject vs) (JObject ws)"

definition redact_entry :: "string \<times> json \<Rightarrow> string \<times> json" where
  "redact_entry = (\<lambda>(key, v). (key, if sensitive_key key then redact_scalar_or_recurse v else redact_body v))"

lemma redact_body_object: "redact_body (JObject entries) = JObject (map redact_entry entries)"
  by (simp add: redact_entry_def)

lemma same_public_scalar: "same_public v w \<Longrightarrow> scalar v = scalar w"
  by (induction rule: same_public.induct) simp_all

lemma redact_same_public: "same_public v w \<Longrightarrow> redact_body v = redact_body w"
proof (induction rule: same_public.induct)
  case (same_array vs ws)
  then have "map redact_body vs = map redact_body ws"
    by (induction rule: list_all2_induct) auto
  then show ?case by simp
next
  case (same_object vs ws)
  then have "map redact_entry vs = map redact_entry ws"
  proof (induction rule: list_all2_induct)
    case (Cons x xs y ys)
    then show ?case
      using same_public_scalar [of "snd x" "snd y"]
      by (cases x; cases y) (auto simp: redact_recurse redact_entry_def)
  qed simp
  then show ?case by (simp only: redact_body_object)
qed (auto simp: hidden_def)

lemma redact_body_scalar: "redact_body v = JString s \<Longrightarrow> scalar v"
  by (cases v) simp_all

lemma list_all2_map_eqI:
  "map f xs = map g ys \<Longrightarrow> (\<And>x y. x \<in> set xs \<Longrightarrow> f x = g y \<Longrightarrow> P x y) \<Longrightarrow> list_all2 P xs ys"
  by (induction xs arbitrary: ys) (auto simp: Cons_eq_map_conv)

lemma same_public_entry:
  assumes "redact_entry x = redact_entry y"
    and "\<And>w. redact_body (snd x) = redact_body w \<Longrightarrow> same_public (snd x) w"
  shows "fst x = fst y \<and> (same_public (snd x) (snd y) \<or>
     sensitive_key (fst x) \<and> scalar (snd x) \<and> scalar (snd y))"
  using assms redact_body_scalar [of "snd x" REDACTED] redact_body_scalar [of "snd y" REDACTED]
  by (cases x; cases y) (auto simp: redact_entry_def redact_recurse eq_commute split: if_splits)

lemma redact_eq_same_public: "redact_body v = redact_body w \<Longrightarrow> same_public v w"
proof (induction v arbitrary: w)
  case (JString s)
  then show ?case by (cases w) (auto simp: hidden_def intro: same_public.intros split: if_splits)
next
  case (JArray items)
  obtain items' where w: "w = JArray items'" and eq: "map redact_body items = map redact_body items'"
    using JArray.prems by (cases w) (auto split: if_splits)
  show ?case unfolding w
    by (rule same_array, rule list_all2_map_eqI [OF eq]) (use JArray.IH in blast)
next
  case (JObject entries)
  obtain entries' where w: "w = JObject entries'" and eq: "map redact_entry entries = map redact_entry entries'"
    using JObject.prems unfolding redact_body_object
    by (cases w) (auto simp: redact_body_object simp del: redact_body.simps(1) split: if_splits)
  show ?case unfolding w
    by (rule same_object, rule list_all2_map_eqI [OF eq], rule same_public_entry)
      (use JObject.IH in \<open>auto simp: prod_set_defs\<close>)
next
  case JNull
  then show ?case by (cases w) (simp_all add: same_value split: if_splits)
next
  case (JBool b)
  then show ?case by (cases w) (simp_all add: same_value split: if_splits)
next
  case (JNumber n)
  then show ?case by (cases w) (simp_all add: same_value split: if_splits)
qed

lemma same_public_iff: "same_public v w \<longleftrightarrow> redact_body v = redact_body w"
  using redact_same_public redact_eq_same_public by blast

text \<open>Headers with the same public part.\<close>

definition sensitive_header :: "string \<Rightarrow> bool" where
  "sensitive_header name = List.member SENSITIVE_HEADER_NAMES (to_ascii_lowercase name)"

definition same_public_headers :: "(string \<times> string) list \<Rightarrow> (string \<times> string) list \<Rightarrow> bool" where
  "same_public_headers hs hs' = list_all2 (\<lambda>x y. fst x = fst y \<and>
     (snd x = snd y \<or> sensitive_header (fst x) \<or> hidden (snd x) \<and> hidden (snd y))) hs hs'"

lemma same_public_headers_iff: "same_public_headers hs hs' \<longleftrightarrow> redact_headers hs = redact_headers hs'"
proof -
  have "redact_headers hs = redact_headers hs' \<longleftrightarrow>
    list_all2 (\<lambda>x y. redact_headers [x] = redact_headers [y]) hs hs'"
    by (induction hs hs' rule: list_induct2')
      (auto simp: redact_headers_def)
  moreover have "redact_headers [x] = redact_headers [y] \<longleftrightarrow> fst x = fst y \<and>
     (snd x = snd y \<or> sensitive_header (fst x) \<or> hidden (snd x) \<and> hidden (snd y))" for x y
    by (cases x; cases y) (auto simp: redact_headers_def sensitive_header_def hidden_def Let_def)
  ultimately show ?thesis by (simp add: same_public_headers_def)
qed

text \<open>A printer and a parser that read a value back as it was printed.\<close>

definition prints_back :: "json_printer \<Rightarrow> json_parser \<Rightarrow> json \<Rightarrow> bool" where
  "prints_back to_str from_str v = (case to_str v of Inl _ \<Rightarrow> False | Inr s \<Rightarrow> from_str s = Inr v)"

lemma prints_back_inject:
  "prints_back to_str from_str v \<Longrightarrow> prints_back to_str from_str w \<Longrightarrow>
   or_empty (to_str v) = or_empty (to_str w) \<Longrightarrow> v = w"
  by (auto simp: prints_back_def or_empty_def split: sum.splits)

section \<open>Properties\<close>

text \<open>
  C26. Redaction, node by node. The redacted body is the one value whose nodes show what those of the
  original show, with the placeholder for every scalar (string, number or boolean) directly under a
  sensitive key and for every string shaped like a JWT, at any depth; redacting once more changes
  nothing. The original's keys, and whatever is nested in an array or an object under a sensitive key,
  are treated like any other node, so that \<open>{"password": ["hunter2"]}\<close> comes out unchanged.
\<close>

theorem redaction_exact:
  "(redact_body v = w \<longleftrightarrow> (\<forall>path. shown path w = map_option blanked (node_at path None v))) \<and>
   redact_body (redact_body v) = redact_body v"
  by (auto simp: redact_again shown_redact intro!: shown_inject)

text \<open>
  C27. With redaction on, which is how every constructor starts, a log line shows exactly the public
  part. Two requests and two JSON responses whose headers and bodies have the same public part are
  logged as the same line, whatever the printer and the parser do. Conversely, where the printed bodies
  read back as they were, two responses, and two requests with the same headers, that are logged as the
  same line have the same public part, so that nothing but the secrets is withheld: what is nested
  under a sensitive key can be told from the log.
\<close>

theorem log_shows_public_part:
  assumes "is_redacting config" and "from_str b = Inr v" and "from_str b' = Inr v'"
  shows "(same_public_headers hs hs' \<and> same_public v v' \<longrightarrow>
       log_request to_str config verb url hs v sink = log_request to_str config verb url hs' v' sink) \<and>
     (same_public v v' \<longrightarrow> log_response to_str from_str config url status (Some b) err sink =
       log_response to_str from_str config url status (Some b') err sink) \<and>
     (prints_back to_str from_str (redact_body v) \<and> prints_back to_str from_str (redact_body v') \<longrightarrow>
       (log_response to_str from_str config url status (Some b) err sink =
          log_response to_str from_str config url status (Some b') err sink \<longrightarrow> same_public v v') \<and>
       (log_request to_str config verb url hs v sink = log_request to_str config verb url hs v' sink \<longrightarrow>
          same_public v v')) \<and>
     is_redacting LoggingConfig_new \<and> is_redacting LoggingConfig_with_sink"
proof -
  have "is_redacting LoggingConfig_new" "is_redacting LoggingConfig_with_sink"
    by (simp_all add: is_redacting_def LoggingConfig_new_def LoggingConfig_default_def
        LoggingConfig_with_sink_def)
  then show ?thesis
    using assms prints_back_inject [of to_str from_str "redact_body v" "redact_body v'"]
    by (simp add: is_redacting_def log_request_def log_response_def write_line_def same_public_iff
        same_public_headers_iff)
qed

text \<open>A printer for strings, arrays and objects, with a parser for the bodies used below.\<close>

fun demo_print :: "json \<Rightarrow> string" where
  "demo_print (JString s) = ''`'' @ s @ ''`''"
| "demo_print (JArray vs) = ''['' @ concat (map demo_print vs) @ '']''"
| "demo_print (JObject es) = ''{'' @ concat (map (\<lambda>(k, v). k @ '':'' @ demo_print v) es) @ ''}''"
| "demo_print _ = ''null''"

definition demo_body :: "json \<Rightarrow> json" where
  "demo_body v = JObject [(''token'', v)]"

definition demo_parse :: json_parser where
  "demo_parse s =
     (case map_of (map (\<lambda>v. (demo_print v, v)) (map demo_body
        [JString ''x'', JString ''y'', JString REDACTED, JArray [JString ''x''], JArray [JString ''y'']])) s of
        None \<Rightarrow> Inl ''syntax'' | Some v \<Rightarrow> Inr v)"

definition demo_response :: "LoggingConfig \<Rightarrow> json \<Rightarrow> string list" where
  "demo_response config v =
     log_response (Inr \<circ> demo_print) demo_parse config ''u'' (Some 200) (Some (demo_print (demo_body v))) None []"

definition demo_request :: "LoggingConfig \<Rightarrow> json \<Rightarrow> string list" where
  "demo_request config v = log_request (Inr \<circ> demo_print) config ''POST'' ''u''
     [(''Authorization'', demo_print v)] (demo_body v) []"

lemma demo_log_facts:
  "is_redacting LoggingConfig_new"
  "demo_parse (demo_print (demo_body (JString ''x''))) = Inr (demo_body (JString ''x''))"
  "demo_parse (demo_print (demo_body (JString ''y''))) = Inr (demo_body (JString ''y''))"
  "demo_parse (demo_print (demo_body (JArray [JString ''x'']))) = Inr (demo_body (JArray [JString ''x'']))"
  "demo_parse (demo_print (demo_body (JArray [JString ''y'']))) = Inr (demo_body (JArray [JString ''y'']))"
  "prints_back (Inr \<circ> demo_print) demo_parse (redact_body (demo_body (JArray [JString ''x''])))"
  "prints_back (Inr \<circ> demo_print) demo_parse (redact_body (demo_body (JArray [JString ''y''])))"
  "redact_body (demo_body (JString ''x'')) = redact_body (demo_body (JString ''y''))"
  "redact_body (demo_body (JArray [JString ''x''])) \<noteq> redact_body (demo_body (JArray [JString ''y'']))"
  "redact_headers [(''Authorization'', demo_print (JString ''x''))] =
   redact_headers [(''Authorization'', demo_print (JString ''y''))]"
  "demo_response (without_redaction LoggingConfig_new) (JString ''x'') \<noteq>
   demo_response (without_redaction LoggingConfig_new) (JString ''y'')"
  by code_simp+

text \<open>
  The scalar under \<open>token\<close> cannot be told from the log unless redaction is off; the one in an array
  under \<open>token\<close> can.
\<close>

theorem log_shows_public_part_witness:
  "demo_request LoggingConfig_new (JString ''x'') = demo_request LoggingConfig_new (JString ''y'') \<and>
   demo_response LoggingConfig_new (JString ''x'') = demo_response LoggingConfig_new (JString ''y'') \<and>
   demo_response (without_redaction LoggingConfig_new) (JString ''x'') \<noteq>
     demo_response (without_redaction LoggingConfig_new) (JString ''y'') \<and>
   demo_response LoggingConfig_new (JArray [JString ''x'']) \<noteq>
     demo_response LoggingConfig_new (JArray [JString ''y''])"
proof -
  note parsed = demo_log_facts(2-5)
  note shown_alike = log_shows_public_part [where from_str = demo_parse, OF demo_log_facts(1) parsed(1,2), of
      "[(''Authorization'', demo_print (JString ''x''))]" "[(''Authorization'', demo_print (JString ''y''))]"
      "Inr \<circ> demo_print"]
  note shown_apart = log_shows_public_part 
      [where from_str = demo_parse, OF demo_log_facts(1) parsed(3,4), of _ _ "Inr \<circ> demo_print"]
  show ?thesis
    unfolding demo_response_def demo_request_def
    using shown_alike shown_apart demo_log_facts(6-)
    unfolding same_public_iff same_public_headers_iff demo_response_def by blast
qed

end
