(* ===== verification/Delivery.thy ===== *)
theory Delivery
  imports Circuit_Breaker Retry Log_Redaction
begin

text \<open>
  Webhook delivery (\<open>webhook-sdk/src/delivery.rs\<close>). What the code takes from other libraries
  is the record \<open>platform\<close>: the HTTP client, which answers the n-th request with a reply and
  the time it took, the host of a parsed URL, the wall clock, \<open>powi\<close>, and the JSON printer
  and parser. The world holds the monotonic clock, the breakers of the registry, the requests
  made so far and the log. The retry loop is a function with a termination proof: an
  iteration is followed by another only while the attempt number is below the limit.

  \<open>send\<close> reads a logging configuration that the struct of the source does not declare; it is the
  field \<open>wdr_logging\<close> here.
\<close>

datatype http_reply = Transport_error string | Response u16 "string option"

record platform =
  http_post :: "nat \<Rightarrow> string \<Rightarrow> json \<Rightarrow> http_reply \<times> duration"
  host_of_url :: "string \<Rightarrow> string option"
  utc_now :: "instant \<Rightarrow> utc_time"
  float_powi :: "f64 \<Rightarrow> int \<Rightarrow> f64"
  json_print :: json_printer
  json_parse :: json_parser

record delivery_world =
  dw_now :: instant
  dw_breakers :: breaker_map
  dw_sent :: "(string \<times> json) list"
  dw_log :: "string list"

record WebhookDeliverer =
  wdr_retry :: RetryConfig
  wdr_breakers :: "CircuitBreakerConfig option"
  wdr_logging :: "LoggingConfig option"

definition WebhookDeliverer_new :: "RetryConfig \<Rightarrow> WebhookDeliverer" where
  "WebhookDeliverer_new retry_config =
     \<lparr>wdr_retry = retry_config, wdr_breakers = None, wdr_logging = None\<rparr>"

definition with_circuit_breaker :: "CircuitBreakerConfig \<Rightarrow> WebhookDeliverer \<Rightarrow> WebhookDeliverer" where
  "with_circuit_breaker config dlv = dlv\<lparr>wdr_breakers := Some config\<rparr>"

definition circuit_key :: "platform \<Rightarrow> string \<Rightarrow> string option" where
  "circuit_key lib url = host_of_url lib url"

definition circuit_state_for ::
  "platform \<Rightarrow> WebhookDeliverer \<Rightarrow> string \<Rightarrow> delivery_world \<Rightarrow> CircuitState option" where
  "circuit_state_for lib dlv url w =
     (case circuit_key lib url of
        None \<Rightarrow> None
      | Some host \<Rightarrow>
          (case wdr_breakers dlv of None \<Rightarrow> None | Some _ \<Rightarrow> state_for host (dw_breakers w)))"

section \<open>One request\<close>

definition send ::
  "platform \<Rightarrow> WebhookDeliverer \<Rightarrow> WebhookDelivery \<Rightarrow> delivery_world
     \<Rightarrow> (WebhookError + u16 \<times> string option) \<times> delivery_world" where
  "send lib dlv delivery w =
     (let headers = [(''content-type'', ''application/json'')];
          url = wd_url delivery;
          w = (case wdr_logging dlv of
                 None \<Rightarrow> w
               | Some logging \<Rightarrow>
                   w\<lparr>dw_log := log_request (json_print lib) logging ''POST'' url headers
                        (wd_payload delivery) (dw_log w)\<rparr>);
          (reply, took) = http_post lib (length (dw_sent w)) url (wd_payload delivery);
          w = w\<lparr>dw_sent := dw_sent w @ [(url, wd_payload delivery)], dw_now := dw_now w + took\<rparr>;
          log = (\<lambda>status body err w.
            case wdr_logging dlv of
              None \<Rightarrow> w
            | Some logging \<Rightarrow>
                w\<lparr>dw_log := log_response (json_print lib) (json_parse lib) logging url status body err
                     (dw_log w)\<rparr>)
      in case reply of
           Transport_error e \<Rightarrow> (Inl (HttpError e), log None None (Some e) w)
         | Response status body \<Rightarrow>
             (if 200 \<le> status \<and> status < 300 then Inr (status, body)
              else Inl (DeliveryFailed (''HTTP '' @ show_nat (unat status) @ '': '' @
                     (case body of None \<Rightarrow> [] | Some b \<Rightarrow> b))),
              log (Some status) body None w))"

section \<open>The permit around a request\<close>

text \<open>
  \<open>breaker\<close> is the host whose breaker guards this delivery, if there is one. The outer option
  of \<open>take_permit\<close> is the refusal, the inner one whether there is a permit to resolve.
\<close>

definition take_permit ::
  "WebhookDeliverer \<Rightarrow> string option \<Rightarrow> delivery_world \<Rightarrow> Permit option option \<times> delivery_world" where
  "take_permit dlv breaker w =
     (case (wdr_breakers dlv, breaker) of
        (Some config, Some key) \<Rightarrow>
          let (p, b) = try_acquire config (dw_now w) (fst (breaker_for key (dw_breakers w)))
          in (map_option Some p, w\<lparr>dw_breakers := (dw_breakers w)(key \<mapsto> b)\<rparr>)
      | _ \<Rightarrow> (Some None, w))"

definition permit_succeeds ::
  "WebhookDeliverer \<Rightarrow> string option \<Rightarrow> Permit option \<Rightarrow> delivery_world \<Rightarrow> delivery_world" where
  "permit_succeeds dlv breaker permit w =
     (case (wdr_breakers dlv, breaker, permit) of
        (Some config, Some key, Some p) \<Rightarrow>
          w\<lparr>dw_breakers := (dw_breakers w)
               (key \<mapsto> Permit_success p (fst (breaker_for key (dw_breakers w))))\<rparr>
      | _ \<Rightarrow> w)"

definition permit_fails ::
  "WebhookDeliverer \<Rightarrow> string option \<Rightarrow> Permit option \<Rightarrow> delivery_world \<Rightarrow> delivery_world option" where
  "permit_fails dlv breaker permit w =
     (case (wdr_breakers dlv, breaker, permit) of
        (Some config, Some key, Some p) \<Rightarrow>
          map_option (\<lambda>b. w\<lparr>dw_breakers := (dw_breakers w)(key \<mapsto> b)\<rparr>)
            (Permit_failure config (dw_now w) p (fst (breaker_for key (dw_breakers w))))
      | _ \<Rightarrow> Some w)"

definition sleep_for :: "duration \<Rightarrow> delivery_world \<Rightarrow> delivery_world" where
  "sleep_for d w = w\<lparr>dw_now := dw_now w + d\<rparr>"

section \<open>The retry loop\<close>

lemma retry_decreases:
  assumes "checked_add a 1 = Some attempt" and "should_retry config attempt"
  shows "unat (max_retries config) - unat attempt < unat (max_retries config) - unat (a :: u32)"
proof -
  have "unat attempt = Suc (unat a)" and "unat attempt < unat (max_retries config)"
    using assms by (simp_all add: checked_add_Some_iff should_retry_def word_less_nat_alt)
  then show ?thesis by linarith
qed

function deliver_loop ::
  "platform \<Rightarrow> WebhookDeliverer \<Rightarrow> string option \<Rightarrow> WebhookDelivery \<Rightarrow> delivery_world
     \<Rightarrow> (WebhookError, WebhookDelivery) outcome \<times> delivery_world" where
  "deliver_loop lib dlv breaker delivery w =
     (case checked_add (wd_attempt delivery) 1 of
        None \<Rightarrow> (Panic, w)
      | Some attempt \<Rightarrow>
          let delivery = delivery\<lparr>wd_attempt := attempt,
                                  wd_last_attempted_at := Some (utc_now lib (dw_now w))\<rparr> in
          case take_permit dlv breaker w of
            (None, w) \<Rightarrow> (Err CircuitOpen_err, w)
          | (Some permit, w) \<Rightarrow>
              (case send lib dlv delivery w of
                 (Inr (status, response_body), w) \<Rightarrow>
                   (Ok (delivery\<lparr>wd_status_code := Some status, wd_response_body := response_body,
                                 wd_delivered := True\<rparr>),
                    permit_succeeds dlv breaker permit w)
               | (Inl e, w) \<Rightarrow>
                   (case permit_fails dlv breaker permit w of
                      None \<Rightarrow> (Panic, w)
                    | Some w \<Rightarrow>
                        let delivery = delivery\<lparr>wd_error := Some (webhook_error_to_string e)\<rparr> in
                        if \<not> should_retry (wdr_retry dlv) attempt then (Err MaxRetriesExceeded, w)
                        else
                          deliver_loop lib dlv breaker delivery
                            (sleep_for (backoff_duration (float_powi lib) (wdr_retry dlv) (attempt - 1)) w))))"
  by pat_completeness auto

termination
  by (relation "measure (\<lambda>(lib, dlv, breaker, delivery, w).
        unat (max_retries (wdr_retry dlv)) - unat (wd_attempt delivery))")
    (auto simp: retry_decreases)

declare deliver_loop.simps [simp del]

definition deliver ::
  "platform \<Rightarrow> WebhookDeliverer \<Rightarrow> WebhookDelivery \<Rightarrow> delivery_world
     \<Rightarrow> (WebhookError, WebhookDelivery) outcome \<times> delivery_world" where
  "deliver lib dlv delivery w =
     (case (wdr_breakers dlv, circuit_key lib (wd_url delivery)) of
        (Some config, Some key) \<Rightarrow>
          deliver_loop lib dlv (Some key) delivery
            (w\<lparr>dw_breakers := snd (breaker_for key (dw_breakers w))\<rparr>)
      | _ \<Rightarrow> deliver_loop lib dlv None delivery w)"

section \<open>Facts about one iteration\<close>

lemma send_facts:
  assumes "send lib dlv d w = (r, w')"
  shows "dw_sent w' = dw_sent w @ [(wd_url d, wd_payload d)]" and "dw_breakers w' = dw_breakers w"
    and "dw_now w \<le> dw_now w'"
    and "r = Inr (status, body) \<Longrightarrow> 200 \<le> status \<and> status < 300"
proof -
  obtain reply took where "http_post lib (length (dw_sent w)) (wd_url d) (wd_payload d) = (reply, took)"
    by fastforce
  note step = assms [unfolded send_def Let_def] this
  show "dw_sent w' = dw_sent w @ [(wd_url d, wd_payload d)]" and "dw_breakers w' = dw_breakers w"
    and "dw_now w \<le> dw_now w'"
    using step by (auto split: option.splits http_reply.splits)
  show "r = Inr (status, body) \<Longrightarrow> 200 \<le> status \<and> status < 300"
    using step by (auto split: option.splits http_reply.splits if_splits)
qed

lemma take_permit_frame:
  assumes "take_permit dlv br w = (p, w')"
  shows "dw_sent w' = dw_sent w" and "dw_log w' = dw_log w" and "dw_now w' = dw_now w"
    and "br \<noteq> Some k \<Longrightarrow> dw_breakers w' k = dw_breakers w k"
  using assms by (auto simp: take_permit_def split: option.splits prod.splits)

lemma permit_succeeds_frame:
  "dw_sent (permit_succeeds dlv br p w) = dw_sent w"
  "br \<noteq> Some k \<Longrightarrow> dw_breakers (permit_succeeds dlv br p w) k = dw_breakers w k"
  by (auto simp: permit_succeeds_def split: option.splits)

lemma permit_fails_frame:
  assumes "permit_fails dlv br p w = Some w'"
  shows "dw_sent w' = dw_sent w" and "br \<noteq> Some k \<Longrightarrow> dw_breakers w' k = dw_breakers w k"
  using assms by (auto simp: permit_fails_def split: option.splits)

lemma permit_fails_None: "permit_fails dlv br p w = None \<Longrightarrow> wdr_breakers dlv \<noteq> None"
  by (auto simp: permit_fails_def split: option.splits)

lemma sleep_for_frame [simp]:
  "dw_sent (sleep_for d w) = dw_sent w" "dw_breakers (sleep_for d w) = dw_breakers w"
  by (simp_all add: sleep_for_def)

definition attempted :: "platform \<Rightarrow> u32 \<Rightarrow> delivery_world \<Rightarrow> WebhookDelivery \<Rightarrow> WebhookDelivery" where
  "attempted lib attempt w d =
     d\<lparr>wd_attempt := attempt, wd_last_attempted_at := Some (utc_now lib (dw_now w))\<rparr>"

lemma attempted_fields [simp]:
  "wd_attempt (attempted lib a w d) = a" "wd_url (attempted lib a w d) = wd_url d"
  "wd_payload (attempted lib a w d) = wd_payload d" "wd_id (attempted lib a w d) = wd_id d"
  by (simp_all add: attempted_def)

text \<open>The six ways an iteration of the loop can go.\<close>

lemma deliver_loop_cases:
  assumes "deliver_loop lib dlv br d w = (r, w')"
  obtains
    (overflow) "checked_add (wd_attempt d) 1 = None" "r = Panic" "w' = w"
  | (refused) a where "checked_add (wd_attempt d) 1 = Some a"
      "take_permit dlv br w = (None, w')" "r = Err CircuitOpen_err"
  | (delivered) a permit w1 w2 status body where "checked_add (wd_attempt d) 1 = Some a"
      "take_permit dlv br w = (Some permit, w1)"
      "send lib dlv (attempted lib a w d) w1 = (Inr (status, body), w2)"
      "r = Ok ((attempted lib a w d)\<lparr>wd_status_code := Some status, wd_response_body := body,
         wd_delivered := True\<rparr>)"
      "w' = permit_succeeds dlv br permit w2"
  | (panicked) a permit w1 e where "checked_add (wd_attempt d) 1 = Some a"
      "take_permit dlv br w = (Some permit, w1)"
      "send lib dlv (attempted lib a w d) w1 = (Inl e, w')"
      "permit_fails dlv br permit w' = None" "r = Panic"
  | (gave_up) a permit w1 e w2 where "checked_add (wd_attempt d) 1 = Some a"
      "take_permit dlv br w = (Some permit, w1)"
      "send lib dlv (attempted lib a w d) w1 = (Inl e, w2)"
      "permit_fails dlv br permit w2 = Some w'" "\<not> should_retry (wdr_retry dlv) a"
      "r = Err MaxRetriesExceeded"
  | (again) a permit w1 e w2 w3 b where "checked_add (wd_attempt d) 1 = Some a"
      "take_permit dlv br w = (Some permit, w1)"
      "send lib dlv (attempted lib a w d) w1 = (Inl e, w2)"
      "permit_fails dlv br permit w2 = Some w3" "should_retry (wdr_retry dlv) a"
      "deliver_loop lib dlv br
         ((attempted lib a w d)\<lparr>wd_error := Some (webhook_error_to_string e)\<rparr>)
         (sleep_for b w3) = (r, w')"
      "b = backoff_duration (float_powi lib) (wdr_retry dlv) (a - 1)"
  using assms
  by (subst (asm) deliver_loop.simps)
    (auto simp: attempted_def Let_def split: option.splits prod.splits sum.splits if_splits)

text \<open>
  What a run of the loop sends: the same request \<open>n\<close> times, and what its result says about
  \<open>n\<close>.
\<close>

definition loop_result ::
  "WebhookDeliverer \<Rightarrow> WebhookDelivery \<Rightarrow> nat \<Rightarrow> (WebhookError, WebhookDelivery) outcome \<Rightarrow> bool" where
  "loop_result dlv d n r =
     (case r of
        Ok d' \<Rightarrow> wd_delivered d' \<and> 0 < n \<and> unat (wd_attempt d') = unat (wd_attempt d) + n \<and>
          (\<exists>status. wd_status_code d' = Some status \<and> 200 \<le> status \<and> status < 300) \<and>
          wd_id d' = wd_id d \<and> wd_url d' = wd_url d \<and> wd_payload d' = wd_payload d
      | Err e \<Rightarrow>
          e = MaxRetriesExceeded \<and>
            n = max 1 (unat (max_retries (wdr_retry dlv)) - unat (wd_attempt d)) \<or>
          e = CircuitOpen_err \<and> wdr_breakers dlv \<noteq> None
      | Panic \<Rightarrow> wdr_breakers dlv \<noteq> None \<or> n = 0 \<and> unat (wd_attempt d) = 2 ^ 32 - 1)"

lemma checked_add_one: "checked_add (a :: u32) 1 = Some b \<Longrightarrow> unat b = Suc (unat a)"
  by (simp add: checked_add_Some_iff)

lemma checked_add_one_None: "checked_add (a :: u32) 1 = None \<Longrightarrow> unat a = 2 ^ 32 - 1"
  using unat_u32_bound [of a] by (auto simp: checked_add_def split: if_splits)

lemma take_permit_None: "take_permit dlv br w = (None, w') \<Longrightarrow> wdr_breakers dlv \<noteq> None"
  by (auto simp: take_permit_def split: option.splits)

lemma deliver_loop_sends:
  "deliver_loop lib dlv br d w = (r, w') \<Longrightarrow>
     \<exists>n. dw_sent w' = dw_sent w @ replicate n (wd_url d, wd_payload d) \<and>
       n \<le> max 1 (unat (max_retries (wdr_retry dlv)) - unat (wd_attempt d)) \<and> loop_result dlv d n r"
proof (induction "unat (max_retries (wdr_retry dlv)) - unat (wd_attempt d)" arbitrary: d w
    rule: less_induct)
  case less
  let ?m = "unat (max_retries (wdr_retry dlv))"
  from less.prems show ?case
  proof (cases rule: deliver_loop_cases)
    case overflow
    then show ?thesis by (intro exI [of _ 0]) (simp add: loop_result_def checked_add_one_None)
  next
    case (refused a)
    then show ?thesis
      using take_permit_None take_permit_frame(1)
      by (intro exI [of _ 0]) (simp add: loop_result_def)
  next
    case (delivered a permit w1 w2 status body)
    then show ?thesis
      using send_facts [OF delivered(3)] take_permit_frame(1) [OF delivered(2)]
      by (intro exI [of _ 1])
        (simp add: loop_result_def checked_add_one permit_succeeds_frame)
  next
    case (panicked a permit w1 e)
    then show ?thesis
      using send_facts(1) [OF panicked(3)] take_permit_frame(1) [OF panicked(2)]
        permit_fails_None [OF panicked(4)]
      by (intro exI [of _ 1]) (simp add: loop_result_def)
  next
    case (gave_up a permit w1 e w2)
    have "?m - unat (wd_attempt d) \<le> 1"
      using gave_up(1,5) by (auto simp: should_retry_def word_less_nat_alt dest!: checked_add_one)
    then show ?thesis
      using send_facts(1) [OF gave_up(3)] take_permit_frame(1) [OF gave_up(2)]
        permit_fails_frame(1) [OF gave_up(4)] gave_up(6)
      by (intro exI [of _ 1]) (simp add: loop_result_def)
  next
    case (again a permit w1 e w2 w3 b)
    let ?d = "(attempted lib a w d)\<lparr>wd_error := Some (webhook_error_to_string e)\<rparr>"
    have a: "unat a = Suc (unat (wd_attempt d))" "unat a < ?m"
      using again(1,5) by (simp_all add: checked_add_one should_retry_def word_less_nat_alt)
    then obtain n where n: "dw_sent w' = dw_sent (sleep_for b w3) @ replicate n (wd_url d, wd_payload d)"
        "n \<le> max 1 (?m - unat a)" "loop_result dlv ?d n r"
      using less.hyps [OF _ again(6)] retry_decreases [OF again(1,5)] by auto
    have "dw_sent w' = dw_sent w @ replicate (Suc n) (wd_url d, wd_payload d)"
      using n(1) send_facts(1) [OF again(3)] take_permit_frame(1) [OF again(2)]
        permit_fails_frame(1) [OF again(4)] by simp
    moreover have "loop_result dlv d (Suc n) r"
      using n(3) a unat_u32_bound [of "max_retries (wdr_retry dlv)"]
      by (auto simp: loop_result_def split: outcome.splits)
    ultimately show ?thesis using n(2) a by (intro exI [of _ "Suc n"]) simp
  qed
qed

section \<open>The breaker across a delivery\<close>

lemma deliver_loop_isolated:
  "deliver_loop lib dlv br d w = (r, w') \<Longrightarrow> br \<noteq> Some k \<Longrightarrow> dw_breakers w' k = dw_breakers w k"
proof (induction "unat (max_retries (wdr_retry dlv)) - unat (wd_attempt d)" arbitrary: d w
    rule: less_induct)
  case less
  from less.prems(1) show ?case
  proof (cases rule: deliver_loop_cases)
    case (delivered a permit w1 w2 status body)
    then show ?thesis
      using send_facts(2) [OF delivered(3)] take_permit_frame(4) [OF delivered(2) less.prems(2)]
        permit_succeeds_frame(2) [OF less.prems(2)] by simp
  next
    case (panicked a permit w1 e)
    then show ?thesis
      using send_facts(2) [OF panicked(3)] take_permit_frame(4) [OF panicked(2) less.prems(2)] by simp
  next
    case (gave_up a permit w1 e w2)
    then show ?thesis
      using send_facts(2) [OF gave_up(3)] take_permit_frame(4) [OF gave_up(2) less.prems(2)]
        permit_fails_frame(2) [OF gave_up(4) less.prems(2)] by simp
  next
    case (again a permit w1 e w2 w3 b)
    then show ?thesis
      using less.hyps [OF _ again(6) less.prems(2)] retry_decreases [OF again(1,5)]
        send_facts(2) [OF again(3)] take_permit_frame(4) [OF again(2) less.prems(2)]
        permit_fails_frame(2) [OF again(4) less.prems(2)] by simp
  qed (use less.prems(2) take_permit_frame(4) in auto)
qed

text \<open>
  The breaker of the destination as the delivery sees it; between two iterations it is
  idle, by the laws of \<open>call_gate\<close>.
\<close>

definition breaker_of :: "string \<Rightarrow> delivery_world \<Rightarrow> Inner" where
  "breaker_of key w = fst (breaker_for key (dw_breakers w))"

lemma breaker_of_upd [simp]:
  "breaker_of key (w\<lparr>dw_breakers := (dw_breakers w)(key \<mapsto> b)\<rparr>) = b"
  by (simp add: breaker_of_def breaker_for_def)

lemma breaker_of_cong: "dw_breakers w' = dw_breakers w \<Longrightarrow> breaker_of key w' = breaker_of key w"
  by (simp add: breaker_of_def)

lemma bind_map_Some [simp]: "Option.bind (map_option Some p) id = p"
  by (cases p) simp_all

lemma guarded_iteration:
  assumes "wdr_breakers dlv = Some config" and "take_permit dlv (Some key) w = (p, w1)"
  shows "try_acquire config (dw_now w) (breaker_of key w) = (Option.bind p id, breaker_of key w1)"
    and "p \<noteq> Some None"
  using assms by (auto simp: take_permit_def breaker_of_def breaker_for_def split: prod.splits option.splits)

lemma deliver_loop_idle:
  "deliver_loop lib dlv (Some key) d w = (r, w') \<Longrightarrow> wdr_breakers dlv = Some config \<Longrightarrow>
     breaker_idle config (breaker_of key w) \<Longrightarrow> r \<noteq> Panic \<Longrightarrow> breaker_idle config (breaker_of key w')"
proof (induction "unat (max_retries (wdr_retry dlv)) - unat (wd_attempt d)" arbitrary: d w
    rule: less_induct)
  case less
  note cfg = less.prems(2)
  from less.prems(1) show ?case
  proof (cases rule: deliver_loop_cases)
    case (refused a)
    have "breaker_of key w' = breaker_of key w"
      using guarded_iteration(1) [OF cfg refused(2)] by (auto dest: breaker_gate.refused_same)
    with less.prems(3) show ?thesis by simp
  next
    case (delivered a permit w1 w2 status body)
    obtain p where p: "permit = Some p" using guarded_iteration(2) [OF cfg delivered(2)] by auto
    have "breaker_of key w2 = breaker_of key w1"
      using send_facts(2) [OF delivered(3)] by (rule breaker_of_cong)
    then have "breaker_of key w' = Permit_success p (breaker_of key w1)"
      using delivered(5) cfg p
      by (simp add: permit_succeeds_def breaker_of_def) (simp add: breaker_for_def)
    then show ?thesis
      using breaker_gate.succeed_idle [OF less.prems(3)] guarded_iteration(1) [OF cfg delivered(2)] p
      by simp
  next
    case (gave_up a permit w1 e w2)
    obtain p where p: "permit = Some p" using guarded_iteration(2) [OF cfg gave_up(2)] by auto
    have "Permit_failure config (dw_now w2) p (breaker_of key w1) = Some (breaker_of key w')"
      using gave_up(4) cfg p breaker_of_cong [OF send_facts(2) [OF gave_up(3)], of key]
      by (auto simp: permit_fails_def breaker_of_def) (simp_all add: breaker_for_def)
    then show ?thesis
      using breaker_gate.failure_idle [OF less.prems(3)] guarded_iteration(1) [OF cfg gave_up(2)] p
      by simp
  next
    case (again a permit w1 e w2 w3 b)
    obtain p where p: "permit = Some p" using guarded_iteration(2) [OF cfg again(2)] by auto
    have "Permit_failure config (dw_now w2) p (breaker_of key w1) = Some (breaker_of key w3)"
      using again(4) cfg p breaker_of_cong [OF send_facts(2) [OF again(3)], of key]
      by (auto simp: permit_fails_def breaker_of_def) (simp_all add: breaker_for_def)
    then have "breaker_idle config (breaker_of key (sleep_for b w3))"
      using breaker_gate.failure_idle [OF less.prems(3)] guarded_iteration(1) [OF cfg again(2)] p
      by (simp add: breaker_of_cong [of "sleep_for b w3" w3])
    then show ?thesis
      using less.hyps [OF _ again(6) cfg _ less.prems(4)] retry_decreases [OF again(1,5)] by simp
  qed (use less.prems(4) in auto)
qed

section \<open>Properties\<close>

lemma deliver_as_loop:
  obtains br w0 where "deliver lib dlv d w = deliver_loop lib dlv br d w0" "dw_sent w0 = dw_sent w"
    "br \<noteq> None \<longrightarrow> br = circuit_key lib (wd_url d) \<and> wdr_breakers dlv \<noteq> None"
    "\<forall>k. circuit_key lib (wd_url d) \<noteq> Some k \<longrightarrow> dw_breakers w0 k = dw_breakers w k"
    "\<forall>k. breaker_of k w0 = breaker_of k w"
    "wdr_breakers dlv \<noteq> None \<longrightarrow> br = circuit_key lib (wd_url d)"
proof (cases "wdr_breakers dlv = None \<or> circuit_key lib (wd_url d) = None")
  case True
  then have "deliver lib dlv d w = deliver_loop lib dlv None d w"
    by (auto simp: deliver_def split: option.split)
  then show ?thesis by (rule that) (use True in auto)
next
  case False
  then obtain config key where key: "wdr_breakers dlv = Some config"
      "circuit_key lib (wd_url d) = Some key"
    by auto
  let ?w = "w\<lparr>dw_breakers := snd (breaker_for key (dw_breakers w))\<rparr>"
  have "deliver lib dlv d w = deliver_loop lib dlv (Some key) d ?w"
    using key by (simp add: deliver_def)
  then show ?thesis
    by (rule that)
      (use key in \<open>auto simp: breaker_of_def breaker_for_def split: option.split\<close>)
qed

lemma deliver_sends:
  assumes "deliver lib dlv d w = (r, w')" and "wd_attempt d = 0"
  obtains n where "dw_sent w' = dw_sent w @ replicate n (wd_url d, wd_payload d)"
    "n \<le> max 1 (unat (max_retries (wdr_retry dlv)))" "loop_result dlv d n r"
proof (rule deliver_as_loop [of lib dlv d w])
  fix br w0
  assume "deliver lib dlv d w = deliver_loop lib dlv br d w0" and sent: "dw_sent w0 = dw_sent w"
  then have "deliver_loop lib dlv br d w0 = (r, w')" using assms(1) by simp
  from deliver_loop_sends [OF this] show ?thesis using assms(2) sent that by auto
qed

definition demo_platform :: platform where
  "demo_platform =
     \<lparr>http_post = (\<lambda>n url payload. (if n < 1 then Response 500 None else Response 200 (Some ''ok''), 5)),
      host_of_url = (\<lambda>url. Some ''anchor''), utc_now = int, float_powi = (\<lambda>x n. Finite 1 n),
      json_print = (\<lambda>v. Inr ''json''), json_parse = (\<lambda>s. Inr JNull)\<rparr>"

definition demo_deliverer :: WebhookDeliverer where
  "demo_deliverer = with_circuit_breaker \<lparr>failure_threshold = 2, cooldown = 1000\<rparr>
     (WebhookDeliverer_new RetryConfig_default)"

definition demo_world :: delivery_world where
  "demo_world = \<lparr>dw_now = 0, dw_breakers = Map.empty, dw_sent = [], dw_log = []\<rparr>"

text \<open>
  C28. \<open>deliver\<close> always ends, and says what it did: it sends the same request some \<open>n\<close>
  times, at most as often as the retry limit allows (once if the limit is 0 or 1). If it
  succeeds, \<open>n\<close> is the attempt count of the returned delivery, which is marked delivered
  with a 2xx status and otherwise the one given; if it reports \<open>MaxRetriesExceeded\<close>, all
  allowed attempts were made; \<open>CircuitOpen\<close> needs an attached breaker, as does a panic (the
  failure counter running over).
\<close>

theorem deliver_bounded:
  assumes "deliver lib dlv d w = (r, w')" and "wd_attempt d = 0"
  shows "\<exists>n. dw_sent w' = dw_sent w @ replicate n (wd_url d, wd_payload d) \<and>
     n \<le> max 1 (unat (max_retries (wdr_retry dlv))) \<and>
     (case r of
        Ok d' \<Rightarrow> wd_delivered d' \<and> 0 < n \<and> unat (wd_attempt d') = n \<and>
          (\<exists>status. wd_status_code d' = Some status \<and> 200 \<le> status \<and> status < 300) \<and>
          wd_id d' = wd_id d \<and> wd_url d' = wd_url d \<and> wd_payload d' = wd_payload d
      | Err e \<Rightarrow> e = MaxRetriesExceeded \<and> n = max 1 (unat (max_retries (wdr_retry dlv))) \<or>
          e = CircuitOpen_err \<and> wdr_breakers dlv \<noteq> None
      | Panic \<Rightarrow> wdr_breakers dlv \<noteq> None)"
proof (rule deliver_sends [OF assms])
  fix n
  assume "dw_sent w' = dw_sent w @ replicate n (wd_url d, wd_payload d)"
    "n \<le> max 1 (unat (max_retries (wdr_retry dlv)))" "loop_result dlv d n r"
  then show ?thesis
    using assms(2) by (intro exI [of _ n] conjI) (simp_all add: loop_result_def split: outcome.splits)
qed

theorem deliver_bounded_witness:
  "\<exists>n. dw_sent (snd (deliver demo_platform demo_deliverer
       (WebhookDelivery_new ''id'' 0 ''https://anchor/hook'' JNull) demo_world)) =
     replicate n (''https://anchor/hook'', JNull) \<and> n \<le> 5"
proof -
  obtain r w' where run: "deliver demo_platform demo_deliverer
      (WebhookDelivery_new ''id'' 0 ''https://anchor/hook'' JNull) demo_world = (r, w')"
    by fastforce
  obtain n where "dw_sent w' = replicate n (''https://anchor/hook'', JNull)" "n \<le> 5"
    using deliver_bounded [OF run]
    by (auto simp: WebhookDelivery_new_def demo_world_def demo_deliverer_def
        with_circuit_breaker_def WebhookDeliverer_new_def RetryConfig_default_def)
  then show ?thesis unfolding run by auto
qed

text \<open>
  An open circuit is not called: while the destination's breaker is open and its
  cooldown has not passed, \<open>deliver\<close> reports \<open>CircuitOpen\<close> at once, sends nothing, and leaves
  the breakers, the clock and the log as they were.
\<close>

lemma open_circuit_short_circuits:
  assumes "wdr_breakers dlv = Some config" and "circuit_key lib (wd_url d) = Some key"
    and "dw_breakers w key = Some b" and "cb_state b = Open" and "opened_at b = Some t"
    and "dw_now w < t + cooldown config" and "t \<le> dw_now w" and "unat (wd_attempt d) + 1 < 2 ^ 32"
  shows "deliver lib dlv d w = (Err CircuitOpen_err, w)"
proof -
  have "\<not> cooldown_elapsed config (dw_now w) b"
    using assms(5-7) by (simp add: cooldown_elapsed_def)
  then have "take_permit dlv (Some key) w = (None, w)"
    using assms(1-4) by (simp add: take_permit_def breaker_for_def try_acquire_def fun_upd_idem)
  moreover have "snd (breaker_for key (dw_breakers w)) = dw_breakers w"
    using assms(3) by (simp add: breaker_for_def)
  moreover have "checked_add (wd_attempt d) 1 = Some (wd_attempt d + 1)"
    using assms(8) by (simp add: checked_add_def)
  ultimately show ?thesis
    using assms(1,2) by (subst deliver_def) (simp add: deliver_loop.simps Let_def)
qed

text \<open>
  A delivery touches the breaker of its own destination only, and leaves it settled:
  every other host's breaker is as before, and a breaker that was not half-open is
  well-formed and not half-open afterwards, whatever happened in between.
\<close>

lemma deliver_isolates_hosts:
  assumes "deliver lib dlv d w = (r, w')" and "wdr_breakers dlv = Some config"
    and "circuit_key lib (wd_url d) = Some key" and "breaker_idle config (breaker_of key w)"
  shows "(k \<noteq> key \<longrightarrow> dw_breakers w' k = dw_breakers w k) \<and>
     (r \<noteq> Panic \<longrightarrow> breaker_idle config (breaker_of key w'))"
proof (rule deliver_as_loop [of lib dlv d w])
  fix br w0
  assume loop: "deliver lib dlv d w = deliver_loop lib dlv br d w0"
    and others: "\<forall>k. circuit_key lib (wd_url d) \<noteq> Some k \<longrightarrow> dw_breakers w0 k = dw_breakers w k"
    and same: "\<forall>k. breaker_of k w0 = breaker_of k w"
    and br: "wdr_breakers dlv \<noteq> None \<longrightarrow> br = circuit_key lib (wd_url d)"
  have run: "deliver_loop lib dlv (Some key) d w0 = (r, w')" using loop assms(1-3) br by simp
  have "dw_breakers w' k = dw_breakers w k" if "k \<noteq> key"
    using deliver_loop_isolated [OF run] others assms(3) that by simp
  moreover have "breaker_idle config (breaker_of key w')" if "r \<noteq> Panic"
    using deliver_loop_idle [OF run assms(2)] same assms(4) that by simp
  ultimately show ?thesis by blast
qed

text \<open>
  C30. The breakers keep deliveries off failing destinations and apart from each other, for a delivery
  to a host whose breaker is not half-open. While that breaker is open and cooling down, \<open>deliver\<close> reports
  \<open>CircuitOpen\<close> at once: it sends nothing and leaves the breakers, the clock and the log as they were.
  In any case it touches the breaker of no other host, however often it retries, and unless it panics
  it leaves the breaker of its own host well-formed and not half-open.
\<close>

theorem breakers_guard_deliveries:
  assumes "deliver lib dlv d w = (r, w')" and "wdr_breakers dlv = Some config"
    and "circuit_key lib (wd_url d) = Some key" and "breaker_idle config (breaker_of key w)"
    and "unat (wd_attempt d) + 1 < 2 ^ 32"
  shows "(\<forall>b t. dw_breakers w key = Some b \<and> cb_state b = Open \<and> opened_at b = Some t \<and> t \<le> dw_now w \<and>
         dw_now w < t + cooldown config \<longrightarrow> r = Err CircuitOpen_err \<and> w' = w) \<and>
     (\<forall>k. k \<noteq> key \<longrightarrow> dw_breakers w' k = dw_breakers w k) \<and>
     (r \<noteq> Panic \<longrightarrow> breaker_idle config (breaker_of key w'))"
  using open_circuit_short_circuits [OF assms(2,3) _ _ _ _ _ assms(5)] assms(1)
    deliver_isolates_hosts [OF assms(1-4)]
  by auto

definition demo_open_world :: delivery_world where
  "demo_open_world = demo_world\<lparr>dw_now := 700, dw_breakers :=
     [''anchor'' \<mapsto> \<lparr>cb_state = Open, consecutive_failures = 2, opened_at = Some 0\<rparr>]\<rparr>"

text \<open>A delivery to a host that is cooling down, and one through a breaker that was never used.\<close>

theorem breakers_guard_deliveries_witness:
  "deliver demo_platform demo_deliverer (WebhookDelivery_new ''id'' 0 ''https://anchor/hook'' JNull)
     demo_open_world = (Err CircuitOpen_err, demo_open_world) \<and>
   (\<exists>r w'. deliver demo_platform demo_deliverer (WebhookDelivery_new ''id'' 0 ''https://anchor/hook'' JNull)
      demo_world = (r, w') \<and> dw_breakers w' ''other'' = None)"
proof -
  let ?d = "WebhookDelivery_new ''id'' 0 ''https://anchor/hook'' JNull"
  let ?config = "\<lparr>failure_threshold = 2, cooldown = 1000\<rparr>"
  have on: "wdr_breakers demo_deliverer = Some ?config" "circuit_key demo_platform (wd_url ?d) = Some ''anchor''"
    by (simp_all add: demo_deliverer_def with_circuit_breaker_def circuit_key_def demo_platform_def)
  have idle: "breaker_idle ?config (breaker_of ''anchor'' demo_open_world)"
    "breaker_idle ?config (breaker_of ''anchor'' demo_world)" "unat (wd_attempt ?d) + 1 < 2 ^ 32"
    by (simp_all add: breaker_of_def breaker_for_def demo_open_world_def demo_world_def breaker_idle_def
        breaker_wf_def CircuitBreaker_new_def WebhookDelivery_new_def)
  obtain r w' r0 w0 where run: "deliver demo_platform demo_deliverer ?d demo_open_world = (r, w')"
    "deliver demo_platform demo_deliverer ?d demo_world = (r0, w0)" by (metis surj_pair)
  show ?thesis
    using breakers_guard_deliveries [OF run(1) on idle(1,3)] breakers_guard_deliveries [OF run(2) on idle(2,3)] run
    by (simp add: demo_open_world_def demo_world_def)
qed

end
