(* ===== verification/Breaker_Unit_Tests.thy ===== *)
theory Breaker_Unit_Tests
  imports Delivery
begin

text \<open>
  The unit tests beside the circuit breaker (\<open>webhook-sdk/src/circuit_breaker.rs\<close>) and the delivery
  (\<open>webhook-sdk/src/delivery.rs\<close>). A test is a function of the clock readings it makes, in order, and
  says whether its assertions hold; an \<open>unwrap\<close> of a refusal or a panic makes it fail. The local
  server of the delivery tests is an HTTP client that answers by the number of the request.
\<close>

section \<open>Circuit breaker\<close>

definition test_config :: "u32 \<Rightarrow> duration \<Rightarrow> CircuitBreakerConfig" where
  "test_config threshold pause_for = \<lparr>failure_threshold = threshold, cooldown = pause_for\<rparr>"

definition secs :: "nat \<Rightarrow> duration" where "secs n = n * 10 ^ 9"
definition millis :: "nat \<Rightarrow> duration" where "millis n = n * 10 ^ 6"

text \<open>\<open>try_acquire().unwrap().failure()\<close> and \<open>try_acquire().unwrap().success()\<close>.\<close>

definition call_fails :: "CircuitBreakerConfig \<Rightarrow> instant \<Rightarrow> Inner \<Rightarrow> Inner option" where
  "call_fails config now b =
     (case try_acquire config now b of
        (Some p, b) \<Rightarrow> Permit_failure config now p b
      | (None, _) \<Rightarrow> None)"

definition call_succeeds :: "CircuitBreakerConfig \<Rightarrow> instant \<Rightarrow> Inner \<Rightarrow> Inner option" where
  "call_succeeds config now b =
     (case try_acquire config now b of
        (Some p, b) \<Rightarrow> Some (Permit_success p b)
      | (None, _) \<Rightarrow> None)"

definition refuses :: "CircuitBreakerConfig \<Rightarrow> instant \<Rightarrow> Inner \<Rightarrow> bool" where
  "refuses config now b \<longleftrightarrow> fst (try_acquire config now b) = None"

definition starts_closed :: bool where
  "starts_closed \<longleftrightarrow> cb_state CircuitBreaker_new = Closed"

fun fail_each :: "CircuitBreakerConfig \<Rightarrow> instant list \<Rightarrow> Inner \<Rightarrow> Inner option" where
  "fail_each config [] b = Some b"
| "fail_each config (now # nows) b = Option.bind (call_fails config now b) (fail_each config nows)"

definition stays_closed_below_failure_threshold :: "instant \<Rightarrow> instant \<Rightarrow> bool" where
  "stays_closed_below_failure_threshold t\<^sub>1 t\<^sub>2 \<longleftrightarrow>
     map_option cb_state (fail_each (test_config 3 (secs 30)) [t\<^sub>1, t\<^sub>2] CircuitBreaker_new) = Some Closed"

definition trips_open_after_n_consecutive_failures :: "instant \<Rightarrow> instant \<Rightarrow> instant \<Rightarrow> bool" where
  "trips_open_after_n_consecutive_failures t\<^sub>1 t\<^sub>2 t\<^sub>3 \<longleftrightarrow>
     map_option cb_state (fail_each (test_config 3 (secs 30)) [t\<^sub>1, t\<^sub>2, t\<^sub>3] CircuitBreaker_new) = Some Open"

definition success_resets_the_consecutive_failure_count ::
  "instant \<Rightarrow> instant \<Rightarrow> instant \<Rightarrow> instant \<Rightarrow> instant \<Rightarrow> bool" where
  "success_resets_the_consecutive_failure_count t\<^sub>1 t\<^sub>2 t\<^sub>3 t\<^sub>4 t\<^sub>5 \<longleftrightarrow>
     (let config = test_config 3 (secs 30) in
      map_option cb_state
        (Option.bind (fail_each config [t\<^sub>1, t\<^sub>2] CircuitBreaker_new) (\<lambda>b.
         Option.bind (call_succeeds config t\<^sub>3 b) (fail_each config [t\<^sub>4, t\<^sub>5]))) = Some Closed)"

definition open_circuit_short_circuits_calls_before_cooldown_elapses ::
  "instant \<Rightarrow> instant \<Rightarrow> instant \<Rightarrow> bool" where
  "open_circuit_short_circuits_calls_before_cooldown_elapses t\<^sub>1 t\<^sub>2 t\<^sub>3 \<longleftrightarrow>
     (let config = test_config 1 (secs 60) in
      case call_fails config t\<^sub>1 CircuitBreaker_new of
        None \<Rightarrow> False
      | Some b \<Rightarrow> cb_state b = Open \<and> refuses config t\<^sub>2 b \<and>
          refuses config t\<^sub>3 (snd (try_acquire config t\<^sub>2 b)))"

text \<open>The sleep of 30 ms moves the clock on at least as far.\<close>

definition allows_exactly_one_probe_after_cooldown_elapses ::
  "instant \<Rightarrow> instant \<Rightarrow> instant \<Rightarrow> bool" where
  "allows_exactly_one_probe_after_cooldown_elapses t\<^sub>1 t\<^sub>2 t\<^sub>3 \<longleftrightarrow>
     (let config = test_config 1 (millis 20) in
      case call_fails config t\<^sub>1 CircuitBreaker_new of
        None \<Rightarrow> False
      | Some b \<Rightarrow> cb_state b = Open \<and>
          (case try_acquire config t\<^sub>2 b of
             (None, _) \<Rightarrow> False
           | (Some probe, b) \<Rightarrow> is_probe probe \<and> cb_state b = HalfOpen \<and> refuses config t\<^sub>3 b \<and>
               cb_state (Permit_success probe (snd (try_acquire config t\<^sub>3 b))) = Closed))"

definition half_open_probe_success_closes_the_circuit :: "instant \<Rightarrow> instant \<Rightarrow> instant \<Rightarrow> bool" where
  "half_open_probe_success_closes_the_circuit t\<^sub>1 t\<^sub>2 t\<^sub>3 \<longleftrightarrow>
     (let config = test_config 1 (millis 20) in
      case Option.bind (call_fails config t\<^sub>1 CircuitBreaker_new) (call_succeeds config t\<^sub>2) of
        None \<Rightarrow> False
      | Some b \<Rightarrow> cb_state b = Closed \<and>
          (case try_acquire config t\<^sub>3 b of
             (None, _) \<Rightarrow> False
           | (Some permit, _) \<Rightarrow> \<not> is_probe permit))"

definition half_open_probe_failure_reopens_the_circuit_for_another_cooldown ::
  "instant \<Rightarrow> instant \<Rightarrow> instant \<Rightarrow> instant \<Rightarrow> bool" where
  "half_open_probe_failure_reopens_the_circuit_for_another_cooldown t\<^sub>1 t\<^sub>2 t\<^sub>3 t\<^sub>4 \<longleftrightarrow>
     (let config = test_config 1 (millis 20) in
      case fail_each config [t\<^sub>1, t\<^sub>2] CircuitBreaker_new of
        None \<Rightarrow> False
      | Some b \<Rightarrow> cb_state b = Open \<and> refuses config t\<^sub>3 b \<and>
          (case fst (try_acquire config t\<^sub>4 (snd (try_acquire config t\<^sub>3 b))) of
             None \<Rightarrow> False
           | Some probe \<Rightarrow> is_probe probe))"

definition dropping_a_permit_without_reporting_an_outcome_counts_as_failure ::
  "instant \<Rightarrow> instant \<Rightarrow> bool" where
  "dropping_a_permit_without_reporting_an_outcome_counts_as_failure t\<^sub>1 t\<^sub>2 \<longleftrightarrow>
     (let config = test_config 1 (secs 30) in
      case try_acquire config t\<^sub>1 CircuitBreaker_new of
        (None, _) \<Rightarrow> False
      | (Some permit, b) \<Rightarrow> map_option cb_state (Permit_drop config t\<^sub>2 False permit b) = Some Open)"

text \<open>A call on the breaker of a key, written back to the registry.\<close>

definition registry_call_fails ::
  "CircuitBreakerConfig \<Rightarrow> instant \<Rightarrow> string \<Rightarrow> breaker_map \<Rightarrow> breaker_map option" where
  "registry_call_fails config now key breakers =
     (let (b, breakers) = breaker_for key breakers in
      map_option (\<lambda>b. breakers(key \<mapsto> b)) (call_fails config now b))"

definition registry_isolates_breakers_per_key :: "instant \<Rightarrow> instant \<Rightarrow> bool" where
  "registry_isolates_breakers_per_key t\<^sub>1 t\<^sub>2 \<longleftrightarrow>
     (let config = test_config 1 (secs 30) in
      case registry_call_fails config t\<^sub>1 ''down-anchor.example'' (\<lambda>_. None) of
        None \<Rightarrow> False
      | Some breakers \<Rightarrow>
          state_for ''down-anchor.example'' breakers = Some Open \<and>
          state_for ''healthy-anchor.example'' breakers = None \<and>
          \<not> refuses config t\<^sub>2 (fst (breaker_for ''healthy-anchor.example'' breakers)))"

definition registry_returns_the_same_breaker_instance_for_the_same_key :: "instant \<Rightarrow> bool" where
  "registry_returns_the_same_breaker_instance_for_the_same_key t\<^sub>1 \<longleftrightarrow>
     (let config = test_config 1 (secs 30) in
      case registry_call_fails config t\<^sub>1 ''anchor.example'' (\<lambda>_. None) of
        None \<Rightarrow> False
      | Some breakers \<Rightarrow> cb_state (fst (breaker_for ''anchor.example'' breakers)) = Open)"

lemmas breaker_test_defs = breaker_ops call_fails_def call_succeeds_def refuses_def test_config_def
  secs_def millis_def cooldown_elapsed_def checked_add_def Permit_drop_def breaker_for_def state_for_def
  registry_call_fails_def word_le_nat_alt

lemma counting_tests_pass:
  starts_closed
  "stays_closed_below_failure_threshold t\<^sub>1 t\<^sub>2"
  "trips_open_after_n_consecutive_failures t\<^sub>1 t\<^sub>2 t\<^sub>3"
  "success_resets_the_consecutive_failure_count t\<^sub>1 t\<^sub>2 t\<^sub>3 t\<^sub>4 t\<^sub>5"
  "dropping_a_permit_without_reporting_an_outcome_counts_as_failure t\<^sub>1 t\<^sub>2"
  by (simp_all add: starts_closed_def stays_closed_below_failure_threshold_def
      trips_open_after_n_consecutive_failures_def success_resets_the_consecutive_failure_count_def
      dropping_a_permit_without_reporting_an_outcome_counts_as_failure_def breaker_test_defs)

text \<open>The tests with a cooldown pass whenever their sleeps are as long as they say and the rest is fast.\<close>

lemma cooldown_tests_pass:
  "t\<^sub>2 < t\<^sub>1 + secs 60 \<Longrightarrow> t\<^sub>3 < t\<^sub>1 + secs 60 \<Longrightarrow>
     open_circuit_short_circuits_calls_before_cooldown_elapses t\<^sub>1 t\<^sub>2 t\<^sub>3"
  "t\<^sub>1 + millis 30 \<le> t\<^sub>2 \<Longrightarrow> allows_exactly_one_probe_after_cooldown_elapses t\<^sub>1 t\<^sub>2 t\<^sub>3"
  "t\<^sub>1 + millis 30 \<le> t\<^sub>2 \<Longrightarrow> half_open_probe_success_closes_the_circuit t\<^sub>1 t\<^sub>2 t\<^sub>3"
  "t\<^sub>1 + millis 30 \<le> t\<^sub>2 \<Longrightarrow> t\<^sub>3 < t\<^sub>2 + millis 20 \<Longrightarrow> t\<^sub>2 + millis 30 \<le> t\<^sub>4 \<Longrightarrow>
     half_open_probe_failure_reopens_the_circuit_for_another_cooldown t\<^sub>1 t\<^sub>2 t\<^sub>3 t\<^sub>4"
  by (auto simp: open_circuit_short_circuits_calls_before_cooldown_elapses_def
      allows_exactly_one_probe_after_cooldown_elapses_def half_open_probe_success_closes_the_circuit_def
      half_open_probe_failure_reopens_the_circuit_for_another_cooldown_def breaker_test_defs)

lemma registry_tests_pass:
  "registry_isolates_breakers_per_key t\<^sub>1 t\<^sub>2"
  "registry_returns_the_same_breaker_instance_for_the_same_key t\<^sub>1"
  by (simp_all add: registry_isolates_breakers_per_key_def
      registry_returns_the_same_breaker_instance_for_the_same_key_def breaker_test_defs)

section \<open>Delivery\<close>

text \<open>
  \<open>spawn_fake_server\<close>: the first \<open>fail_count\<close> requests are answered with 500 and the later ones with
  200; \<open>None\<close> is \<open>usize::MAX\<close>, a server that always fails. \<open>took\<close> is how long each request takes.
\<close>

definition fake_server :: "nat option \<Rightarrow> (nat \<Rightarrow> duration) \<Rightarrow> platform \<Rightarrow> platform" where
  "fake_server fail_count took lib =
     lib\<lparr>http_post := (\<lambda>n url payload.
       let response_body = ''{'' @ [CHR 0x22] @ ''seen'' @ [CHR 0x22] @ '':'' @ show_nat n @ ''}'';
           failing = (case fail_count of None \<Rightarrow> True | Some k \<Rightarrow> n < k)
       in (Response (if failing then 500 else 200) (Some response_body), took n))\<rparr>"

definition quiet_world :: "instant \<Rightarrow> delivery_world" where
  "quiet_world now = \<lparr>dw_now = now, dw_breakers = (\<lambda>_. None), dw_sent = [], dw_log = []\<rparr>"

definition test_delivery :: "string \<Rightarrow> json \<Rightarrow> WebhookDelivery" where
  "test_delivery url payload = WebhookDelivery_new ''id'' 0 url payload"

definition one_try :: RetryConfig where
  "one_try = \<lparr>max_retries = 1, initial_backoff = millis 1, max_backoff = millis 5, backoff_multiplier = Finite 2 0\<rparr>"

definition received :: "delivery_world \<Rightarrow> nat" where
  "received w = length (dw_sent w)"

definition test_delivery_success_on_first_attempt ::
  "platform \<Rightarrow> (nat \<Rightarrow> duration) \<Rightarrow> string \<Rightarrow> instant \<Rightarrow> bool" where
  "test_delivery_success_on_first_attempt lib took base_url now \<longleftrightarrow>
     (let server = fake_server (Some 0) took lib;
          deliverer = WebhookDeliverer_new RetryConfig_default
      in case deliver server deliverer
                (test_delivery base_url (JObject [(''test'', JString ''data'')])) (quiet_world now) of
           (Ok result, w) \<Rightarrow> wd_status_code result = Some 200 \<and> received w = 1
         | _ \<Rightarrow> False)"

definition test_circuit_breaker_short_circuits ::
  "platform \<Rightarrow> (nat \<Rightarrow> duration) \<Rightarrow> string \<Rightarrow> instant \<Rightarrow> bool" where
  "test_circuit_breaker_short_circuits lib took base_url now \<longleftrightarrow>
     (let server = fake_server None took lib;
          deliverer = with_circuit_breaker \<lparr>failure_threshold = 2, cooldown = secs 60\<rparr>
            (WebhookDeliverer_new one_try);
          delivery = test_delivery base_url (JObject []);
          (err\<^sub>1, w) = deliver server deliverer delivery (quiet_world now);
          (err\<^sub>2, w) = deliver server deliverer delivery w;
          (err\<^sub>3, w') = deliver server deliverer delivery w
      in err\<^sub>1 = Err MaxRetriesExceeded \<and> err\<^sub>2 = Err MaxRetriesExceeded \<and> received w = 2 \<and>
         circuit_state_for server deliverer base_url w = Some Open \<and>
         err\<^sub>3 = Err CircuitOpen_err \<and> received w' = 2)"

definition test_circuit_breaker_half_open_probe_recovers_after_cooldown ::
  "platform \<Rightarrow> (nat \<Rightarrow> duration) \<Rightarrow> string \<Rightarrow> instant \<Rightarrow> bool" where
  "test_circuit_breaker_half_open_probe_recovers_after_cooldown lib took base_url now \<longleftrightarrow>
     (let server = fake_server (Some 1) took lib;
          deliverer = with_circuit_breaker \<lparr>failure_threshold = 1, cooldown = millis 30\<rparr>
            (WebhookDeliverer_new one_try);
          delivery = test_delivery base_url (JObject []);
          (err, w\<^sub>1) = deliver server deliverer delivery (quiet_world now);
          (refused, w\<^sub>2) = deliver server deliverer delivery w\<^sub>1;
          (recovered, w\<^sub>3) = deliver server deliverer delivery (sleep_for (millis 50) w\<^sub>2);
          (resumed, w\<^sub>4) = deliver server deliverer delivery w\<^sub>3
      in err = Err MaxRetriesExceeded \<and> circuit_state_for server deliverer base_url w\<^sub>1 = Some Open \<and>
         refused = Err CircuitOpen_err \<and> received w\<^sub>2 = 1 \<and>
         (case recovered of Ok result \<Rightarrow> wd_status_code result = Some 200 | _ \<Rightarrow> False) \<and>
         received w\<^sub>3 = 2 \<and> circuit_state_for server deliverer base_url w\<^sub>3 = Some Closed \<and>
         (case resumed of Ok _ \<Rightarrow> True | _ \<Rightarrow> False) \<and> received w\<^sub>4 = 3)"

definition test_no_circuit_breaker_attached_behaves_as_before ::
  "platform \<Rightarrow> (nat \<Rightarrow> duration) \<Rightarrow> string \<Rightarrow> instant \<Rightarrow> bool" where
  "test_no_circuit_breaker_attached_behaves_as_before lib took base_url now \<longleftrightarrow>
     (let server = fake_server (Some 0) took lib;
          deliverer = WebhookDeliverer_new RetryConfig_default
      in case deliver server deliverer
                (test_delivery base_url (JObject [(''test'', JString ''data'')])) (quiet_world now) of
           (Ok _, w) \<Rightarrow> circuit_state_for server deliverer base_url w = None
         | _ \<Rightarrow> False)"

text \<open>One iteration of the loop on a fresh delivery, when it succeeds or is not retried.\<close>

lemma deliver_loop_once:
  assumes "wd_attempt d = 0" and "wdr_logging dlv = None"
    and "http_post lib (length (dw_sent w)) (wd_url d) (wd_payload d) = (Response status body, took)"
    and "200 \<le> status \<and> status < 300 \<or> max_retries (wdr_retry dlv) = 1"
  shows "deliver_loop lib dlv br d w =
    (case take_permit dlv br w of
       (None, w) \<Rightarrow> (Err CircuitOpen_err, w)
     | (Some permit, w) \<Rightarrow>
         let w = w\<lparr>dw_sent := dw_sent w @ [(wd_url d, wd_payload d)], dw_now := dw_now w + took\<rparr> in
         if 200 \<le> status \<and> status < 300 then
           (Ok (d\<lparr>wd_attempt := 1, wd_last_attempted_at := Some (utc_now lib (dw_now w - took)),
                  wd_status_code := Some status, wd_response_body := body, wd_delivered := True\<rparr>),
            permit_succeeds dlv br permit w)
         else case permit_fails dlv br permit w of
           None \<Rightarrow> (Panic, w)
         | Some w \<Rightarrow> (Err MaxRetriesExceeded, w))"
proof -
  obtain p w' where permit: "take_permit dlv br w = (p, w')" by fastforce
  note frame = take_permit_frame [OF permit]
  have once: "checked_add (wd_attempt d) 1 = Some 1" by (simp add: assms(1) checked_add_def)
  let ?d = "d\<lparr>wd_attempt := 1, wd_last_attempted_at := Some (utc_now lib (dw_now w))\<rparr>"
  let ?w = "w'\<lparr>dw_sent := dw_sent w' @ [(wd_url d, wd_payload d)], dw_now := dw_now w' + took\<rparr>"
  obtain m where send: "send lib dlv ?d w' = (if 200 \<le> status \<and> status < 300 then Inr (status, body) else Inl m, ?w)"
    using assms(2,3) frame(1) by (simp add: send_def Let_def)
  have stop: "\<not> should_retry (wdr_retry dlv) 1" if "\<not> (200 \<le> status \<and> status < 300)"
    using assms(4) that by (auto simp: should_retry_def)
  show ?thesis
    by (subst deliver_loop.simps, cases p)
      (simp_all add: once permit send stop frame(3) Let_def split: option.split)
qed

lemmas delivery_test_defs = fake_server_def quiet_world_def test_delivery_def WebhookDelivery_new_def
  one_try_def received_def WebhookDeliverer_new_def with_circuit_breaker_def circuit_state_for_def
  circuit_key_def deliver_def take_permit_def permit_succeeds_def permit_fails_def sleep_for_def
  RetryConfig_default_def

lemma plain_delivery_tests_pass:
  "test_delivery_success_on_first_attempt lib took base_url now"
  "test_no_circuit_breaker_attached_behaves_as_before lib took base_url now"
  by (simp_all add: test_delivery_success_on_first_attempt_def
      test_no_circuit_breaker_attached_behaves_as_before_def delivery_test_defs deliver_loop_once
      word_le_nat_alt word_less_nat_alt Let_def split: option.split)

lemma breaker_delivery_tests_pass:
  assumes "host_of_url lib base_url = Some host"
  shows "test_circuit_breaker_short_circuits lib took base_url now"
    and "test_circuit_breaker_half_open_probe_recovers_after_cooldown lib took base_url now"
  using assms
  by (simp_all add: test_circuit_breaker_short_circuits_def
      test_circuit_breaker_half_open_probe_recovers_after_cooldown_def delivery_test_defs
      deliver_loop_once breaker_test_defs word_less_nat_alt Let_def)

end
