(* ===== verification/Sql_Table.thy ===== *)
theory Sql_Table
  imports Webhook_Types
begin

text \<open>
  A table of the SQLite database as the two stores of the SDK use it: its rows in insertion
  order, absent before the schema is created, with the number of queries made and the
  failure, if any, of the n-th one. A failed query writes nothing, and its error is reported as
  \<open>StorageError\<close>. \<open>TEXT\<close> values compare byte by byte.
\<close>

record 'r sql_db =
  db_table :: "'r list option"
  db_queries :: nat
  db_faults :: "nat \<Rightarrow> string option"

type_synonym ('r, 'a) query_result = "(WebhookError + 'a) \<times> 'r sql_db"

text \<open>
  One query on the table \<open>name\<close>; the query itself answers with an error text on the left or a
  result and the new rows on the right.
\<close>

definition db_query ::
  "string \<Rightarrow> ('r list \<Rightarrow> string + 'a \<times> 'r list) \<Rightarrow> 'r sql_db \<Rightarrow> ('r, 'a) query_result" where
  "db_query name f db =
     (let db' = db\<lparr>db_queries := Suc (db_queries db)\<rparr> in
      case db_faults db (db_queries db) of
        Some m \<Rightarrow> (Inl (StorageError m), db')
      | None \<Rightarrow>
          (case db_table db of
             None \<Rightarrow> (Inl (StorageError (''no such table: '' @ name)), db')
           | Some rows \<Rightarrow>
               (case f rows of
                  Inl m \<Rightarrow> (Inl (StorageError m), db')
                | Inr (x, rows') \<Rightarrow> (Inr x, db'\<lparr>db_table := Some rows'\<rparr>))))"

text \<open>\<open>CREATE TABLE IF NOT EXISTS\<close>.\<close>

definition db_create :: "'r sql_db \<Rightarrow> ('r, unit) query_result" where
  "db_create db =
     (let db' = db\<lparr>db_queries := Suc (db_queries db)\<rparr> in
      case db_faults db (db_queries db) of
        Some m \<Rightarrow> (Inl (StorageError m), db')
      | None \<Rightarrow>
          (Inr (), db'\<lparr>db_table := Some (case db_table db of None \<Rightarrow> [] | Some rows \<Rightarrow> rows)\<rparr>))"

fun text_less :: "string \<Rightarrow> string \<Rightarrow> bool" where
  "text_less xs [] = False"
| "text_less [] (y # ys) = True"
| "text_less (x # xs) (y # ys) =
     (char_code x < char_code y \<or> char_code x = char_code y \<and> text_less xs ys)"

section \<open>A working database\<close>

definition db_works :: "'r sql_db \<Rightarrow> bool" where
  "db_works db \<longleftrightarrow> db_table db \<noteq> None \<and> (\<forall>n. db_faults db n = None)"

lemma db_query_works:
  "db_works db \<Longrightarrow> f (the (db_table db)) = Inr (x, rows') \<Longrightarrow>
     db_query name f db =
       (Inr x, db\<lparr>db_queries := Suc (db_queries db), db_table := Some rows'\<rparr>)"
  by (auto simp: db_works_def db_query_def Let_def)

lemma db_query_refused:
  "db_works db \<Longrightarrow> f (the (db_table db)) = Inl m \<Longrightarrow>
     db_query name f db = (Inl (StorageError m), db\<lparr>db_queries := Suc (db_queries db)\<rparr>)"
  by (auto simp: db_works_def db_query_def Let_def)

lemma db_works_update [simp]:
  "db_works (db\<lparr>db_queries := n, db_table := Some rows\<rparr>) = (\<forall>n. db_faults db n = None)"
  "db_works (db\<lparr>db_queries := n\<rparr>) = db_works db"
  by (simp_all add: db_works_def)

lemma db_works_faults: "db_works db \<Longrightarrow> db_faults db n = None"
  by (simp add: db_works_def)

end
