(* ===== verification/Idempotency.thy ===== *)
theory Idempotency
  imports Delivery Sql_Table
begin

text \<open>
  The idempotency store (\<open>webhook-sdk/src/idempotency.rs\<close>) and the idempotent processor
  (\<open>webhook-sdk/src/processor.rs\<close>). The store is a table of the database (\<open>Sql_Table\<close>). SHA-256 in hex and the RFC 3339 printer are the record \<open>store_lib\<close>, with the range of the
  time type. The locale \<open>idem_store\<close> is what the processor relies on: the first response
  recorded under a key is the one that is found.
\<close>

section \<open>The table\<close>

record idem_row =
  ik_key :: string
  ik_payload :: string
  ik_response :: string
  ik_created_at :: string

type_synonym idem_db = "idem_row sql_db"

record store_lib =
  sha256_hex :: "string \<Rightarrow> string"
  rfc3339 :: "utc_time \<Rightarrow> string"
  utc_min :: utc_time
  utc_max :: utc_time

text \<open>\<open>INSERT OR IGNORE\<close> on the primary key, and the lookup by it.\<close>

definition insert_or_ignore :: "idem_row \<Rightarrow> idem_row list \<Rightarrow> idem_row list" where
  "insert_or_ignore row rows =
     (if list_ex (\<lambda>r. ik_key r = ik_key row) rows then rows else rows @ [row])"

definition select_key :: "string \<Rightarrow> idem_row list \<Rightarrow> idem_row option" where
  "select_key key rows = find (\<lambda>r. ik_key r = key) rows"

section \<open>The store\<close>

definition derive_idempotency_key :: "platform \<Rightarrow> store_lib \<Rightarrow> json \<Rightarrow> string" where
  "derive_idempotency_key lib slib payload = sha256_hex slib (or_empty (json_print lib payload))"

definition idem_initialize :: "idem_db \<Rightarrow> (WebhookError + unit) \<times> idem_db" where
  "idem_initialize db = db_create db"

definition idem_record ::
  "platform \<Rightarrow> store_lib \<Rightarrow> utc_time \<Rightarrow> string \<Rightarrow> json \<Rightarrow> json \<Rightarrow> idem_db
     \<Rightarrow> (WebhookError + unit) \<times> idem_db" where
  "idem_record lib slib now key payload response db =
     (case json_print lib payload of
        Inl m \<Rightarrow> (Inl (SerializationError m), db)
      | Inr payload_text \<Rightarrow>
          (case json_print lib response of
             Inl m \<Rightarrow> (Inl (SerializationError m), db)
           | Inr response_text \<Rightarrow>
               db_query ''idempotency_keys'' (\<lambda>rows. Inr ((), insert_or_ignore
                 \<lparr>ik_key = key, ik_payload = payload_text, ik_response = response_text,
                  ik_created_at = rfc3339 slib now\<rparr> rows)) db))"

definition idem_get ::
  "platform \<Rightarrow> string \<Rightarrow> idem_db \<Rightarrow> (WebhookError + json option) \<times> idem_db" where
  "idem_get lib key db =
     db_query ''idempotency_keys'' (\<lambda>rows. Inr
       (Option.bind (select_key key rows) (\<lambda>r.
          case json_parse lib (ik_response r) of Inl _ \<Rightarrow> None | Inr v \<Rightarrow> Some v), rows)) db"

definition idem_is_duplicate :: "string \<Rightarrow> idem_db \<Rightarrow> (WebhookError + bool) \<times> idem_db" where
  "idem_is_duplicate key db = db_query ''idempotency_keys'' (\<lambda>rows. Inr (select_key key rows \<noteq> None, rows)) db"

text \<open>
  \<open>retention_days\<close> is an \<open>i32\<close>. Subtracting the duration panics (\<open>None\<close>) when the result
  leaves the range of the time type.
\<close>

definition cleanup_old_records ::
  "store_lib \<Rightarrow> utc_time \<Rightarrow> 32 word \<Rightarrow> idem_db \<Rightarrow> ((WebhookError + nat) \<times> idem_db) option" where
  "cleanup_old_records slib now retention_days db =
     (let days_ago = now - sint retention_days * 86400 * 10 ^ 9 in
      if days_ago < utc_min slib \<or> utc_max slib < days_ago then None
      else Some (db_query ''idempotency_keys'' (\<lambda>rows.
        let old = (\<lambda>r. text_less (ik_created_at r) (rfc3339 slib days_ago))
        in Inr (length (filter old rows), filter (\<lambda>r. \<not> old r) rows)) db))"

section \<open>The processor\<close>

record ProcessingResult =
  pr_idempotency_key :: string
  pr_is_duplicate :: bool
  pr_response :: json

record proc_world =
  pw_delivery :: delivery_world
  pw_db :: idem_db

definition success_response :: "WebhookDelivery \<Rightarrow> json" where
  "success_response result =
     JObject [(''attempt'', JNumber (PosInt (ucast (wd_attempt result)))),
              (''delivered'', JBool True),
              (''status_code'',
               case wd_status_code result of None \<Rightarrow> JNull | Some s \<Rightarrow> JNumber (PosInt (ucast s)))]"

definition failure_response :: "WebhookError \<Rightarrow> json" where
  "failure_response e =
     JObject [(''delivered'', JBool False), (''error'', JString (webhook_error_to_string e))]"

definition process ::
  "platform \<Rightarrow> store_lib \<Rightarrow> WebhookDeliverer \<Rightarrow> WebhookDelivery \<Rightarrow> proc_world
     \<Rightarrow> (WebhookError, ProcessingResult) outcome \<times> proc_world" where
  "process lib slib dlv delivery w =
     (let key = derive_idempotency_key lib slib (wd_payload delivery) in
      case idem_get lib key (pw_db w) of
        (Inl e, db) \<Rightarrow> (Err e, w\<lparr>pw_db := db\<rparr>)
      | (Inr (Some cached_response), db) \<Rightarrow>
          (Ok \<lparr>pr_idempotency_key = key, pr_is_duplicate = True, pr_response = cached_response\<rparr>,
           w\<lparr>pw_db := db\<rparr>)
      | (Inr None, db) \<Rightarrow>
          (case deliver lib dlv delivery (pw_delivery w) of
             (Ok result, dw) \<Rightarrow>
               (let response = success_response result;
                    now = utc_now lib (dw_now dw)
                in case idem_record lib slib now key (wd_payload result) response db of
                     (Inl e, db) \<Rightarrow> (Err e, \<lparr>pw_delivery = dw, pw_db = db\<rparr>)
                   | (Inr _, db) \<Rightarrow>
                       (Ok \<lparr>pr_idempotency_key = key, pr_is_duplicate = False, pr_response = response\<rparr>,
                        \<lparr>pw_delivery = dw, pw_db = db\<rparr>))
           | (Err e, dw) \<Rightarrow>
               (let response = failure_response e;
                    now = utc_now lib (dw_now dw)
                in case idem_record lib slib now key (JObject []) response db of
                     (Inl e', db) \<Rightarrow> (Err e', \<lparr>pw_delivery = dw, pw_db = db\<rparr>)
                   | (Inr _, db) \<Rightarrow> (Err e, \<lparr>pw_delivery = dw, pw_db = db\<rparr>))
           | (Panic, dw) \<Rightarrow> (Panic, \<lparr>pw_delivery = dw, pw_db = db\<rparr>)))"

section \<open>The interface of the store\<close>

locale idem_store =
  fixes lookup :: "'k \<Rightarrow> 's \<Rightarrow> 'v option"
    and put :: "'k \<Rightarrow> 'v \<Rightarrow> 's \<Rightarrow> 's"
  assumes lookup_put: "lookup k (put k' v s) = (if k = k' \<and> lookup k s = None then Some v else lookup k s)"
begin

lemma first_wins: "lookup k s = Some v \<Longrightarrow> lookup k (put k' v' s) = Some v"
  by (simp add: lookup_put)

lemma first_recorded: "lookup k s = None \<Longrightarrow> lookup k (put k v s) = Some v"
  by (simp add: lookup_put)

lemma kept_by_later: "lookup k s = Some v \<Longrightarrow> lookup k (fold (\<lambda>(k', v'). put k' v') later s) = Some v"
  by (induction later arbitrary: s) (auto simp: first_wins)

end

definition response_text :: "string \<Rightarrow> idem_row list \<Rightarrow> string option" where
  "response_text key rows = map_option ik_response (select_key key rows)"

lemma select_key_insert:
  "select_key key (insert_or_ignore row rows) =
     (if key = ik_key row \<and> select_key key rows = None then Some row else select_key key rows)"
proof -
  have "select_key key (rows @ [row]) =
      (case select_key key rows of None \<Rightarrow> if ik_key row = key then Some row else None | Some r \<Rightarrow> Some r)"
    by (induction rows) (auto simp: select_key_def split: option.split)
  moreover have "list_ex (\<lambda>r. ik_key r = ik_key row) rows \<longleftrightarrow> select_key (ik_key row) rows \<noteq> None"
    by (auto simp: select_key_def find_None_iff list_ex_iff)
  ultimately show ?thesis by (auto simp: insert_or_ignore_def split: option.split)
qed

interpretation responses: idem_store response_text
  "\<lambda>key text. insert_or_ignore \<lparr>ik_key = key, ik_payload = p, ik_response = text, ik_created_at = c\<rparr>" for p c
  by unfold_locales (auto simp: response_text_def select_key_insert)

section \<open>Processing against a working database\<close>

definition found_text :: "string \<Rightarrow> idem_db \<Rightarrow> string option" where
  "found_text key db = Option.bind (db_table db) (response_text key)"

lemma idem_get_works:
  assumes "db_works db" and "idem_get lib key db = (r, db')"
  shows "db_works db'" and "db_table db' = db_table db"
    and "r = Inr (case found_text key db of None \<Rightarrow> None
           | Some text \<Rightarrow> (case json_parse lib text of Inl _ \<Rightarrow> None | Inr v \<Rightarrow> Some v))"
proof -
  obtain rows where rows: "db_table db = Some rows" using assms(1) by (auto simp: db_works_def)
  let ?v = "Option.bind (select_key key rows) (\<lambda>r.
      case json_parse lib (ik_response r) of Inl _ \<Rightarrow> None | Inr v \<Rightarrow> Some v)"
  have "idem_get lib key db = (Inr ?v, db\<lparr>db_queries := Suc (db_queries db), db_table := Some rows\<rparr>)"
    unfolding idem_get_def using assms(1) by (rule db_query_works) (simp add: rows)
  then have r: "r = Inr ?v" and db': "db' = db\<lparr>db_queries := Suc (db_queries db), db_table := Some rows\<rparr>"
    using assms(2) by simp_all
  show "db_works db'" and "db_table db' = db_table db"
    using assms(1) rows by (simp_all add: db' db_works_faults)
  show "r = Inr (case found_text key db of None \<Rightarrow> None
      | Some text \<Rightarrow> (case json_parse lib text of Inl _ \<Rightarrow> None | Inr v \<Rightarrow> Some v))"
    using r rows by (cases "select_key key rows") (auto simp: found_text_def response_text_def)
qed

lemma idem_record_works:
  assumes "db_works db" and "json_print lib payload = Inr p" and "json_print lib response = Inr text"
    and "found_text key db = None"
    and "idem_record lib slib now key payload response db = (r, db')"
  shows "r = Inr ()" and "db_works db'" and "found_text key db' = Some text"
proof -
  obtain rows where rows: "db_table db = Some rows" using assms(1) by (auto simp: db_works_def)
  let ?row = "\<lparr>ik_key = key, ik_payload = p, ik_response = text, ik_created_at = rfc3339 slib now\<rparr>"
  have "db_query ''idempotency_keys'' (\<lambda>rows. Inr ((), insert_or_ignore ?row rows)) db =
      (Inr (), db\<lparr>db_queries := Suc (db_queries db), db_table := Some (insert_or_ignore ?row rows)\<rparr>)"
    using assms(1) by (rule db_query_works) (simp add: rows)
  then have r: "r = Inr ()"
    and db': "db' = db\<lparr>db_queries := Suc (db_queries db), db_table := Some (insert_or_ignore ?row rows)\<rparr>"
    using assms(2,3,5) by (simp_all add: idem_record_def)
  show "r = Inr ()" by (rule r)
  show "db_works db'" using assms(1) by (simp add: db' db_works_faults)
  have "response_text key rows = None" using assms(4) rows by (simp add: found_text_def)
  then have "response_text key (insert_or_ignore ?row rows) = Some text"
    by (rule responses.first_recorded)
  then show "found_text key db' = Some text" by (simp add: found_text_def db')
qed

text \<open>The response a first call leaves in the store, read off its result.\<close>

definition recorded_response :: "(WebhookError, ProcessingResult) outcome \<Rightarrow> json" where
  "recorded_response r =
     (case r of Ok res \<Rightarrow> pr_response res | Err e \<Rightarrow> failure_response e | Panic \<Rightarrow> JNull)"

definition printer_total :: "platform \<Rightarrow> bool" where
  "printer_total lib \<longleftrightarrow> (\<forall>v. \<exists>text. json_print lib v = Inr text)"

lemma process_first:
  assumes "db_works (pw_db w)"
    and "found_text (derive_idempotency_key lib slib (wd_payload d)) (pw_db w) = None"
    and "process lib slib dlv d w = (r, w')" and "r \<noteq> Panic" and "printer_total lib"
  shows "db_works (pw_db w')"
    and "json_print lib (recorded_response r) = Inr text \<Longrightarrow>
       found_text (derive_idempotency_key lib slib (wd_payload d)) (pw_db w') = Some text"
    and "\<exists>r0. deliver lib dlv d (pw_delivery w) = (r0, pw_delivery w')"
proof -
  let ?key = "derive_idempotency_key lib slib (wd_payload d)"
  obtain g db where g: "idem_get lib ?key (pw_db w) = (g, db)" by fastforce
  note got = idem_get_works [OF assms(1) g]
  have none: "g = Inr None" "found_text ?key db = None"
    using got(2,3) assms(2) by (simp_all add: found_text_def)
  obtain r0 dw where dlv: "deliver lib dlv d (pw_delivery w) = (r0, dw)" by fastforce
  note run = assms(3) [unfolded process_def Let_def g none(1) dlv, simplified]
  have "r0 \<noteq> Panic" using run assms(4) by auto
  then obtain payload response db' x where
      rec: "idem_record lib slib (utc_now lib (dw_now dw)) ?key payload response db = (x, db')"
    and w': "w' = \<lparr>pw_delivery = dw, pw_db = db'\<rparr>"
    and r: "x = Inr () \<Longrightarrow> recorded_response r = response"
    using run
    by (cases r0) (auto simp: recorded_response_def split: prod.splits sum.splits)
  obtain p t where printed: "json_print lib payload = Inr p" "json_print lib response = Inr t"
    using assms(5) unfolding printer_total_def by metis
  note recd = idem_record_works [OF got(1) printed none(2) rec]
  show "db_works (pw_db w')" and "\<exists>r0. deliver lib dlv d (pw_delivery w) = (r0, pw_delivery w')"
    using recd w' dlv by auto
  show "json_print lib (recorded_response r) = Inr text \<Longrightarrow> found_text ?key (pw_db w') = Some text"
    using recd w' r printed(2) by simp
qed

lemma process_duplicate:
  assumes "db_works (pw_db w)"
    and "found_text (derive_idempotency_key lib slib (wd_payload d)) (pw_db w) = Some text"
    and "json_parse lib text = Inr v"
  obtains w' where "process lib slib dlv d w =
      (Ok \<lparr>pr_idempotency_key = derive_idempotency_key lib slib (wd_payload d),
           pr_is_duplicate = True, pr_response = v\<rparr>, w')"
    "pw_delivery w' = pw_delivery w" "db_works (pw_db w')" "db_table (pw_db w') = db_table (pw_db w)"
proof -
  let ?key = "derive_idempotency_key lib slib (wd_payload d)"
  obtain g db where g: "idem_get lib ?key (pw_db w) = (g, db)" by fastforce
  note got = idem_get_works [OF assms(1) g]
  have "g = Inr (Some v)" using got(3) assms(2,3) by simp
  then show ?thesis using that [of "w\<lparr>pw_db := db\<rparr>"] g got(1,2) by (simp add: process_def)
qed

fun process_all ::
  "platform \<Rightarrow> store_lib \<Rightarrow> WebhookDeliverer \<Rightarrow> WebhookDelivery list \<Rightarrow> proc_world
     \<Rightarrow> (WebhookError, ProcessingResult) outcome list \<times> proc_world" where
  "process_all lib slib dlv [] w = ([], w)"
| "process_all lib slib dlv (d # ds) w =
     (case process lib slib dlv d w of
        (r, w') \<Rightarrow> (case process_all lib slib dlv ds w' of (rs, w'') \<Rightarrow> (r # rs, w'')))"

lemma process_duplicates:
  "db_works (pw_db w) \<Longrightarrow> found_text (derive_idempotency_key lib slib p) (pw_db w) = Some text \<Longrightarrow>
     json_parse lib text = Inr v \<Longrightarrow> \<forall>d \<in> set ds. wd_payload d = p \<Longrightarrow>
     \<exists>w'. process_all lib slib dlv ds w =
       (replicate (length ds) (Ok \<lparr>pr_idempotency_key = derive_idempotency_key lib slib p,
          pr_is_duplicate = True, pr_response = v\<rparr>), w') \<and> pw_delivery w' = pw_delivery w"
proof (induction ds arbitrary: w)
  case (Cons d ds)
  have d: "wd_payload d = p" using Cons.prems(4) by simp
  obtain w1 where w1: "process lib slib dlv d w =
      (Ok \<lparr>pr_idempotency_key = derive_idempotency_key lib slib p, pr_is_duplicate = True,
        pr_response = v\<rparr>, w1)"
    "pw_delivery w1 = pw_delivery w" "db_works (pw_db w1)" "db_table (pw_db w1) = db_table (pw_db w)"
    using process_duplicate [of w lib slib d "text" v dlv] Cons.prems d by auto
  have "found_text (derive_idempotency_key lib slib p) (pw_db w1) = Some text"
    using Cons.prems(2) w1(4) by (simp add: found_text_def)
  then obtain w2 where "process_all lib slib dlv ds w1 =
      (replicate (length ds) (Ok \<lparr>pr_idempotency_key = derive_idempotency_key lib slib p,
         pr_is_duplicate = True, pr_response = v\<rparr>), w2)" "pw_delivery w2 = pw_delivery w1"
    using Cons.IH [of w1] Cons.prems w1(3) by auto
  then show ?case using w1 by simp
qed simp

section \<open>Properties\<close>

text \<open>
  C29. A payload takes effect once: after the first processing of a payload on a working
  database, whether it succeeded or failed, every later delivery of the same payload, to
  whatever URL, is answered from the store as a successful duplicate carrying the recorded
  response, and none of them sends a request. All the requests ever made are those of the
  first delivery. In particular the duplicate of a failed delivery is not reported as an
  error: it is a success that carries \<open>delivered: false\<close>. Printing a JSON value is
  assumed not to fail, and the recorded response to be read back as it was written.
\<close>

theorem payload_takes_effect_once:
  assumes "db_works (pw_db w)"
    and "found_text (derive_idempotency_key lib slib (wd_payload d)) (pw_db w) = None"
    and "process lib slib dlv d w = (r, w1)" and "r \<noteq> Panic" and "wd_attempt d = 0"
    and "printer_total lib"
    and "json_print lib (recorded_response r) = Inr text"
    and "json_parse lib text = Inr (recorded_response r)"
    and "\<forall>d' \<in> set ds. wd_payload d' = wd_payload d"
  shows "\<exists>w2 n. process_all lib slib dlv ds w1 =
       (replicate (length ds)
          (Ok \<lparr>pr_idempotency_key = derive_idempotency_key lib slib (wd_payload d),
               pr_is_duplicate = True, pr_response = recorded_response r\<rparr>), w2) \<and>
     dw_sent (pw_delivery w2) = dw_sent (pw_delivery w) @ replicate n (wd_url d, wd_payload d) \<and>
     n \<le> max 1 (unat (max_retries (wdr_retry dlv)))"
proof -
  note first = process_first [OF assms(1-4,6)]
  obtain r0 where "deliver lib dlv d (pw_delivery w) = (r0, pw_delivery w1)" using first(3) by blast
  then obtain n where n: "dw_sent (pw_delivery w1) =
      dw_sent (pw_delivery w) @ replicate n (wd_url d, wd_payload d)"
    "n \<le> max 1 (unat (max_retries (wdr_retry dlv)))"
    by (rule deliver_sends [OF _ assms(5)])
  obtain w2 where "process_all lib slib dlv ds w1 =
      (replicate (length ds) (Ok \<lparr>pr_idempotency_key = derive_idempotency_key lib slib (wd_payload d),
         pr_is_duplicate = True, pr_response = recorded_response r\<rparr>), w2)"
    "pw_delivery w2 = pw_delivery w1"
    using process_duplicates [OF first(1) first(2) [OF assms(7)] assms(8,9)] by blast
  then show ?thesis using n by auto
qed

definition demo_codec :: platform where
  "demo_codec = demo_platform
     \<lparr>json_print := (\<lambda>v. if v = failure_response MaxRetriesExceeded then Inr ''f'' else Inr ''v''),
      json_parse := (\<lambda>s. if s = ''f'' then Inr (failure_response MaxRetriesExceeded) else Inl ''?'')\<rparr>"

definition demo_one_shot :: WebhookDeliverer where
  "demo_one_shot = WebhookDeliverer_new (RetryConfig_default\<lparr>max_retries := 1\<rparr>)"

definition demo_store_lib :: store_lib where
  "demo_store_lib = \<lparr>sha256_hex = id, rfc3339 = (\<lambda>t. if t < 100 then ''a'' else ''b''),
     utc_min = - (10 ^ 30), utc_max = 10 ^ 30\<rparr>"

definition demo_proc_world :: proc_world where
  "demo_proc_world = \<lparr>pw_delivery = demo_world,
     pw_db = \<lparr>db_table = Some [], db_queries = 0, db_faults = (\<lambda>_. None)\<rparr>\<rparr>"

lemma demo_deliver_fails:
  "fst (deliver demo_codec demo_one_shot (WebhookDelivery_new ''id'' 0 ''https://anchor/hook'' JNull)
     demo_world) = Err MaxRetriesExceeded"
  by (simp add: deliver_def deliver_loop.simps demo_codec_def demo_platform_def demo_one_shot_def
      WebhookDeliverer_new_def WebhookDelivery_new_def demo_world_def take_permit_def send_def
      permit_fails_def should_retry_def checked_add_def Let_def)

lemma demo_process_fails:
  "fst (process demo_codec demo_store_lib demo_one_shot
     (WebhookDelivery_new ''id'' 0 ''https://anchor/hook'' JNull) demo_proc_world) = Err MaxRetriesExceeded"
proof -
  obtain dw where dw: "deliver demo_codec demo_one_shot
      (WebhookDelivery_new ''id'' 0 ''https://anchor/hook'' JNull) demo_world = (Err MaxRetriesExceeded, dw)"
    using demo_deliver_fails by (metis prod.collapse)
  show ?thesis
    by (simp add: process_def Let_def idem_get_def idem_record_def db_query_def select_key_def
        demo_proc_world_def dw) (simp add: demo_codec_def db_query_def)
qed

theorem payload_takes_effect_once_witness:
  "\<exists>w1 w2. process_all demo_codec demo_store_lib demo_one_shot
       [WebhookDelivery_new ''id2'' 9 ''https://other/hook'' JNull] w1 =
     ([Ok \<lparr>pr_idempotency_key = ''v'', pr_is_duplicate = True,
           pr_response = failure_response MaxRetriesExceeded\<rparr>], w2)"
proof -
  let ?d = "WebhookDelivery_new ''id'' 0 ''https://anchor/hook'' JNull"
  obtain w1 where run: "process demo_codec demo_store_lib demo_one_shot ?d demo_proc_world =
      (Err MaxRetriesExceeded, w1)"
    using demo_process_fails by (metis prod.collapse)
  have "derive_idempotency_key demo_codec demo_store_lib (wd_payload ?d) = ''v''"
    by (simp add: derive_idempotency_key_def demo_codec_def demo_store_lib_def or_empty_def
        WebhookDelivery_new_def failure_response_def)
  moreover have "db_works (pw_db demo_proc_world)" and "found_text k (pw_db demo_proc_world) = None" for k
    by (simp_all add: db_works_def demo_proc_world_def found_text_def response_text_def select_key_def)
  moreover have "printer_total demo_codec"
    unfolding printer_total_def demo_codec_def by simp
  moreover have "json_print demo_codec (recorded_response (Err MaxRetriesExceeded)) = Inr ''f''"
    and "json_parse demo_codec ''f'' = Inr (recorded_response (Err MaxRetriesExceeded))"
    and "recorded_response (Err MaxRetriesExceeded) = failure_response MaxRetriesExceeded"
    by (simp_all add: demo_codec_def recorded_response_def)
  ultimately show ?thesis
    using payload_takes_effect_once [OF _ _ run, of "''f''"
        "[WebhookDelivery_new ''id2'' 9 ''https://other/hook'' JNull]"]
    by (auto simp: WebhookDelivery_new_def simp del: process_all.simps)
qed

text \<open>
  Cleaning up removes exactly the records older than the retention period, reports how
  many these were, and keeps the others in order, when the printed times compare as the
  times do.
\<close>

lemma cleanup_exact:
  assumes "db_table db = Some (map (\<lambda>(t, r). r\<lparr>ik_created_at := rfc3339 slib t\<rparr>) entries)"
    and "db_works db" and "cutoff = now - sint days * 86400 * 10 ^ 9"
    and "\<forall>(t, r) \<in> set entries. text_less (rfc3339 slib t) (rfc3339 slib cutoff) \<longleftrightarrow> t < cutoff"
    and "utc_min slib \<le> cutoff" and "cutoff \<le> utc_max slib"
  shows "\<exists>db'. cleanup_old_records slib now days db =
       Some (Inr (length (filter (\<lambda>(t, r). t < cutoff) entries)), db') \<and>
     db_table db' = Some (map (\<lambda>(t, r). r\<lparr>ik_created_at := rfc3339 slib t\<rparr>)
       (filter (\<lambda>(t, r). \<not> t < cutoff) entries))"
proof -
  let ?print = "\<lambda>(t, r). r\<lparr>ik_created_at := rfc3339 slib t\<rparr>"
  let ?old = "\<lambda>r. text_less (ik_created_at r) (rfc3339 slib cutoff)"
  have filters: "filter ?old (map ?print entries) = map ?print (filter (\<lambda>(t, r). t < cutoff) entries)"
    and kept: "filter (\<lambda>r. \<not> ?old r) (map ?print entries) =
      map ?print (filter (\<lambda>(t, r). \<not> t < cutoff) entries)"
    using assms(4) by (induction entries) auto
  have "cleanup_old_records slib now days db = Some (db_query ''idempotency_keys''
      (\<lambda>rows. Inr (length (filter ?old rows), filter (\<lambda>r. \<not> ?old r) rows)) db)"
    unfolding cleanup_old_records_def Let_def assms(3) [symmetric]
    using assms(5,6) by simp
  also have "\<dots> = Some (Inr (length (filter ?old (map ?print entries))), db\<lparr>db_queries := Suc (db_queries db),
      db_table := Some (filter (\<lambda>r. \<not> ?old r) (map ?print entries))\<rparr>)"
    by (rule arg_cong [of _ _ Some], rule db_query_works [OF assms(2)]) (simp only: assms(1) option.sel)
  finally show ?thesis by (simp only: filters kept length_map) simp
qed

end
