(* ===== verification/Dead_Letter.thy ===== *)
theory Dead_Letter
  imports Sql_Table Log_Redaction "HOL-Library.Multiset"
begin

text \<open>
  The dead-letter queue (\<open>webhook-sdk/src/dead_letter.rs\<close>) and the monitor over it
  (\<open>webhook-sdk/src/monitor.rs\<close>). A dead letter is stored as one row and read back column by
  column. What other libraries do is the record \<open>dlq_lib\<close>: the JSON codec, the RFC 3339 printer
  and parser, the reading of an integer column as an \<open>i32\<close> (\<open>None\<close> is its panic), the order in
  which \<open>ORDER BY dead_lettered_at DESC\<close> returns the rows, and the text of a primary-key
  conflict.
\<close>

record dlq_row =
  dr_id :: string
  dr_delivery_id :: string
  dr_url :: string
  dr_payload :: string
  dr_status_code :: "int option"
  dr_response_body :: "string option"
  dr_attempt :: int
  dr_error :: "string option"
  dr_created_at :: string
  dr_last_attempted_at :: "string option"
  dr_delivered :: bool
  dr_reason :: string
  dr_dead_lettered_at :: string

record dlq_lib =
  dlq_print :: json_printer
  dlq_parse :: json_parser
  dlq_rfc3339 :: "utc_time \<Rightarrow> string"
  dlq_parse_rfc3339 :: "string \<Rightarrow> utc_time option"
  dlq_i32 :: "int \<Rightarrow> 32 word option"
  dlq_newest_first :: "dlq_row list \<Rightarrow> dlq_row list"
  dlq_conflict :: string

type_synonym dlq_db = "dlq_row sql_db"

section \<open>The queue\<close>

definition dlq_initialize :: "dlq_db \<Rightarrow> (dlq_row, unit) query_result" where
  "dlq_initialize db = db_create db"

definition dead_letter_row :: "dlq_lib \<Rightarrow> string \<Rightarrow> DeadLetter \<Rightarrow> dlq_row" where
  "dead_letter_row lib payload dead_letter =
     (let d = dl_delivery dead_letter in
      \<lparr>dr_id = dl_id dead_letter, dr_delivery_id = wd_id d, dr_url = wd_url d, dr_payload = payload,
       dr_status_code = map_option uint (wd_status_code d),
       dr_response_body = wd_response_body d, dr_attempt = uint (wd_attempt d),
       dr_error = wd_error d, dr_created_at = dlq_rfc3339 lib (wd_created_at d),
       dr_last_attempted_at = map_option (dlq_rfc3339 lib) (wd_last_attempted_at d),
       dr_delivered = wd_delivered d, dr_reason = dl_reason dead_letter,
       dr_dead_lettered_at = dlq_rfc3339 lib (dl_dead_lettered_at dead_letter)\<rparr>)"

definition dlq_store :: "dlq_lib \<Rightarrow> DeadLetter \<Rightarrow> dlq_db \<Rightarrow> (dlq_row, unit) query_result" where
  "dlq_store lib dead_letter db =
     (case dlq_print lib (wd_payload (dl_delivery dead_letter)) of
        Inl m \<Rightarrow> (Inl (SerializationError m), db)
      | Inr payload \<Rightarrow>
          db_query ''dead_letters'' (\<lambda>rows.
            let row = dead_letter_row lib payload dead_letter in
            if list_ex (\<lambda>r. dr_id r = dr_id row) rows then Inl (dlq_conflict lib)
            else Inr ((), rows @ [row])) db)"

text \<open>
  A row read back: a payload that does not parse becomes an empty object, a time that does
  not parse the time of reading. \<open>None\<close> is the panic of a column that does not decode.
\<close>

definition row_to_dead_letter :: "dlq_lib \<Rightarrow> utc_time \<Rightarrow> dlq_row \<Rightarrow> DeadLetter option" where
  "row_to_dead_letter lib now row =
     (let status_code = (case dr_status_code row of None \<Rightarrow> Some None
                         | Some s \<Rightarrow> map_option Some (dlq_i32 lib s))
      in case (status_code, dlq_i32 lib (dr_attempt row)) of
           (Some status_code, Some attempt) \<Rightarrow>
             let delivery =
                   \<lparr>wd_id = dr_delivery_id row, wd_url = dr_url row,
                    wd_payload = (case dlq_parse lib (dr_payload row) of Inl _ \<Rightarrow> JObject [] | Inr v \<Rightarrow> v),
                    wd_status_code = map_option ucast status_code,
                    wd_response_body = dr_response_body row, wd_attempt = attempt,
                    wd_error = dr_error row,
                    wd_created_at =
                      (case dlq_parse_rfc3339 lib (dr_created_at row) of None \<Rightarrow> now | Some t \<Rightarrow> t),
                    wd_last_attempted_at =
                      Option.bind (dr_last_attempted_at row) (dlq_parse_rfc3339 lib),
                    wd_delivered = dr_delivered row\<rparr>
             in Some \<lparr>dl_id = dr_id row, dl_delivery = delivery, dl_reason = dr_reason row,
                  dl_dead_lettered_at =
                    (case dlq_parse_rfc3339 lib (dr_dead_lettered_at row) of None \<Rightarrow> now | Some t \<Rightarrow> t)\<rparr>
         | _ \<Rightarrow> None)"

text \<open>The results of the reading operations: an error, or the value unless a row panics.\<close>

definition read_result :: "(WebhookError + 'a option) \<Rightarrow> (WebhookError, 'a) outcome" where
  "read_result r = (case r of Inl e \<Rightarrow> Err e | Inr None \<Rightarrow> Panic | Inr (Some x) \<Rightarrow> Ok x)"

definition dlq_get ::
  "dlq_lib \<Rightarrow> utc_time \<Rightarrow> string \<Rightarrow> dlq_db \<Rightarrow> (WebhookError, DeadLetter option) outcome \<times> dlq_db" where
  "dlq_get lib now i db =
     apfst read_result (db_query ''dead_letters'' (\<lambda>rows. Inr
       (case find (\<lambda>r. dr_id r = i) rows of
          None \<Rightarrow> Some None
        | Some r \<Rightarrow> map_option Some (row_to_dead_letter lib now r), rows)) db)"

text \<open>\<open>LIMIT\<close> and \<open>OFFSET\<close> of SQLite: a negative limit is none, a negative offset is zero.\<close>

definition page :: "int \<Rightarrow> int \<Rightarrow> 'a list \<Rightarrow> 'a list" where
  "page limit offset xs =
     (let xs = drop (nat offset) xs in if limit < 0 then xs else take (nat limit) xs)"

definition dlq_list ::
  "dlq_lib \<Rightarrow> utc_time \<Rightarrow> int \<Rightarrow> int \<Rightarrow> dlq_db \<Rightarrow> (WebhookError, DeadLetter list) outcome \<times> dlq_db" where
  "dlq_list lib now limit offset db =
     apfst read_result (db_query ''dead_letters'' (\<lambda>rows. Inr
       (those (map (row_to_dead_letter lib now) (page limit offset (dlq_newest_first lib rows))), rows)) db)"

definition dlq_count :: "dlq_db \<Rightarrow> (WebhookError, int) outcome \<times> dlq_db" where
  "dlq_count db =
     apfst read_result (db_query ''dead_letters'' (\<lambda>rows. Inr (Some (int (length rows)), rows)) db)"

section \<open>The monitor\<close>

record MonitoringReport =
  total_dead_letters :: int
  recent_dead_letters :: "DeadLetter list"

definition store_dead_letter :: "dlq_lib \<Rightarrow> DeadLetter \<Rightarrow> dlq_db \<Rightarrow> (dlq_row, unit) query_result" where
  "store_dead_letter = dlq_store"

definition get_dead_letter ::
  "dlq_lib \<Rightarrow> utc_time \<Rightarrow> string \<Rightarrow> dlq_db \<Rightarrow> (WebhookError, DeadLetter option) outcome \<times> dlq_db" where
  "get_dead_letter = dlq_get"

definition list_dead_letters ::
  "dlq_lib \<Rightarrow> utc_time \<Rightarrow> int \<Rightarrow> int \<Rightarrow> dlq_db \<Rightarrow> (WebhookError, DeadLetter list) outcome \<times> dlq_db" where
  "list_dead_letters = dlq_list"

definition dead_letter_count :: "dlq_db \<Rightarrow> (WebhookError, int) outcome \<times> dlq_db" where
  "dead_letter_count = dlq_count"

definition generate_report ::
  "dlq_lib \<Rightarrow> utc_time \<Rightarrow> (dlq_db, WebhookError, MonitoringReport) op" where
  "generate_report lib now =
     bindS dlq_count (\<lambda>total.
     bindS (dlq_list lib now 10 0) (\<lambda>recent.
     retS \<lparr>total_dead_letters = total, recent_dead_letters = recent\<rparr>))"

section \<open>Facts\<close>

lemma i32_range:
  assumes "0 \<le> (n :: int)" and "n < 2 ^ 31"
  shows "- (2 ^ 31) \<le> n \<and> n < 2 ^ 31"
proof -
  have "- (2 ^ 31) \<le> (0 :: int)" by simp
  with assms show ?thesis using order_trans by blast
qed

lemma u16_in_i32: "- (2 ^ 31) \<le> uint (s :: u16) \<and> uint s < 2 ^ 31"
proof -
  have "uint s < 65536" using uint_lt2p [of s] by simp
  then show ?thesis by (intro i32_range) simp_all
qed

lemma ucast_u16_u32: "ucast (ucast (s :: u16) :: u32) = s"
  by (rule bit_word_eqI) (simp add: bit_ucast_iff)

text \<open>
  The times of a letter, and what is asked of the codecs: that these times are read back from their
  RFC 3339 text, and that an integer column gives the \<open>i32\<close> it holds.
\<close>

definition letter_times :: "DeadLetter \<Rightarrow> utc_time set" where
  "letter_times dl = {wd_created_at (dl_delivery dl), dl_dead_lettered_at dl} \<union>
     set_option (wd_last_attempted_at (dl_delivery dl))"

definition dlq_codec :: "dlq_lib \<Rightarrow> utc_time set \<Rightarrow> bool" where
  "dlq_codec lib ts \<longleftrightarrow>
     (\<forall>t \<in> ts. dlq_parse_rfc3339 lib (dlq_rfc3339 lib t) = Some t) \<and>
     (\<forall>n. - (2 ^ 31) \<le> n \<and> n < 2 ^ 31 \<longrightarrow> dlq_i32 lib n = Some (word_of_int n))"

lemma row_roundtrip:
  assumes "dlq_codec lib (letter_times dl)" and "dlq_parse lib payload = Inr (wd_payload (dl_delivery dl))"
    and "unat (wd_attempt (dl_delivery dl)) < 2 ^ 31"
  shows "row_to_dead_letter lib now (dead_letter_row lib payload dl) = Some dl"
proof -
  let ?d = "dl_delivery dl"
  have attempt: "dlq_i32 lib (uint (wd_attempt ?d)) = Some (wd_attempt ?d)"
  proof -
    have "uint (wd_attempt ?d) < 2 ^ 31"
      using assms(3) by (metis of_nat_less_iff of_nat_numeral of_nat_power uint_nat)
    then have "- (2 ^ 31) \<le> uint (wd_attempt ?d) \<and> uint (wd_attempt ?d) < 2 ^ 31"
      by (intro i32_range) simp_all
    then have "dlq_i32 lib (uint (wd_attempt ?d)) = Some (word_of_int (uint (wd_attempt ?d)))"
      using assms(1) unfolding dlq_codec_def by blast
    then show ?thesis by simp
  qed
  have status: "dlq_i32 lib (uint s) = Some (word_of_int (uint s))" for s :: u16
    using assms(1) u16_in_i32 [of s] unfolding dlq_codec_def by blast
  have times: "dlq_parse_rfc3339 lib (dlq_rfc3339 lib (wd_created_at ?d)) = Some (wd_created_at ?d)"
    "dlq_parse_rfc3339 lib (dlq_rfc3339 lib (dl_dead_lettered_at dl)) = Some (dl_dead_lettered_at dl)"
    using assms(1) by (simp_all add: dlq_codec_def letter_times_def)
  have last: "Option.bind (map_option (dlq_rfc3339 lib) (wd_last_attempted_at ?d)) (dlq_parse_rfc3339 lib) =
      wd_last_attempted_at ?d"
    using assms(1) by (cases "wd_last_attempted_at ?d") (simp_all add: dlq_codec_def letter_times_def)
  have codes: "(case map_option uint x of None \<Rightarrow> Some None
      | Some s \<Rightarrow> map_option Some (dlq_i32 lib s)) = Some (map_option ucast x)" for x :: "u16 option"
    by (cases x) (simp_all add: status)
  have backward: "map_option ucast (map_option ucast x :: u32 option) = x" for x :: "u16 option"
    by (cases x) (simp_all add: ucast_u16_u32)
  show ?thesis
    using assms(2)
    by (simp add: row_to_dead_letter_def dead_letter_row_def Let_def attempt codes backward times last
        del: option.map_comp case_map_option)
qed

lemma those_map_Some: "\<forall>x \<in> set xs. f x \<noteq> None \<Longrightarrow> those (map f xs) = Some (map (the \<circ> f) xs)"
  by (induction xs) auto

lemma find_fresh:
  "\<not> list_ex P xs \<Longrightarrow> P x \<Longrightarrow> find P (xs @ [x]) = Some x"
  by (induction xs) auto

section \<open>Properties\<close>

text \<open>
  C36. In a working database a stored dead letter is read back exactly as it was stored, by its id,
  when its payload and its own times are read back from their texts, integer columns give the \<open>i32\<close> they
  hold, and fewer than \<open>2 ^ 31\<close> attempts were made; and a second letter under the same id is refused
  without changing the queue.
\<close>

theorem dead_letter_roundtrip:
  assumes "db_works db" and "db_table db = Some rows" and "\<not> list_ex (\<lambda>r. dr_id r = dl_id dl) rows"
    and "dlq_codec lib (letter_times dl)"
    and "dlq_print lib (wd_payload (dl_delivery dl)) = Inr payload"
    and "dlq_parse lib payload = Inr (wd_payload (dl_delivery dl))"
    and "unat (wd_attempt (dl_delivery dl)) < 2 ^ 31"
    and "dl_id dl' = dl_id dl" and "dlq_print lib (wd_payload (dl_delivery dl')) = Inr payload'"
  shows "\<exists>db1. dlq_store lib dl db = (Inr (), db1) \<and>
     fst (dlq_get lib now (dl_id dl) db1) = Ok (Some dl) \<and>
     fst (dlq_store lib dl' db1) = Inl (StorageError (dlq_conflict lib)) \<and>
     db_table (snd (dlq_store lib dl' db1)) = db_table db1"
proof -
  let ?row = "dead_letter_row lib payload dl"
  let ?db1 = "db\<lparr>db_queries := Suc (db_queries db), db_table := Some (rows @ [?row])\<rparr>"
  have row_id [simp]: "dr_id (dead_letter_row lib p x) = dl_id x" for p x
    by (simp add: dead_letter_row_def Let_def)
  have store: "dlq_store lib dl db = (Inr (), ?db1)"
    unfolding dlq_store_def using assms(2,3,5) by (simp add: db_query_works [OF assms(1)] Let_def)
  have works: "db_works ?db1" using assms(1) by (simp add: db_works_faults)
  have "find (\<lambda>r. dr_id r = dl_id dl) (rows @ [?row]) = Some ?row"
    using assms(3) by (rule find_fresh) simp
  then have "fst (dlq_get lib now (dl_id dl) ?db1) = Ok (Some dl)"
    by (simp add: dlq_get_def db_query_works [OF works] row_roundtrip [OF assms(4,6,7)] read_result_def)
  moreover have "dlq_store lib dl' ?db1 =
      (Inl (StorageError (dlq_conflict lib)), ?db1\<lparr>db_queries := Suc (db_queries ?db1)\<rparr>)"
    unfolding dlq_store_def using assms(8,9)
    by (simp add: db_query_refused [OF works] Let_def)
  ultimately show ?thesis using store by auto
qed

text \<open>
  The monitoring report counts all dead letters and shows at most ten, the newest
  ones: no letter left out was dead-lettered later than one shown, by the stored times.
\<close>

lemma report_shows_newest:
  assumes "db_works db" and "db_table db = Some rows"
    and "mset (dlq_newest_first lib rows) = mset rows"
    and "sorted_wrt (\<lambda>r s. \<not> text_less (dr_dead_lettered_at r) (dr_dead_lettered_at s))
           (dlq_newest_first lib rows)"
    and "\<forall>r \<in> set rows. row_to_dead_letter lib now r \<noteq> None"
  shows "\<exists>report db' shown hidden. generate_report lib now db = (Ok report, db') \<and>
     db_table db' = Some rows \<and> total_dead_letters report = int (length rows) \<and>
     recent_dead_letters report = map (the \<circ> row_to_dead_letter lib now) shown \<and>
     length shown = min 10 (length rows) \<and> mset rows = mset shown + mset hidden \<and>
     (\<forall>r \<in> set shown. \<forall>s \<in> set hidden.
        \<not> text_less (dr_dead_lettered_at r) (dr_dead_lettered_at s))"
proof -
  let ?L = "dlq_newest_first lib rows"
  let ?shown = "take 10 ?L" and ?hidden = "drop 10 ?L"
  let ?db1 = "db\<lparr>db_queries := Suc (db_queries db), db_table := Some rows\<rparr>"
  have set: "set ?L = set rows" using assms(3) by (metis set_mset_mset)
  have works: "db_works ?db1" using assms(1) by (simp add: db_works_faults)
  have count: "dlq_count db = (Ok (int (length rows)), ?db1)"
    using assms(2) by (simp add: dlq_count_def db_query_works [OF assms(1)] read_result_def)
  have "\<forall>r \<in> set ?shown. row_to_dead_letter lib now r \<noteq> None"
    using assms(5) set by (auto dest: in_set_takeD)
  then have "those (map (row_to_dead_letter lib now) ?shown) = Some (map (the \<circ> row_to_dead_letter lib now) ?shown)"
    by (rule those_map_Some)
  then have list: "dlq_list lib now 10 0 ?db1 = (Ok (map (the \<circ> row_to_dead_letter lib now) ?shown),
      ?db1\<lparr>db_queries := Suc (db_queries ?db1), db_table := Some rows\<rparr>)"
    by (simp add: dlq_list_def db_query_works [OF works] read_result_def page_def)
  have split: "mset rows = mset ?shown + mset ?hidden"
    using assms(3) by (metis append_take_drop_id mset_append)
  have "sorted_wrt (\<lambda>r s. \<not> text_less (dr_dead_lettered_at r) (dr_dead_lettered_at s)) (?shown @ ?hidden)"
    using assms(4) by simp
  then have "\<forall>r \<in> set ?shown. \<forall>s \<in> set ?hidden.
      \<not> text_less (dr_dead_lettered_at r) (dr_dead_lettered_at s)"
    unfolding sorted_wrt_append by blast
  moreover have "length ?shown = min 10 (length rows)"
    using assms(3) by (metis length_take min.commute size_mset)
  moreover have "generate_report lib now db =
      (Ok \<lparr>total_dead_letters = int (length rows),
           recent_dead_letters = map (the \<circ> row_to_dead_letter lib now) ?shown\<rparr>,
       ?db1\<lparr>db_queries := Suc (db_queries ?db1), db_table := Some rows\<rparr>)"
    unfolding generate_report_def using count list by (simp add: bindS_def retS_def)
  ultimately show ?thesis using split by (intro exI conjI) auto
qed

definition demo_dlq_lib :: dlq_lib where
  "demo_dlq_lib =
     \<lparr>dlq_print = (\<lambda>v. Inr ''null''), dlq_parse = (\<lambda>s. Inr JNull),
      dlq_rfc3339 = (\<lambda>t. (if t < 0 then ''-'' else ''+'') @ replicate (nat \<bar>t\<bar>) (CHR ''1'')),
      dlq_parse_rfc3339 = (\<lambda>s. if s = [] then None
         else Some (if hd s = CHR ''-'' then - int (length (tl s)) else int (length (tl s)))),
      dlq_i32 = (\<lambda>n. Some (word_of_int n)), dlq_newest_first = id, dlq_conflict = ''UNIQUE''\<rparr>"

lemma demo_dlq_codec: "dlq_codec demo_dlq_lib ts"
  by (simp add: dlq_codec_def demo_dlq_lib_def)

definition demo_letter :: DeadLetter where
  "demo_letter = DeadLetter_from_delivery ''dl1'' 7
     (WebhookDelivery_new ''id'' 5 ''https://anchor/hook'' JNull) ''Max retries exceeded''"

definition demo_dlq :: dlq_db where
  "demo_dlq = \<lparr>db_table = Some [], db_queries = 0, db_faults = (\<lambda>_. None)\<rparr>"

theorem dead_letter_roundtrip_witness:
  "\<exists>db1. dlq_store demo_dlq_lib demo_letter demo_dlq = (Inr (), db1) \<and>
     fst (dlq_get demo_dlq_lib 9 ''dl1'' db1) = Ok (Some demo_letter)"
proof -
  have "dl_id demo_letter = ''dl1''" "wd_payload (dl_delivery demo_letter) = JNull"
    "wd_attempt (dl_delivery demo_letter) = 0"
    by (simp_all add: demo_letter_def DeadLetter_from_delivery_def WebhookDelivery_new_def)
  then show ?thesis
    using dead_letter_roundtrip [of demo_dlq "[]" demo_letter demo_dlq_lib "''null''" demo_letter
        "''null''" 9] demo_dlq_codec
    by (auto simp: demo_dlq_def db_works_def demo_dlq_lib_def)
qed

end
