(* ===== verification/Signature_Verification.thy ===== *)
theory Signature_Verification
  imports Webhook_Types
begin

text \<open>
  Inbound signature verification (\<open>webhook-sdk/src/verification.rs\<close>). The MAC and the hex codec
  are other libraries' code, the record \<open>crypto_lib\<close>: the tag of a body under a secret, its
  comparison with a slice, and the codec, whose decoder gives an error text on the left. What
  is documented of them is the predicate \<open>crypto_sound\<close>.
\<close>

type_synonym bytes = "u8 list"

record crypto_lib =
  hmac_sha256 :: "bytes \<Rightarrow> bytes \<Rightarrow> bytes"
  mac_verify_slice :: "bytes \<Rightarrow> bytes \<Rightarrow> bytes \<Rightarrow> bool"
  hex_encode :: "bytes \<Rightarrow> string"
  hex_decode :: "string \<Rightarrow> string + bytes"

section \<open>Operations\<close>

definition compute_signature :: "crypto_lib \<Rightarrow> bytes \<Rightarrow> bytes \<Rightarrow> string" where
  "compute_signature lib secret body = hex_encode lib (hmac_sha256 lib secret body)"

definition verify_signature :: "crypto_lib \<Rightarrow> bytes \<Rightarrow> bytes \<Rightarrow> string \<Rightarrow> WebhookError + unit" where
  "verify_signature lib secret body signature_hex =
     (case hex_decode lib signature_hex of
        Inl e \<Rightarrow> Inl (MalformedSignatureHeader (''not valid hex: '' @ e))
      | Inr expected_bytes \<Rightarrow>
          if mac_verify_slice lib secret body expected_bytes then Inr ()
          else Inl InvalidSignature_err)"

record WebhookVerifier =
  wv_secret :: bytes

definition WebhookVerifier_new :: "bytes \<Rightarrow> WebhookVerifier" where
  "WebhookVerifier_new secret = \<lparr>wv_secret = secret\<rparr>"

definition verify :: "crypto_lib \<Rightarrow> WebhookVerifier \<Rightarrow> bytes \<Rightarrow> string \<Rightarrow> WebhookError + unit" where
  "verify lib v body signature_hex = verify_signature lib (wv_secret v) body signature_hex"

definition verify_optional_header ::
  "crypto_lib \<Rightarrow> WebhookVerifier \<Rightarrow> bytes \<Rightarrow> string option \<Rightarrow> WebhookError + unit" where
  "verify_optional_header lib v body header =
     (case header of None \<Rightarrow> Inl MissingSignatureHeader | Some sig \<Rightarrow> verify lib v body sig)"

section \<open>Properties\<close>

definition crypto_sound :: "crypto_lib \<Rightarrow> bool" where
  "crypto_sound lib \<longleftrightarrow>
     (\<forall>k b t. mac_verify_slice lib k b t \<longleftrightarrow> t = hmac_sha256 lib k b) \<and>
     (\<forall>b. hex_decode lib (hex_encode lib b) = Inr b)"

text \<open>
  C35. The verifier accepts a body signed with its secret and nothing else: a header made by
  \<open>compute_signature\<close> for some body under some secret is accepted exactly when its tag is
  the tag of the received body under the verifier's secret, and otherwise refused with
  \<open>InvalidSignature\<close>; so is every other header that decodes to something else; a missing header and one
  that is not hex get their own errors; and every accepted header decodes to the tag of the received
  body.
\<close>

theorem verifier_exact:
  assumes "crypto_sound lib"
  shows "verify_optional_header lib (WebhookVerifier_new secret) body None = Inl MissingSignatureHeader \<and>
     verify_optional_header lib (WebhookVerifier_new secret) body (Some (compute_signature lib secret' body')) =
       (if hmac_sha256 lib secret' body' = hmac_sha256 lib secret body then Inr ()
        else Inl InvalidSignature_err) \<and>
     (hex_decode lib sig = Inl e \<longrightarrow>
        verify_optional_header lib (WebhookVerifier_new secret) body (Some sig) =
          Inl (MalformedSignatureHeader (''not valid hex: '' @ e))) \<and>
     (hex_decode lib sig = Inr tag \<longrightarrow>
        verify_optional_header lib (WebhookVerifier_new secret) body (Some sig) =
          (if tag = hmac_sha256 lib secret body then Inr () else Inl InvalidSignature_err)) \<and>
     (verify_optional_header lib (WebhookVerifier_new secret) body (Some sig) = Inr () \<longleftrightarrow>
        hex_decode lib sig = Inr (hmac_sha256 lib secret body))"
  using assms
  by (auto simp: crypto_sound_def verify_optional_header_def verify_def verify_signature_def
      compute_signature_def WebhookVerifier_new_def split: sum.splits)

definition demo_crypto :: crypto_lib where
  "demo_crypto =
     \<lparr>hmac_sha256 = (\<lambda>k b. k @ b), mac_verify_slice = (\<lambda>k b t. t = k @ b),
      hex_encode = map (\<lambda>x. char_of (unat x)),
      hex_decode = (\<lambda>s. Inr (map (\<lambda>c. word_of_nat (of_char c)) s))\<rparr>"

lemma demo_crypto_sound: "crypto_sound demo_crypto"
proof -
  have byte: "unat x < 256" for x :: u8
    using unsigned_less [of x] by simp
  have "(word_of_nat (of_char (char_of (unat x) :: char)) :: u8) = x" for x :: u8
    using byte [of x] by simp
  then show ?thesis by (simp add: crypto_sound_def demo_crypto_def comp_def)
qed

theorem verifier_exact_witness:
  "verify_optional_header demo_crypto (WebhookVerifier_new [1]) [2, 3]
     (Some (compute_signature demo_crypto [1] [2, 3])) = Inr () \<and>
   verify_optional_header demo_crypto (WebhookVerifier_new [1]) [2, 4]
     (Some (compute_signature demo_crypto [1] [2, 3])) = Inl InvalidSignature_err"
  using verifier_exact [OF demo_crypto_sound, of "[1]" "[2, 3]" "[1]" "[2, 3]"]
    verifier_exact [OF demo_crypto_sound, of "[1]" "[2, 4]" "[1]" "[2, 3]"]
  by (simp add: demo_crypto_def)

end
