(* ===== verification/Webhook_Walkthroughs.thy ===== *)
theory Webhook_Walkthroughs
  imports Webhook_Unit_Tests
begin

text \<open>
  Two runs through several parts of the webhook SDK that its sources write down: the duplicate test of
  the processor (\<open>webhook-sdk/src/processor.rs\<close>), and the example that opens the crate
  (\<open>webhook-sdk/src/lib.rs\<close>), which delivers a webhook and then asks the monitor for a report. Both
  are functions of the libraries, of the world the delivery runs in and of the identifiers and times the
  deliveries are created with.
\<close>

section \<open>The duplicate test of the processor\<close>

text \<open>Connecting gives a new in-memory database; both it and \<open>initialize\<close> are expected to succeed.\<close>

definition processor_setup :: "(WebhookDeliverer \<times> idem_db) option" where
  "processor_setup =
     (case idem_initialize memory_db of
        (Inl _, _) \<Rightarrow> None
      | (Inr _, db) \<Rightarrow>
          (let retry_config = \<lparr>max_retries = 1, initial_backoff = from_millis 10,
                 max_backoff = from_millis 100, backoff_multiplier = Finite 2 0\<rparr>
           in Some (WebhookDeliverer_new retry_config, db)))"

text \<open>The two results the test looks at; it asserts nothing about them.\<close>

definition test_duplicate_delivery_returns_cached_response ::
  "platform \<Rightarrow> store_lib \<Rightarrow> string \<Rightarrow> string \<Rightarrow> utc_time \<Rightarrow> utc_time \<Rightarrow> delivery_world
     \<Rightarrow> ((WebhookError, ProcessingResult) outcome \<times> (WebhookError, ProcessingResult) outcome) option" where
  "test_duplicate_delivery_returns_cached_response lib slib id1 id2 t1 t2 dw =
     (case processor_setup of
        None \<Rightarrow> None
      | Some (processor, db) \<Rightarrow>
          (let payload = JObject [(''event'', JString ''attestation_revoked''), (''id'', JString ''123'')];
               delivery1 = WebhookDelivery_new id1 t1 ''https://invalid.local/webhook'' payload;
               (result1, w) = process lib slib processor delivery1 \<lparr>pw_delivery = dw, pw_db = db\<rparr>;
               delivery2 = WebhookDelivery_new id2 t2 ''https://different-url.local/webhook'' payload;
               (result2, w) = process lib slib processor delivery2 w
           in Some (result1, result2)))"

lemma processor_setup_works:
  obtains dlv db where "processor_setup = Some (dlv, db)" "db_works db" "found_text key db = None"
    "wdr_breakers dlv = None"
  by (simp add: processor_setup_def idem_initialize_def db_create_def memory_db_def db_works_def
      found_text_def response_text_def select_key_def WebhookDeliverer_new_def)

text \<open>
  The branch of the test for two failures is never taken: when the first delivery fails, the
  second call succeeds, as a duplicate with the recorded failure.
\<close>

lemma duplicate_test_results:
  assumes "printer_total lib"
    and "\<And>r resp. json_print lib (recorded_response r) = Inr resp \<Longrightarrow> json_parse lib resp = Inr (recorded_response r)"
  shows "\<exists>r1 r2. test_duplicate_delivery_returns_cached_response lib slib id1 id2 t1 t2 dw = Some (r1, r2) \<and>
     (r1 \<noteq> Panic \<longrightarrow> (\<exists>key. r2 = Ok \<lparr>pr_idempotency_key = key, pr_is_duplicate = True,
        pr_response = recorded_response r1\<rparr>))"
proof -
  let ?payload = "JObject [(''event'', JString ''attestation_revoked''), (''id'', JString ''123'')]"
  let ?d1 = "WebhookDelivery_new id1 t1 ''https://invalid.local/webhook'' ?payload"
  let ?d2 = "WebhookDelivery_new id2 t2 ''https://different-url.local/webhook'' ?payload"
  let ?key = "derive_idempotency_key lib slib ?payload"
  obtain dlv db where s: "processor_setup = Some (dlv, db)" "db_works db" "found_text ?key db = None"
    by (rule processor_setup_works)
  let ?w = "\<lparr>pw_delivery = dw, pw_db = db\<rparr>"
  obtain r1 w1 where r1: "process lib slib dlv ?d1 ?w = (r1, w1)" by fastforce
  obtain r2 w2 where r2: "process lib slib dlv ?d2 w1 = (r2, w2)" by fastforce
  have payloads: "wd_payload ?d1 = ?payload" "wd_payload ?d2 = ?payload"
    by (simp_all add: WebhookDelivery_new_def)
  have "r2 = Ok \<lparr>pr_idempotency_key = ?key, pr_is_duplicate = True, pr_response = recorded_response r1\<rparr>"
    if "r1 \<noteq> Panic"
  proof -
    have w: "db_works (pw_db ?w)" "found_text (derive_idempotency_key lib slib (wd_payload ?d1)) (pw_db ?w) = None"
      using s(2,3) payloads by simp_all
    note first = process_first [OF w r1 that assms(1)]
    obtain resp where t: "json_print lib (recorded_response r1) = Inr resp"
      using assms(1) by (auto simp: printer_total_def)
    have "found_text (derive_idempotency_key lib slib (wd_payload ?d2)) (pw_db w1) = Some resp"
      using first(2) [OF t] payloads by simp
    then show ?thesis
      using process_duplicate [OF first(1) _ assms(2) [OF t], of slib ?d2 dlv] r2 payloads by auto
  qed
  moreover have "test_duplicate_delivery_returns_cached_response lib slib id1 id2 t1 t2 dw = Some (r1, r2)"
    by (simp add: test_duplicate_delivery_returns_cached_response_def s(1) r1 r2)
  ultimately show ?thesis by blast
qed

section \<open>The example of the crate\<close>

text \<open>The lines printed; \<open>debug_delivery\<close> is the derived \<open>Debug\<close> printer. A panic of an \<open>unwrap\<close> is \<open>None\<close>.\<close>

definition crate_example ::
  "platform \<Rightarrow> dlq_lib \<Rightarrow> (WebhookDelivery \<Rightarrow> string) \<Rightarrow> (int \<Rightarrow> string) \<Rightarrow> string \<Rightarrow> utc_time \<Rightarrow> utc_time
     \<Rightarrow> dlq_db \<Rightarrow> delivery_world \<Rightarrow> string list option" where
  "crate_example lib qlib debug_delivery show_i64 uuid created now pool dw =
     (case dlq_initialize pool of
        (Inl _, _) \<Rightarrow> None
      | (Inr _, db) \<Rightarrow>
          (let retry_config = \<lparr>max_retries = 5, initial_backoff = from_millis 100,
                 max_backoff = 60 * 10 ^ 9, backoff_multiplier = Finite 2 0\<rparr>;
               deliverer = WebhookDeliverer_new retry_config;
               delivery = WebhookDelivery_new uuid created ''https://example.com/webhook''
                 (JObject [(''event'', JString ''attestation_created'')])
           in case deliver lib deliverer delivery dw of
                (Panic, _) \<Rightarrow> None
              | (r, _) \<Rightarrow>
                  (let line = (case r of Ok result \<Rightarrow> ''Delivered successfully: '' @ debug_delivery result
                                | Err e \<Rightarrow> ''Delivery failed: '' @ webhook_error_to_string e | Panic \<Rightarrow> [])
                   in case generate_report qlib now db of
                        (Ok report, _) \<Rightarrow>
                          Some [line, ''Total dead-letters: '' @ show_i64 (total_dead_letters report)]
                      | _ \<Rightarrow> None)))"

text \<open>
  On a new database the example reports no dead letters, whether its delivery succeeded or used up
  all its retries: nothing in the crate stores a failed delivery in the queue but the caller.
\<close>

lemma crate_example_reports_none:
  assumes "crate_example lib qlib debug_delivery show_i64 uuid created now memory_db dw = Some out"
  shows "out ! 1 = ''Total dead-letters: '' @ show_i64 0"
proof -
  have "dlq_count empty_queue = (Ok 0, snd (dlq_count empty_queue))"
    by (simp add: dlq_count_def db_query_def empty_queue_def read_result_def)
  then have "total_dead_letters report = 0" if "generate_report qlib now empty_queue = (Ok report, db')" for report db'
    using that by (auto simp: generate_report_def bindS_Ok_iff retS_def)
  then show ?thesis
    using assms by (auto simp: crate_example_def initialized_queue Let_def split: outcome.splits prod.splits)
qed

end
