(* ===== verification/Cli_Types.thy ===== *)
theory Cli_Types
  imports Anchor_Prelude
begin

text \<open>
  The errors of the command-line tool (\<open>cli/src/error.rs\<close>) with their display texts, and the
  answer of a blocking HTTP \<open>GET\<close>: a transport error, or a status with the body, which is an error
  text on the left if it cannot be read. Characters outside ASCII are written as the bytes of
  their UTF-8 encoding.
\<close>

datatype CliError =
    Usage string
  | InvalidArgument string string
  | Rpc string
  | Simulation string
  | Xdr string
  | InvalidDomain_err string
  | LongPollUnsupported
  | Unreachable string string
  | HttpStatus string u16
  | Malformed string string

fun cli_error_to_string :: "CliError \<Rightarrow> string" where
  "cli_error_to_string (Usage msg) = msg"
| "cli_error_to_string (InvalidArgument arg reason) = ''invalid argument '' @ [CHR 0x27] @ arg @ [CHR 0x27] @ '': '' @ reason"
| "cli_error_to_string (Rpc msg) = ''RPC request failed: '' @ msg"
| "cli_error_to_string (Simulation msg) = ''contract call failed: '' @ msg"
| "cli_error_to_string (Xdr msg) = ''XDR encoding error: '' @ msg"
| "cli_error_to_string (InvalidDomain_err domain) = ''invalid domain '' @ [CHR 0x27] @ domain @ [CHR 0x27]"
| "cli_error_to_string LongPollUnsupported = ''anchor does not support long-poll''"
| "cli_error_to_string (Unreachable url reason) =
     ''could not reach '' @ [CHR 0x27] @ url @ [CHR 0x27] @ '': '' @ reason"
| "cli_error_to_string (HttpStatus url status) =
     [CHR 0x27] @ url @ [CHR 0x27] @ '' returned HTTP '' @ show_nat (unat status)"
| "cli_error_to_string (Malformed url reason) =
     [CHR 0x27] @ url @ [CHR 0x27] @ '' returned a malformed response: '' @ reason"

datatype get_reply = Get_failed string | Got u16 "string + string"

definition is_success :: "u16 \<Rightarrow> bool" where
  "is_success status \<longleftrightarrow> 200 \<le> status \<and> status < 300"

text \<open>\<open>str::trim_end_matches\<close> on one character.\<close>

definition trim_end_matches :: "char \<Rightarrow> string \<Rightarrow> string" where
  "trim_end_matches c s = rev (dropWhile (\<lambda>x. x = c) (rev s))"

end
