(* ===== verification/Watch.thy ===== *)
theory Watch
  imports Cli_Types "HOL-Library.Sublist"
begin

text \<open>
  \<open>anchorkit watch\<close> (\<open>cli/src/watch.rs\<close>). The HTTP client answers the n-th request; the parsers
  of the two response shapes, the text of a status line and the failure of the client builder are
  parameters too. The world holds the requests made, with the bearer token sent, the sleeps in
  milliseconds, and the bytes written to the two output streams. One iteration of the loop is
  \<open>watch_iteration\<close>; the loop itself may run forever and is a partial function, \<open>None\<close> being
  that it does not return.
\<close>

section \<open>Constants and small functions\<close>

definition TERMINAL_STATUSES :: "string list" where
  "TERMINAL_STATUSES =
     [''completed'', ''error'', ''refunded'', ''expired'', ''no_market'', ''too_small'', ''too_large'']"

definition is_terminal :: "string \<Rightarrow> bool" where
  "is_terminal status = List.member TERMINAL_STATUSES status"

record Transaction =
  tx_id :: string
  tx_status :: string
  tx_message :: "string option"
  tx_more_info_url :: "string option"
  tx_updated_at :: "string option"

definition MAX_RECONNECT_ATTEMPTS :: u32 where "MAX_RECONNECT_ATTEMPTS = 10"
definition INITIAL_BACKOFF_MS :: u64 where "INITIAL_BACKOFF_MS = 1000"
definition MAX_BACKOFF_MS :: u64 where "MAX_BACKOFF_MS = 30000"
definition DEFAULT_LONG_POLL_TIMEOUT_SECS :: u64 where "DEFAULT_LONG_POLL_TIMEOUT_SECS = 30"
definition DEFAULT_POLL_INTERVAL_MS :: u64 where "DEFAULT_POLL_INTERVAL_MS = 5000"

text \<open>\<open>u64::saturating_pow\<close>.\<close>

definition saturating_pow :: "u64 \<Rightarrow> u32 \<Rightarrow> u64" where
  "saturating_pow a n = (if unat a ^ unat n < 2 ^ 64 then a ^ unat n else - 1)"

definition backoff_ms :: "u32 \<Rightarrow> u64" where
  "backoff_ms attempt =
     (let delay = saturating_mul INITIAL_BACKOFF_MS (saturating_pow 2 attempt)
      in min delay MAX_BACKOFF_MS)"

text \<open>Percent-encoding; a byte is printed as two upper-case hexadecimal digits.\<close>

definition hex_digit :: "nat \<Rightarrow> char" where
  "hex_digit n = (if n < 10 then char_of (48 + n) else char_of (55 + n))"

definition unreserved :: "char \<Rightarrow> bool" where
  "unreserved b \<longleftrightarrow> is_ascii_alphanumeric_char b \<or> b = CHR ''-'' \<or> b = CHR ''_'' \<or> b = CHR ''.'' \<or> b = CHR ''~''"

fun urlencoding_simple :: "string \<Rightarrow> string" where
  "urlencoding_simple [] = []"
| "urlencoding_simple (b # bs) =
     (if unreserved b then [b]
      else [CHR ''%'', hex_digit (char_code b div 16), hex_digit (char_code b mod 16)])
     @ urlencoding_simple bs"

section \<open>Requests\<close>

datatype Transport = LongPoll | Polling

record watch_lib =
  wl_get :: "nat \<Rightarrow> string \<Rightarrow> string option \<Rightarrow> get_reply"
  wl_parse_transactions :: "string \<Rightarrow> string + Transaction list"
  wl_parse_transaction :: "string \<Rightarrow> string + Transaction"
  wl_status_text :: "u16 \<Rightarrow> string"
  wl_build_error :: "string option"

record watch_world =
  ww_requests :: "(string \<times> string option) list"
  ww_slept :: "u64 list"
  ww_out :: string
  ww_err :: string

definition http_get ::
  "watch_lib \<Rightarrow> string \<Rightarrow> string option \<Rightarrow> watch_world \<Rightarrow> get_reply \<times> watch_world" where
  "http_get lib url auth_token w =
     (wl_get lib (length (ww_requests w)) url auth_token,
      w\<lparr>ww_requests := ww_requests w @ [(url, auth_token)]\<rparr>)"

definition long_poll_once ::
  "watch_lib \<Rightarrow> string \<Rightarrow> string \<Rightarrow> string option \<Rightarrow> u64 \<Rightarrow> watch_world
     \<Rightarrow> (CliError + Transaction option) \<times> watch_world" where
  "long_poll_once lib base_url transaction_id auth_token timeout_secs w =
     (let url = base_url @ ''/transactions?id='' @ urlencoding_simple transaction_id @
                ''&long_poll_timeout='' @ show_nat (unat timeout_secs);
          (reply, w) = http_get lib url auth_token w
      in (case reply of
            Get_failed e \<Rightarrow> Inl (Rpc e)
          | Got s body \<Rightarrow>
              if s = 404 \<or> s = 405 then Inl LongPollUnsupported
              else if \<not> is_success s then Inl (Rpc (''long-poll returned HTTP '' @ show_nat (unat s)))
              else
                (case body of
                   Inl e \<Rightarrow> Inl (Rpc (''failed to parse long-poll response: '' @ e))
                 | Inr body_text \<Rightarrow>
                     (case wl_parse_transactions lib body_text of
                        Inl e \<Rightarrow> Inl (Rpc (''failed to parse long-poll response: '' @ e))
                      | Inr [] \<Rightarrow> Inr None
                      | Inr (tx # _) \<Rightarrow> Inr (Some tx))), w))"

definition poll_once ::
  "watch_lib \<Rightarrow> string \<Rightarrow> string \<Rightarrow> string option \<Rightarrow> watch_world
     \<Rightarrow> (CliError + Transaction option) \<times> watch_world" where
  "poll_once lib base_url transaction_id auth_token w =
     (let url = base_url @ ''/transaction?id='' @ urlencoding_simple transaction_id;
          (reply, w) = http_get lib url auth_token w
      in (case reply of
            Get_failed e \<Rightarrow> Inl (Rpc e)
          | Got s body \<Rightarrow>
              if \<not> is_success s then Inl (Rpc (''poll returned HTTP '' @ wl_status_text lib s))
              else
                (case body of
                   Inl e \<Rightarrow> Inl (Rpc (''failed to parse poll response: '' @ e))
                 | Inr body_text \<Rightarrow>
                     (case wl_parse_transaction lib body_text of
                        Inl e \<Rightarrow> Inl (Rpc (''failed to parse poll response: '' @ e))
                      | Inr tx \<Rightarrow> Inr (Some tx))), w))"

section \<open>Output\<close>

definition newline :: string where "newline = [CHR 0x0A]"
definition em_dash :: string where "em_dash = [CHR 0xE2, CHR 0x80, CHR 0x94]"
definition ellipsis :: string where "ellipsis = [CHR 0xE2, CHR 0x80, CHR 0xA6]"
definition check_mark :: string where "check_mark = [CHR 0xE2, CHR 0x9C, CHR 0x93]"

definition print_out :: "string \<Rightarrow> watch_world \<Rightarrow> watch_world" where
  "print_out s w = w\<lparr>ww_out := ww_out w @ s\<rparr>"

definition print_err :: "string \<Rightarrow> watch_world \<Rightarrow> watch_world" where
  "print_err s w = w\<lparr>ww_err := ww_err w @ s\<rparr>"

definition sleep_ms :: "u64 \<Rightarrow> watch_world \<Rightarrow> watch_world" where
  "sleep_ms ms w = w\<lparr>ww_slept := ww_slept w @ [ms]\<rparr>"

definition print_status_update :: "Transaction \<Rightarrow> watch_world \<Rightarrow> watch_world" where
  "print_status_update tx w =
     print_out
       (''['' @ (case tx_updated_at tx of None \<Rightarrow> em_dash | Some t \<Rightarrow> t) @ ''] status: '' @ tx_status tx @
        (case tx_message tx of None \<Rightarrow> [] | Some msg \<Rightarrow> ''  '' @ em_dash @ '' '' @ msg) @ newline @
        (case tx_more_info_url tx of
           None \<Rightarrow> [] | Some url \<Rightarrow> ''         more info: '' @ url @ newline)) w"

section \<open>The loop\<close>

record watch_config =
  wc_base_url :: string
  wc_transaction_id :: string
  wc_auth_token :: "string option"
  wc_long_poll_secs :: u64
  wc_poll_ms :: u64

definition gave_up :: CliError where
  "gave_up = Rpc (''gave up after '' @ show_nat (unat MAX_RECONNECT_ATTEMPTS) @ '' consecutive errors'')"

text \<open>
  One iteration from the two loop variables: on the left the value \<open>run\<close> returns, on the
  right the variables of the next iteration. The error count cannot overflow: the loop
  returns at ten.
\<close>

definition watch_iteration ::
  "watch_lib \<Rightarrow> watch_config \<Rightarrow> Transport \<times> u32 \<Rightarrow> watch_world
     \<Rightarrow> ((CliError + unit) + Transport \<times> u32) \<times> watch_world" where
  "watch_iteration lib cfg st w =
     (case st of (transport, consecutive_errors) \<Rightarrow>
      case (case transport of
              LongPoll \<Rightarrow> long_poll_once lib (wc_base_url cfg) (wc_transaction_id cfg)
                            (wc_auth_token cfg) (wc_long_poll_secs cfg) w
            | Polling \<Rightarrow> poll_once lib (wc_base_url cfg) (wc_transaction_id cfg) (wc_auth_token cfg) w) of
        (Inl e, w) \<Rightarrow>
          if e = LongPollUnsupported then
            (Inr (Polling, 0),
             print_out (''[watch] anchor does not support long-poll '' @ em_dash @
               '' switching to polling'' @ newline) w)
          else
            let consecutive_errors = consecutive_errors + 1;
                w = print_err (''[watch] error (attempt '' @ show_nat (unat consecutive_errors) @ ''/'' @
                      show_nat (unat MAX_RECONNECT_ATTEMPTS) @ ''): '' @ cli_error_to_string e @ newline) w
            in if consecutive_errors \<ge> MAX_RECONNECT_ATTEMPTS then (Inl (Inl gave_up), w)
               else
                 let delay = backoff_ms (consecutive_errors - 1);
                     w = print_err (''[watch] retrying in '' @ show_nat (unat delay) @ ''ms'' @ ellipsis @
                           newline) w
                 in (Inr (transport, consecutive_errors), sleep_ms delay w)
      | (Inr (Some tx), w) \<Rightarrow>
          let w = print_status_update tx w in
          if is_terminal (tx_status tx) then
            (Inl (Inr ()),
             print_out (newline @ check_mark @ '' Transaction reached terminal status: '' @
               tx_status tx @ newline) w)
          else (Inr (transport, 0),
                if transport = Polling then sleep_ms (wc_poll_ms cfg) w else w)
      | (Inr None, w) \<Rightarrow> (Inr (transport, 0), w))"

partial_function (option) watch_loop ::
  "watch_lib \<Rightarrow> watch_config \<Rightarrow> Transport \<times> u32 \<Rightarrow> watch_world
     \<Rightarrow> ((CliError + unit) \<times> watch_world) option" where
  "watch_loop lib cfg st w =
     (case watch_iteration lib cfg st w of
        (Inl r, w') \<Rightarrow> Some (r, w')
      | (Inr st', w') \<Rightarrow> watch_loop lib cfg st' w')"

text \<open>
  The entry point, after the variables it sets up for the loop. Adding the slack of five seconds
  to the timeout is checked; its overflow is the panic.
\<close>

definition watch_setup ::
  "string \<Rightarrow> string \<Rightarrow> string option \<Rightarrow> u64 option \<Rightarrow> u64 option \<Rightarrow> watch_config" where
  "watch_setup transfer_server_url transaction_id auth_token long_poll_timeout_secs poll_interval_ms =
     \<lparr>wc_base_url = trim_end_matches (CHR ''/'') transfer_server_url,
      wc_transaction_id = transaction_id, wc_auth_token = auth_token,
      wc_long_poll_secs = (case long_poll_timeout_secs of
         None \<Rightarrow> DEFAULT_LONG_POLL_TIMEOUT_SECS | Some t \<Rightarrow> t),
      wc_poll_ms = (case poll_interval_ms of None \<Rightarrow> DEFAULT_POLL_INTERVAL_MS | Some t \<Rightarrow> t)\<rparr>"

definition watch_run ::
  "watch_lib \<Rightarrow> string \<Rightarrow> string \<Rightarrow> string option \<Rightarrow> u64 option \<Rightarrow> u64 option \<Rightarrow> watch_world
     \<Rightarrow> ((CliError, unit) outcome \<times> watch_world) option" where
  "watch_run lib transfer_server_url transaction_id auth_token long_poll_timeout_secs poll_interval_ms w =
     (let cfg = watch_setup transfer_server_url transaction_id auth_token long_poll_timeout_secs
                  poll_interval_ms
      in case checked_add (wc_long_poll_secs cfg) 5 of
           None \<Rightarrow> Some (Panic, w)
         | Some _ \<Rightarrow>
             (case wl_build_error lib of
                Some e \<Rightarrow> Some (Err (Rpc e), w)
              | None \<Rightarrow>
                  let w = print_out (''Watching transaction '' @ transaction_id @ '' on '' @ wc_base_url cfg @
                            newline @ ''Press Ctrl+C to stop.'' @ newline @ newline) w
                  in map_option (\<lambda>(r, w). (case r of Inl e \<Rightarrow> Err e | Inr u \<Rightarrow> Ok u, w))
                       (watch_loop lib cfg (LongPoll, 0) w)))"

section \<open>Backoff and encoding\<close>

lemma power_word_of_nat: "(a :: u64) ^ n = word_of_nat (unat a ^ n)"
  by simp

lemma unat_saturating_pow: "unat (saturating_pow a n) = min (unat a ^ unat n) (2 ^ 64 - 1)"
proof (cases "unat a ^ unat n < 2 ^ 64")
  case True
  then have "unat (a ^ unat n) = unat a ^ unat n"
    by (subst power_word_of_nat) (rule unat_of_nat_u64)
  with True show ?thesis by (simp add: saturating_pow_def)
next
  case False
  then show ?thesis by (simp add: saturating_pow_def unat_max_word)
qed

lemma unat_backoff_ms: "unat (backoff_ms n) = min (1000 * 2 ^ unat n) 30000"
proof -
  have "unat (min a b) = min (unat a) (unat b)" for a b :: u64
    by (simp add: min_def word_le_nat_alt)
  then show ?thesis
    by (simp add: backoff_ms_def Let_def unat_saturating_mul unat_saturating_pow INITIAL_BACKOFF_MS_def
        MAX_BACKOFF_MS_def min_def)
qed

definition hex_value :: "char \<Rightarrow> nat" where
  "hex_value c = (if char_code c < 58 then char_code c - 48 else char_code c - 55)"

fun url_decode :: "string \<Rightarrow> string" where
  "url_decode [] = []"
| "url_decode (c # cs) =
     (if c = CHR ''%'' then
        (case cs of
           h # l # rest \<Rightarrow> char_of (16 * hex_value h + hex_value l) # url_decode rest
         | _ \<Rightarrow> [])
      else c # url_decode cs)"

lemma hex_value_digit: "n < 16 \<Longrightarrow> hex_value (hex_digit n) = n"
  by (simp add: hex_value_def hex_digit_def char_code_def)

lemma char_code_less: "char_code c < 256"
  by (simp add: char_code_def)

lemma hex_digit_unreserved: "n < 16 \<Longrightarrow> unreserved (hex_digit n)"
  by (simp add: unreserved_def is_ascii_alphanumeric_char_def is_ascii_digit_char_def hex_digit_def
      char_code_def)

lemma percent_reserved: "\<not> unreserved (CHR ''%'')"
  by (simp add: unreserved_def is_ascii_alphanumeric_char_def is_ascii_digit_char_def char_code_def)

lemma url_decode_encode: "url_decode (urlencoding_simple s) = s"
proof (induction s)
  case (Cons b bs)
  have b: "char_code b div 16 < 16" using char_code_less [of b] by simp
  have "char_of (16 * (char_code b div 16) + char_code b mod 16) = b"
    by (simp add: char_code_def)
  then show ?case
    using Cons percent_reserved b by (auto simp: hex_value_digit)
qed simp

lemma urlencoding_unreserved:
  "list_all (\<lambda>c. unreserved c \<or> c = CHR ''%'') (urlencoding_simple s)"
proof (induction s)
  case (Cons b bs)
  have "char_code b div 16 < 16" using char_code_less [of b] by simp
  with Cons show ?case by (simp add: hex_digit_unreserved)
qed simp

section \<open>One iteration\<close>

definition watch_poll ::
  "watch_lib \<Rightarrow> watch_config \<Rightarrow> Transport \<Rightarrow> watch_world
     \<Rightarrow> (CliError + Transaction option) \<times> watch_world" where
  "watch_poll lib cfg transport w =
     (case transport of
        LongPoll \<Rightarrow> long_poll_once lib (wc_base_url cfg) (wc_transaction_id cfg)
                      (wc_auth_token cfg) (wc_long_poll_secs cfg) w
      | Polling \<Rightarrow> poll_once lib (wc_base_url cfg) (wc_transaction_id cfg) (wc_auth_token cfg) w)"

lemma watch_poll_facts:
  assumes "watch_poll lib cfg transport w = (r, w')"
  shows "length (ww_requests w') = Suc (length (ww_requests w))" and "ww_slept w' = ww_slept w"
    and "transport = Polling \<Longrightarrow> r \<noteq> Inl LongPollUnsupported"
  using assms
  by (auto simp: watch_poll_def long_poll_once_def poll_once_def http_get_def Let_def
      split: Transport.splits get_reply.splits sum.splits if_splits)

text \<open>
  The request a transport makes, and the answer the anchor gives to it as its request number \<open>n\<close>, which
  depends on nothing else in the world.
\<close>

definition watch_request :: "watch_config \<Rightarrow> Transport \<Rightarrow> string \<times> string option" where
  "watch_request cfg transport =
     (wc_base_url cfg @
      (case transport of
         LongPoll \<Rightarrow> ''/transactions?id='' @ urlencoding_simple (wc_transaction_id cfg) @
           ''&long_poll_timeout='' @ show_nat (unat (wc_long_poll_secs cfg))
       | Polling \<Rightarrow> ''/transaction?id='' @ urlencoding_simple (wc_transaction_id cfg)),
      wc_auth_token cfg)"

definition asked :: "nat \<Rightarrow> watch_world" where
  "asked n = \<lparr>ww_requests = replicate n ([], None), ww_slept = [], ww_out = [], ww_err = []\<rparr>"

definition watch_answer ::
  "watch_lib \<Rightarrow> watch_config \<Rightarrow> Transport \<Rightarrow> nat \<Rightarrow> CliError + Transaction option" where
  "watch_answer lib cfg transport n = fst (watch_poll lib cfg transport (asked n))"

lemma watch_poll_answer:
  "watch_poll lib cfg transport w =
     (watch_answer lib cfg transport (length (ww_requests w)),
      w\<lparr>ww_requests := ww_requests w @ [watch_request cfg transport]\<rparr>)"
  by (cases transport)
    (simp_all add: watch_answer_def watch_request_def asked_def watch_poll_def long_poll_once_def
      poll_once_def http_get_def Let_def)

text \<open>The end of the output of a run that saw a transaction reach a terminal status.\<close>

definition terminal_output :: "Transaction \<Rightarrow> string" where
  "terminal_output tx = ww_out (print_status_update tx (asked 0)) @ newline @ check_mark @
     '' Transaction reached terminal status: '' @ tx_status tx @ newline"

lemma print_terminal:
  "ww_out (print_out (newline @ check_mark @ '' Transaction reached terminal status: '' @
     tx_status tx @ newline) (print_status_update tx w)) = ww_out w @ terminal_output tx"
  by (simp add: terminal_output_def print_out_def print_status_update_def asked_def)

text \<open>The five ways an iteration can go.\<close>

lemma watch_iteration_cases:
  assumes "watch_iteration lib cfg (transport, n) w = (r, w')" and "unat n < 10"
  obtains
    (switch) w1 where "watch_poll lib cfg transport w = (Inl LongPollUnsupported, w1)"
      "r = Inr (Polling, 0)" "length (ww_requests w') = Suc (length (ww_requests w))"
      "ww_slept w' = ww_slept w" "transport = LongPoll"
  | (stop) e w1 where "watch_poll lib cfg transport w = (Inl e, w1)" "r = Inl (Inl gave_up)"
      "unat n = 9" "length (ww_requests w') = Suc (length (ww_requests w))" "ww_slept w' = ww_slept w"
      "e \<noteq> LongPollUnsupported" "ww_requests w' = ww_requests w @ [watch_request cfg transport]"
  | (retry) e w1 where "watch_poll lib cfg transport w = (Inl e, w1)" "r = Inr (transport, n + 1)"
      "unat (n + 1) = Suc (unat n)" "unat n < 9" "ww_slept w' = ww_slept w @ [backoff_ms n]"
      "length (ww_requests w') = Suc (length (ww_requests w))"
      "e \<noteq> LongPollUnsupported" "ww_requests w' = ww_requests w @ [watch_request cfg transport]"
  | (finish) tx w1 where "watch_poll lib cfg transport w = (Inr (Some tx), w1)"
      "is_terminal (tx_status tx)" "r = Inl (Inr ())"
      "length (ww_requests w') = Suc (length (ww_requests w))"
      "suffix (terminal_output tx) (ww_out w')"
      "ww_requests w' = ww_requests w @ [watch_request cfg transport]"
  | (proceed) tx w1 where "watch_poll lib cfg transport w = (Inr tx, w1)"
      "\<forall>t. tx = Some t \<longrightarrow> \<not> is_terminal (tx_status t)" "r = Inr (transport, 0)"
      "length (ww_requests w') = Suc (length (ww_requests w))"
proof -
  obtain p w1 where p: "watch_poll lib cfg transport w = (p, w1)" by fastforce
  note facts = watch_poll_facts [OF p]
  have asks: "ww_requests w1 = ww_requests w @ [watch_request cfg transport]"
    using p by (auto simp: watch_poll_answer)
  have n1: "unat (n + 1) = Suc (unat n)"
    using assms(2) by (simp add: unat_add_no_overflow)
  have ge: "MAX_RECONNECT_ATTEMPTS \<le> n + 1 \<longleftrightarrow> unat n = 9"
    using n1 assms(2) by (auto simp: MAX_RECONNECT_ATTEMPTS_def word_le_nat_alt)
  note run = assms(1) [unfolded watch_iteration_def, folded watch_poll_def, simplified,
      unfolded p Let_def, simplified]
  show ?thesis
  proof (cases p)
    case (Inl e)
    show ?thesis
    proof (cases "e = LongPollUnsupported")
      case True
      then show ?thesis
        using run Inl p facts by (intro switch) (auto simp: print_out_def, (cases transport; simp)+)
    next
      case False
      show ?thesis
      proof (cases "unat n = 9")
        case True
        then show ?thesis
          using run Inl p facts asks False ge by (intro stop) (auto simp: print_err_def)
      next
        case less: False
        then show ?thesis
          using run Inl p facts asks False ge n1 assms(2)
          by (intro retry) (auto simp: print_err_def sleep_ms_def)
      qed
    qed
  next
    case (Inr tx)
    show ?thesis
    proof (cases "\<exists>t. tx = Some t \<and> is_terminal (tx_status t)")
      case True
      then obtain t where t: "tx = Some t" "is_terminal (tx_status t)" by blast
      then have w': "w' = print_out (newline @ check_mark @ '' Transaction reached terminal status: '' @
          tx_status t @ newline) (print_status_update t w1)" and r: "r = Inl (Inr ())"
        using run Inr by auto
      have "ww_requests w' = ww_requests w1" by (simp add: w' print_out_def print_status_update_def)
      moreover have "ww_out w' = ww_out w1 @ terminal_output t" unfolding w' by (rule print_terminal)
      ultimately show ?thesis
        using p Inr t r facts asks by (intro finish [of t w1]) (auto simp: suffix_def)
    next
      case False
      then show ?thesis
        using run Inr p facts
        by (intro proceed [of tx w1])
          (auto simp: print_out_def print_status_update_def sleep_ms_def split: option.splits if_splits)
    qed
  qed
qed

section \<open>The loop returns\<close>

text \<open>
  From the \<open>N\<close>-th request on, every answer is a failure or carries a terminal status.
\<close>

definition settles :: "watch_lib \<Rightarrow> watch_config \<Rightarrow> nat \<Rightarrow> bool" where
  "settles lib cfg N \<longleftrightarrow>
     (\<forall>transport w. N \<le> length (ww_requests w) \<longrightarrow>
        (case fst (watch_poll lib cfg transport w) of
           Inl _ \<Rightarrow> True
         | Inr None \<Rightarrow> False
         | Inr (Some tx) \<Rightarrow> is_terminal (tx_status tx)))"

lemma settlesD:
  "settles lib cfg N \<Longrightarrow> N \<le> length (ww_requests w) \<Longrightarrow>
     case fst (watch_poll lib cfg transport w) of
       Inl _ \<Rightarrow> True | Inr None \<Rightarrow> False | Inr (Some tx) \<Rightarrow> is_terminal (tx_status tx)"
  by (simp add: settles_def)

fun budget :: "Transport \<times> u32 \<Rightarrow> nat" where
  "budget (LongPoll, n) = 20 - unat n"
| "budget (Polling, n) = 10 - unat n"

definition loop_returns :: "watch_lib \<Rightarrow> watch_config \<Rightarrow> Transport \<times> u32 \<Rightarrow> watch_world \<Rightarrow> nat \<Rightarrow> bool" where
  "loop_returns lib cfg st w k \<longleftrightarrow>
     (\<exists>r w'. watch_loop lib cfg st w = Some (r, w') \<and>
        length (ww_requests w') \<le> length (ww_requests w) + k)"

lemma loop_returns_step:
  assumes "watch_iteration lib cfg st w = (Inr st', w1)"
    and "length (ww_requests w1) = Suc (length (ww_requests w))" and "loop_returns lib cfg st' w1 k"
  shows "loop_returns lib cfg st w (Suc k)"
proof -
  have "watch_loop lib cfg st w = watch_loop lib cfg st' w1"
    using assms(1) by (subst watch_loop.simps) simp
  with assms(2,3) show ?thesis unfolding loop_returns_def by fastforce
qed

lemma loop_returns_now:
  assumes "watch_iteration lib cfg st w = (Inl r, w1)"
    and "length (ww_requests w1) = Suc (length (ww_requests w))"
  shows "loop_returns lib cfg st w (Suc k)"
proof -
  have "watch_loop lib cfg st w = Some (r, w1)"
    using assms(1) by (subst watch_loop.simps) simp
  with assms(2) show ?thesis unfolding loop_returns_def by simp
qed

lemma loop_returns_mono: "loop_returns lib cfg st w k \<Longrightarrow> k \<le> k' \<Longrightarrow> loop_returns lib cfg st w k'"
  unfolding loop_returns_def by fastforce

lemma settled_loop_returns:
  "settles lib cfg N \<Longrightarrow> N \<le> length (ww_requests w) \<Longrightarrow> unat n < 10 \<Longrightarrow>
     loop_returns lib cfg (transport, n) w (budget (transport, n))"
proof (induction "budget (transport, n)" arbitrary: transport n w rule: less_induct)
  case less
  obtain r w1 where it: "watch_iteration lib cfg (transport, n) w = (r, w1)" by fastforce
  have "0 < budget (transport, n)" using less.prems(3) by (cases transport) simp_all
  then obtain k where k: "budget (transport, n) = Suc k" by (auto simp: gr0_conv_Suc)
  from it less.prems(3) show ?case
  proof (cases rule: watch_iteration_cases)
    case (switch w2)
    have "loop_returns lib cfg (Polling, 0) w1 (budget (Polling, 0))"
      using less.hyps [of Polling 0 w1] switch less.prems by simp
    moreover have "budget (Polling, 0) \<le> k" using k switch(5) less.prems(3) by simp
    ultimately have "loop_returns lib cfg (Polling, 0) w1 k" by (rule loop_returns_mono)
    then show ?thesis unfolding k by (rule loop_returns_step [OF it [unfolded switch(2)] switch(3)])
  next
    case (stop e w2)
    show ?thesis unfolding k by (rule loop_returns_now [OF it [unfolded stop(2)] stop(4)])
  next
    case (retry e w2)
    have smaller: "budget (transport, n + 1) = k" using k retry(3) by (cases transport) simp_all
    have "budget (transport, n + 1) < budget (transport, n)" unfolding smaller k by (rule lessI)
    moreover have "N \<le> length (ww_requests w1)" "unat (n + 1) < 10"
      using retry(3,4,6) less.prems(2) by linarith+
    ultimately have "loop_returns lib cfg (transport, n + 1) w1 (budget (transport, n + 1))"
      by (intro less.hyps less.prems(1))
    then show ?thesis
      unfolding smaller k by (intro loop_returns_step [OF it [unfolded retry(2)] retry(6)])
  next
    case (finish tx w2)
    show ?thesis unfolding k by (rule loop_returns_now [OF it [unfolded finish(3)] finish(4)])
  next
    case (proceed tx w2)
    show ?thesis
      using settlesD [OF less.prems(1,2), of transport] proceed(1,2) by (auto split: option.splits)
  qed
qed

lemma loop_returns_before:
  "settles lib cfg N \<Longrightarrow> unat n < 10 \<Longrightarrow>
     loop_returns lib cfg (transport, n) w (N - length (ww_requests w) + 20)"
proof (induction "N - length (ww_requests w)" arbitrary: transport n w)
  case 0
  then have "loop_returns lib cfg (transport, n) w (budget (transport, n))"
    by (intro settled_loop_returns) simp_all
  then show ?case by (rule loop_returns_mono) (cases transport, simp_all)
next
  case (Suc m)
  obtain r w1 where it: "watch_iteration lib cfg (transport, n) w = (r, w1)" by fastforce
  have more: "N - length (ww_requests w) + 20 = Suc (m + 20)" using Suc.hyps(2) by simp
  have len: "length (ww_requests w1) = Suc (length (ww_requests w))"
    using it Suc.prems(2) by (cases rule: watch_iteration_cases) simp_all
  show ?case
  proof (cases r)
    case (Inl a)
    show ?thesis unfolding more by (rule loop_returns_now [OF it [unfolded Inl] len])
  next
    case (Inr st')
    obtain tr' n' where st': "st' = (tr', n')" by fastforce
    have "unat n' < 10"
      using it Suc.prems(2) Inr st' by (cases rule: watch_iteration_cases) auto
    moreover have m: "m = N - length (ww_requests w1)" using Suc.hyps(2) len by simp
    ultimately have "loop_returns lib cfg (tr', n') w1 (m + 20)"
      using Suc.hyps(1) [OF m Suc.prems(1)] by simp
    then show ?thesis
      unfolding more by (intro loop_returns_step [OF it [unfolded Inr st'] len])
  qed
qed

section \<open>What it returns\<close>

text \<open>
  The last \<open>k\<close> requests were made over one transport and every one of them failed, other than by the
  refusal of the long poll.
\<close>

definition failed_in_a_row :: "watch_lib \<Rightarrow> watch_config \<Rightarrow> Transport \<Rightarrow> nat \<Rightarrow> watch_world \<Rightarrow> bool" where
  "failed_in_a_row lib cfg transport k w \<longleftrightarrow>
     suffix (replicate k (watch_request cfg transport)) (ww_requests w) \<and>
     (\<forall>i < k. \<exists>e. e \<noteq> LongPollUnsupported \<and>
        watch_answer lib cfg transport (length (ww_requests w) - Suc i) = Inl e)"

text \<open>
  The errors counted are failures in a row, and the last sleeps are the backoffs between them.
\<close>

definition counted_errors :: "watch_lib \<Rightarrow> watch_config \<Rightarrow> Transport \<times> u32 \<Rightarrow> watch_world \<Rightarrow> bool" where
  "counted_errors lib cfg st w \<longleftrightarrow>
     (case st of (transport, n) \<Rightarrow> unat n < 10 \<and> failed_in_a_row lib cfg transport (unat n) w \<and>
        suffix (map (\<lambda>i. backoff_ms (word_of_nat i)) [0..<unat n]) (ww_slept w))"

definition reached_terminal :: "watch_lib \<Rightarrow> watch_config \<Rightarrow> watch_world \<Rightarrow> bool" where
  "reached_terminal lib cfg w \<longleftrightarrow>
     (\<exists>transport tx. suffix [watch_request cfg transport] (ww_requests w) \<and>
        watch_answer lib cfg transport (length (ww_requests w) - 1) = Inr (Some tx) \<and>
        is_terminal (tx_status tx) \<and> suffix (terminal_output tx) (ww_out w))"

definition loop_outcome :: "watch_lib \<Rightarrow> watch_config \<Rightarrow> CliError + unit \<Rightarrow> watch_world \<Rightarrow> bool" where
  "loop_outcome lib cfg r w \<longleftrightarrow>
     (case r of
        Inl e \<Rightarrow> e = gave_up \<and> (\<exists>transport. failed_in_a_row lib cfg transport 10 w) \<and>
          suffix (map (\<lambda>i. backoff_ms (word_of_nat i)) [0..<9]) (ww_slept w)
      | Inr _ \<Rightarrow> reached_terminal lib cfg w)"

lemma counted_errors_zero: "counted_errors lib cfg (transport, 0) w"
  by (simp add: counted_errors_def failed_in_a_row_def)

lemma failed_again:
  assumes "failed_in_a_row lib cfg transport k w" and "watch_poll lib cfg transport w = (Inl e, w1)"
    and "e \<noteq> LongPollUnsupported" and "ww_requests w' = ww_requests w @ [watch_request cfg transport]"
  shows "failed_in_a_row lib cfg transport (Suc k) w'"
  using assms
  by (auto simp: failed_in_a_row_def watch_poll_answer suffix_def replicate_append_same less_Suc_eq_0_disj)

lemma counted_errors_next:
  assumes "counted_errors lib cfg (transport, n) w" and "unat (n + 1) = Suc (unat n)" and "unat n < 9"
    and "ww_slept w' = ww_slept w @ [backoff_ms n]"
    and "watch_poll lib cfg transport w = (Inl e, w1)" and "e \<noteq> LongPollUnsupported"
    and "ww_requests w' = ww_requests w @ [watch_request cfg transport]"
  shows "counted_errors lib cfg (transport, n + 1) w'"
proof -
  have "failed_in_a_row lib cfg transport (Suc (unat n)) w'"
    using failed_again [OF _ assms(5-7)] assms(1) by (simp add: counted_errors_def)
  moreover have "word_of_nat (unat n) = n" by simp
  ultimately show ?thesis using assms(1-4) by (auto simp: counted_errors_def suffix_def)
qed

lemma watch_loop_outcome:
  assumes "watch_loop lib cfg st w = Some y"
  shows "counted_errors lib cfg st w \<longrightarrow> loop_outcome lib cfg (fst y) (snd y)"
proof (rule watch_loop.raw_induct [OF _ assms])
  fix loop lib cfg st w and y :: "(CliError + unit) \<times> watch_world"
  assume IH: "\<And>lib cfg st w y. loop lib cfg st w = Some y \<Longrightarrow>
      counted_errors lib cfg st w \<longrightarrow> loop_outcome lib cfg (fst y) (snd y)"
    and run: "(case watch_iteration lib cfg st w of
        (Inl r, w') \<Rightarrow> Some (r, w') | (Inr st', w') \<Rightarrow> loop lib cfg st' w') = Some y"
  obtain transport n where st: "st = (transport, n)" by fastforce
  obtain x w1 where it: "watch_iteration lib cfg (transport, n) w = (x, w1)" by fastforce
  note run = run [unfolded st it]
  have "loop_outcome lib cfg (fst y) (snd y)" if counted: "counted_errors lib cfg (transport, n) w"
    using it conjunct1 [OF counted [unfolded counted_errors_def prod.case]]
  proof (cases rule: watch_iteration_cases)
    case (switch w2)
    then show ?thesis using IH [of lib cfg "(Polling, 0)" w1] run by (simp add: counted_errors_zero)
  next
    case (stop e w2)
    have "failed_in_a_row lib cfg transport (unat n) w" using counted by (simp add: counted_errors_def)
    from failed_again [OF this stop(1,6,7)] have "failed_in_a_row lib cfg transport 10 w1"
      by (simp add: stop(3))
    then show ?thesis using run counted stop by (auto simp: loop_outcome_def counted_errors_def)
  next
    case (retry e w2)
    have "counted_errors lib cfg (transport, n + 1) w1"
      using counted_errors_next [OF counted retry(3,4,5) retry(1,7,8)] .
    then show ?thesis using IH [of lib cfg "(transport, n + 1)" w1] run retry(2) by simp
  next
    case (finish tx w2)
    then have "reached_terminal lib cfg w1"
      by (auto simp: reached_terminal_def watch_poll_answer suffix_def)
    then show ?thesis using run finish(3) by (auto simp: loop_outcome_def)
  next
    case (proceed tx w2)
    then show ?thesis using IH [of lib cfg "(transport, 0)" w1] run by (simp add: counted_errors_zero)
  qed
  then show "counted_errors lib cfg st w \<longrightarrow> loop_outcome lib cfg (fst y) (snd y)" by (simp add: st)
qed

section \<open>Properties\<close>

text \<open>
  C37. The command returns, whatever mix of failures and long-poll refusals it meets, once the
  anchor is past its \<open>N\<close>-th answer and only fails or reports a terminal status: at most twenty
  requests after that one it has given its result.
\<close>

theorem watch_returns:
  assumes "settles lib (watch_setup url tid token long_poll interval) N"
  shows "\<exists>r w'. watch_run lib url tid token long_poll interval w = Some (r, w') \<and>
     length (ww_requests w') \<le> max N (length (ww_requests w)) + 20"
proof -
  have "\<exists>r w'. watch_loop lib (watch_setup url tid token long_poll interval) (LongPoll, 0)
      (print_out s w) = Some (r, w') \<and> length (ww_requests w') \<le> max N (length (ww_requests w)) + 20" for s
    using loop_returns_before [OF assms, of 0 LongPoll "print_out s w"]
    by (fastforce simp: loop_returns_def print_out_def)
  then show ?thesis
    by (fastforce simp: watch_run_def Let_def split: option.splits)
qed

definition demo_tx :: "string \<Rightarrow> Transaction" where
  "demo_tx s = \<lparr>tx_id = ''t1'', tx_status = s, tx_message = None, tx_more_info_url = None,
     tx_updated_at = None\<rparr>"

text \<open>
  An anchor whose first answer is a pending transaction, which then refuses the long poll, fails
  once and reports the status that its body names.
\<close>

definition demo_anchor :: watch_lib where
  "demo_anchor = \<lparr>
     wl_get = \<lambda>n _ _. if n = 0 then Got 200 (Inr ''pending_anchor'')
       else if n = 1 then Got 404 (Inr []) else if n = 2 then Got 503 (Inr [])
       else Got 200 (Inr ''completed''),
     wl_parse_transactions = \<lambda>b. Inr [demo_tx b],
     wl_parse_transaction = \<lambda>b. Inr (demo_tx b),
     wl_status_text = \<lambda>_. ''503 Service Unavailable'', wl_build_error = None\<rparr>"

definition fresh_world :: watch_world where
  "fresh_world = \<lparr>ww_requests = [], ww_slept = [], ww_out = [], ww_err = []\<rparr>"

lemma demo_anchor_settles: "settles demo_anchor cfg 1"
  by (auto simp: settles_def watch_poll_def long_poll_once_def poll_once_def http_get_def demo_anchor_def
      demo_tx_def is_success_def is_terminal_def TERMINAL_STATUSES_def split: Transport.splits)

theorem watch_returns_witness:
  "\<exists>r w'. watch_run demo_anchor ''https://a.org/'' ''t1'' None None None fresh_world = Some (r, w') \<and>
     length (ww_requests w') \<le> max 1 (length (ww_requests fresh_world)) + 20"
  by (rule watch_returns [OF demo_anchor_settles])

lemma gave_up_eq: "gave_up = Rpc ''gave up after 10 consecutive errors''"
  by code_simp

lemma backoff_ms_eq: "backoff_ms n = word_of_nat (min (1000 * 2 ^ unat n) 30000)"
  by (subst unat_backoff_ms [symmetric]) simp

lemma nine_backoffs:
  "map (\<lambda>i. backoff_ms (word_of_nat i)) [0..<9] =
     [1000, 2000, 4000, 8000, 16000, 30000, 30000, 30000, 30000]"
  by (simp add: backoff_ms_eq upt_rec unat_of_nat)

text \<open>
  C38. Whatever the anchor answers, what a returned run says is true. Success: the anchor answered the
  last request with a transaction of terminal status, and the output ends with the update of that
  transaction and the line that names its status. The failure of the loop: the last ten requests
  were made over one transport and each of them failed, none by the refusal of the long poll, and the
  last nine sleeps are the backoffs between them. The failure to build the client makes no request. A
  panic comes only from a timeout within five seconds of the largest one.
\<close>

theorem watch_outcome:
  assumes "watch_run lib url tid token long_poll interval w = Some (r, w')"
  shows "case r of
      Ok _ \<Rightarrow> reached_terminal lib (watch_setup url tid token long_poll interval) w'
    | Err e \<Rightarrow> (w' = w \<and> map_option Rpc (wl_build_error lib) = Some e) \<or>
        (e = Rpc ''gave up after 10 consecutive errors'' \<and>
         (\<exists>transport. failed_in_a_row lib (watch_setup url tid token long_poll interval) transport 10 w') \<and>
         suffix [1000, 2000, 4000, 8000, 16000, 30000, 30000, 30000, 30000] (ww_slept w'))
    | Panic \<Rightarrow> w' = w \<and> (\<exists>t. long_poll = Some t \<and> 2 ^ 64 \<le> unat t + 5)"
proof -
  let ?cfg = "watch_setup url tid token long_poll interval"
  have loop: "loop_outcome lib ?cfg r' w2" if "watch_loop lib ?cfg (LongPoll, 0) w1 = Some (r', w2)" for w1 r' w2
    using watch_loop_outcome [OF that] counted_errors_zero by simp
  show ?thesis
  proof (cases "checked_add (wc_long_poll_secs ?cfg) 5")
    case None
    then show ?thesis
      using assms
      by (auto simp: watch_run_def checked_add_def watch_setup_def DEFAULT_LONG_POLL_TIMEOUT_SECS_def
          split: if_splits option.splits)
  next
    case (Some slack)
    show ?thesis
    proof (cases "wl_build_error lib")
      case built: None
      then obtain w1 r' where "watch_loop lib ?cfg (LongPoll, 0) w1 = Some (r', w')"
        "r = (case r' of Inl e \<Rightarrow> Err e | Inr u \<Rightarrow> Ok u)"
        using assms Some by (auto simp: watch_run_def Let_def)
      with loop [of w1 r' w'] show ?thesis
        by (auto simp: loop_outcome_def gave_up_eq nine_backoffs split: sum.splits)
    next
      case (Some e)
      then show ?thesis
        using assms \<open>checked_add _ 5 = Some slack\<close> by (auto simp: watch_run_def Let_def)
    qed
  qed
qed

lemmas demo_simps = watch_iteration_def long_poll_once_def poll_once_def http_get_def demo_anchor_def
  demo_tx_def is_success_def is_terminal_def TERMINAL_STATUSES_def print_out_def print_err_def
  print_status_update_def sleep_ms_def MAX_RECONNECT_ATTEMPTS_def backoff_ms_eq Let_def

lemma demo_first:
  "ww_requests w = [] \<Longrightarrow> \<exists>w1. watch_iteration demo_anchor cfg (LongPoll, 0) w = (Inr (LongPoll, 0), w1) \<and>
     length (ww_requests w1) = 1 \<and> ww_slept w1 = ww_slept w"
  by (simp add: demo_simps)

lemma demo_second:
  "length (ww_requests w) = 1 \<Longrightarrow>
     \<exists>w1. watch_iteration demo_anchor cfg (LongPoll, 0) w = (Inr (Polling, 0), w1) \<and>
       length (ww_requests w1) = 2 \<and> ww_slept w1 = ww_slept w"
  by (simp add: demo_simps)

lemma demo_third:
  "length (ww_requests w) = 2 \<Longrightarrow>
     \<exists>w1. watch_iteration demo_anchor cfg (Polling, 0) w = (Inr (Polling, 1), w1) \<and>
       length (ww_requests w1) = 3 \<and> ww_slept w1 = ww_slept w @ [1000]"
  by (simp add: demo_simps word_le_nat_alt)

lemma demo_fourth:
  "length (ww_requests w) = 3 \<Longrightarrow>
     \<exists>w1. watch_iteration demo_anchor cfg (Polling, n) w = (Inl (Inr ()), w1) \<and> ww_slept w1 = ww_slept w"
  by (simp add: demo_simps)

lemma demo_loop:
  assumes "ww_requests w = []"
  shows "\<exists>w'. watch_loop demo_anchor cfg (LongPoll, 0) w = Some (Inr (), w') \<and>
    ww_slept w' = ww_slept w @ [1000]"
proof -
  obtain w1 where 1: "watch_iteration demo_anchor cfg (LongPoll, 0) w = (Inr (LongPoll, 0), w1)"
    "length (ww_requests w1) = 1" "ww_slept w1 = ww_slept w" using demo_first [OF assms] by blast
  obtain w2 where 2: "watch_iteration demo_anchor cfg (LongPoll, 0) w1 = (Inr (Polling, 0), w2)"
    "length (ww_requests w2) = 2" "ww_slept w2 = ww_slept w1" using demo_second [OF 1(2)] by blast
  obtain w3 where 3: "watch_iteration demo_anchor cfg (Polling, 0) w2 = (Inr (Polling, 1), w3)"
    "length (ww_requests w3) = 3" "ww_slept w3 = ww_slept w2 @ [1000]" using demo_third [OF 2(2)] by blast
  obtain w4 where 4: "watch_iteration demo_anchor cfg (Polling, 1) w3 = (Inl (Inr ()), w4)"
    "ww_slept w4 = ww_slept w3" using demo_fourth [OF 3(2)] by blast
  have "watch_loop demo_anchor cfg (LongPoll, 0) w = Some (Inr (), w4)"
    by (subst watch_loop.simps, simp add: 1(1), subst watch_loop.simps, simp add: 2(1),
        subst watch_loop.simps, simp add: 3(1), subst watch_loop.simps, simp add: 4(1))
  with 1 2 3 4 show ?thesis by simp
qed

lemma demo_answer:
  "watch_answer demo_anchor cfg transport n = Inr (Some tx) \<Longrightarrow> is_terminal (tx_status tx) \<Longrightarrow>
     tx = demo_tx ''completed''"
  by (auto simp: watch_answer_def watch_poll_def demo_simps split: Transport.splits if_splits)

text \<open>An anchor that is down.\<close>

definition demo_down :: watch_lib where
  "demo_down = demo_anchor\<lparr>wl_get := \<lambda>_ _ _. Got 503 (Inr [])\<rparr>"

lemma demo_down_answer: "watch_answer demo_down cfg transport n \<noteq> Inr x"
  by (cases transport) (simp_all add: watch_answer_def watch_poll_def demo_down_def demo_simps)

lemma demo_down_loop: "\<exists>r w'. watch_loop demo_down cfg (LongPoll, 0) w = Some (r, w')"
proof -
  have "settles demo_down cfg 0"
    by (auto simp: settles_def watch_poll_answer demo_down_answer split: sum.splits)
  from loop_returns_before [OF this, of 0 LongPoll w] show ?thesis by (auto simp: loop_returns_def)
qed

lemma demo_runs:
  "\<exists>w'. watch_run demo_anchor ''https://a.org/'' ''t1'' None None None fresh_world = Some (Ok (), w') \<and>
     ww_slept w' = [1000]"
  "\<exists>r w'. watch_run demo_down ''https://a.org/'' ''t1'' None None None fresh_world = Some (r, w')"
proof -
  note run = watch_run_def Let_def watch_setup_def checked_add_def DEFAULT_LONG_POLL_TIMEOUT_SECS_def
    demo_anchor_def
  show "\<exists>w'. watch_run demo_anchor ''https://a.org/'' ''t1'' None None None fresh_world = Some (Ok (), w') \<and>
      ww_slept w' = [1000]"
    using demo_loop [of "print_out _ fresh_world"] by (fastforce simp: run print_out_def fresh_world_def)
  show "\<exists>r w'. watch_run demo_down ''https://a.org/'' ''t1'' None None None fresh_world = Some (r, w')"
    using demo_down_loop by (simp add: watch_run_def Let_def split: option.split) blast
qed

theorem watch_outcome_witness:
  "(\<exists>w'. watch_run demo_anchor ''https://a.org/'' ''t1'' None None None fresh_world = Some (Ok (), w') \<and>
      ww_slept w' = [1000] \<and> suffix (terminal_output (demo_tx ''completed'')) (ww_out w')) \<and>
   (\<exists>transport w'. watch_run demo_down ''https://a.org/'' ''t1'' None None None fresh_world =
        Some (Err (Rpc ''gave up after 10 consecutive errors''), w') \<and>
      failed_in_a_row demo_down (watch_setup ''https://a.org/'' ''t1'' None None None) transport 10 w')"
proof
  obtain w' where up: "watch_run demo_anchor ''https://a.org/'' ''t1'' None None None fresh_world =
      Some (Ok (), w')" "ww_slept w' = [1000]" using demo_runs(1) by blast
  from watch_outcome [OF up(1)] have "suffix (terminal_output (demo_tx ''completed'')) (ww_out w')"
    by (auto simp: reached_terminal_def dest: demo_answer)
  with up show "\<exists>w'. watch_run demo_anchor ''https://a.org/'' ''t1'' None None None fresh_world =
      Some (Ok (), w') \<and> ww_slept w' = [1000] \<and> suffix (terminal_output (demo_tx ''completed'')) (ww_out w')"
    by blast
  obtain r w2 where down: "watch_run demo_down ''https://a.org/'' ''t1'' None None None fresh_world = Some (r, w2)"
    using demo_runs(2) by blast
  have "\<not> reached_terminal demo_down (watch_setup ''https://a.org/'' ''t1'' None None None) w2"
    by (simp add: reached_terminal_def demo_down_answer)
  moreover have "wl_build_error demo_down = None" by (simp add: demo_down_def demo_anchor_def)
  ultimately show "\<exists>transport w'. watch_run demo_down ''https://a.org/'' ''t1'' None None None fresh_world =
        Some (Err (Rpc ''gave up after 10 consecutive errors''), w') \<and>
      failed_in_a_row demo_down (watch_setup ''https://a.org/'' ''t1'' None None None) transport 10 w'"
    using watch_outcome [OF down] down by (cases r) auto
qed

text \<open>
  Percent-encoding the transaction id loses nothing and leaves only unreserved characters and
  percent signs in the URL: an id cannot add a parameter or a path segment to the request.
\<close>

lemma urlencoding_roundtrip:
  "url_decode (urlencoding_simple s) = s \<and>
   list_all (\<lambda>c. unreserved c \<or> c = CHR ''%'') (urlencoding_simple s)"
  using url_decode_encode urlencoding_unreserved by blast

end
