(* ===== verification/Discovery.thy ===== *)
theory Discovery
  imports Cli_Types Payload_Domain "HOL-Library.List_Lexorder" "HOL-Library.Char_ord"
begin

text \<open>
  \<open>anchorkit discover\<close> (\<open>cli/src/discovery\<close>): the \<open>stellar.toml\<close> of a domain, the \<open>/info\<close> of a
  transfer server it names, the capabilities both give, and the printed report. The answers of
  the HTTP client to the n-th request, the two parsers and the failure of the client builder are
  parameters; the state is the list of URLs requested. A hash map is the list of its entries in
  the order its iterator gives them.
\<close>

section \<open>The two documents\<close>

record StellarToml =
  version :: "string option"
  network_passphrase :: "string option"
  federation_server :: "string option"
  web_auth_endpoint :: "string option"
  signing_key :: "string option"
  transfer_server :: "string option"
  transfer_server_sep24 :: "string option"
  kyc_server :: "string option"
  direct_payment_server :: "string option"
  anchor_quote_server :: "string option"

record AssetOperation =
  enabled :: bool

record InfoResponse =
  deposit :: "(string \<times> AssetOperation) list"
  withdraw :: "(string \<times> AssetOperation) list"

definition enabled_asset_count :: "InfoResponse \<Rightarrow> nat" where
  "enabled_asset_count info =
     (let assets = map fst (filter (\<lambda>(_, asset_op). enabled asset_op) (deposit info)) @
                   map fst (filter (\<lambda>(_, asset_op). enabled asset_op) (withdraw info))
      in length (remdups_adj (sort assets)))"

record discovery_lib =
  dl_get :: "nat \<Rightarrow> string \<Rightarrow> get_reply"
  dl_parse_toml :: "string \<Rightarrow> string + StellarToml"
  dl_parse_info :: "string \<Rightarrow> string + InfoResponse"
  dl_build_error :: "string option"

type_synonym 'a discovery_op = "(string list, CliError, 'a) op"

definition send_get :: "discovery_lib \<Rightarrow> string \<Rightarrow> get_reply discovery_op" where
  "send_get lib url w = (Ok (dl_get lib (length w) url), w @ [url])"

definition stellar_toml_url :: "string \<Rightarrow> string" where
  "stellar_toml_url domain = ''https://'' @ domain @ ''/.well-known/stellar.toml''"

definition stellar_toml_fetch :: "discovery_lib \<Rightarrow> string \<Rightarrow> StellarToml discovery_op" where
  "stellar_toml_fetch lib domain =
     (let url = stellar_toml_url domain in
      bindS (send_get lib url) (\<lambda>reply.
        case reply of
          Get_failed e \<Rightarrow> failS (Unreachable url e)
        | Got status body \<Rightarrow>
            if \<not> is_success status then failS (HttpStatus url status)
            else
              (case body of
                 Inl e \<Rightarrow> failS (Unreachable url e)
               | Inr body_text \<Rightarrow>
                   (case dl_parse_toml lib body_text of
                      Inl e \<Rightarrow> failS (Malformed url e)
                    | Inr toml \<Rightarrow> retS toml))))"

definition info_url :: "string \<Rightarrow> string" where
  "info_url base_url = trim_end_matches (CHR ''/'') base_url @ ''/info''"

definition info_fetch :: "discovery_lib \<Rightarrow> string \<Rightarrow> InfoResponse discovery_op" where
  "info_fetch lib base_url =
     (let url = info_url base_url in
      bindS (send_get lib url) (\<lambda>reply.
        case reply of
          Get_failed e \<Rightarrow> failS (Unreachable url e)
        | Got status body \<Rightarrow>
            if \<not> is_success status then failS (HttpStatus url status)
            else
              (case body of
                 Inl e \<Rightarrow> failS (Malformed url e)
               | Inr body_text \<Rightarrow>
                   (case dl_parse_info lib body_text of
                      Inl e \<Rightarrow> failS (Malformed url e)
                    | Inr info \<Rightarrow> retS info))))"

section \<open>Capability detection\<close>

record SepFinding =
  sep :: string
  sep_name :: string
  supported :: bool
  detail :: "string option"

datatype InfoSource = NoInfo | Sep6 | Sep24

definition sep_transfer_supported :: "string option \<Rightarrow> InfoResponse option \<Rightarrow> bool \<Rightarrow> bool" where
  "sep_transfer_supported endpoint info is_this_endpoint =
     (if endpoint = None then False
      else if is_this_endpoint then
        (case info of Some i \<Rightarrow> enabled_asset_count i > 0 | None \<Rightarrow> True)
      else True)"

text \<open>The \<open>?\<close> inside the format arguments returns \<open>None\<close> when there is no endpoint.\<close>

definition asset_detail :: "string option \<Rightarrow> InfoResponse option \<Rightarrow> bool \<Rightarrow> string option" where
  "asset_detail endpoint info is_this_endpoint =
     (case (is_this_endpoint, info) of
        (True, Some i) \<Rightarrow>
          let count = enabled_asset_count i in
          (case endpoint of
             None \<Rightarrow> None
           | Some e \<Rightarrow> Some (e @ '' ('' @ show_nat count @ '' asset'' @
               (if count = 1 then [] else ''s'') @ '' enabled)''))
      | _ \<Rightarrow> endpoint)"

definition detect :: "StellarToml \<Rightarrow> InfoResponse option \<Rightarrow> InfoSource \<Rightarrow> SepFinding list" where
  "detect toml info info_source =
     (let sep10_supported = (web_auth_endpoint toml \<noteq> None \<and> signing_key toml \<noteq> None);
          sep6_is_queried_endpoint = (info_source = Sep6);
          sep6_supported = sep_transfer_supported (transfer_server toml) info sep6_is_queried_endpoint;
          sep24_is_queried_endpoint = (info_source = Sep24);
          sep24_supported =
            sep_transfer_supported (transfer_server_sep24 toml) info sep24_is_queried_endpoint
      in [\<lparr>sep = ''SEP-1'', sep_name = ''stellar.toml (anchor metadata)'', supported = True,
           detail = map_option (\<lambda>v. ''VERSION '' @ v) (version toml)\<rparr>,
          \<lparr>sep = ''SEP-10'', sep_name = ''Web Authentication'', supported = sep10_supported,
           detail = web_auth_endpoint toml\<rparr>,
          \<lparr>sep = ''SEP-6'', sep_name = ''Deposit/Withdrawal'', supported = sep6_supported,
           detail = asset_detail (transfer_server toml) info sep6_is_queried_endpoint\<rparr>,
          \<lparr>sep = ''SEP-24'', sep_name = ''Hosted Deposit/Withdrawal'', supported = sep24_supported,
           detail = asset_detail (transfer_server_sep24 toml) info sep24_is_queried_endpoint\<rparr>,
          \<lparr>sep = ''SEP-12'', sep_name = ''KYC API'', supported = (kyc_server toml \<noteq> None),
           detail = kyc_server toml\<rparr>,
          \<lparr>sep = ''SEP-31'', sep_name = ''Cross-Border Payments'',
           supported = (direct_payment_server toml \<noteq> None), detail = direct_payment_server toml\<rparr>,
          \<lparr>sep = ''SEP-38'', sep_name = ''Anchor RFQ (Quotes)'',
           supported = (anchor_quote_server toml \<noteq> None), detail = anchor_quote_server toml\<rparr>])"

section \<open>The command\<close>

record DiscoveryReport =
  report_domain :: string
  report_toml :: StellarToml
  report_seps :: "SepFinding list"

definition str_bytes :: "string \<Rightarrow> u8 list" where
  "str_bytes s = map (\<lambda>c. word_of_nat (char_code c)) s"

definition fetch_info ::
  "discovery_lib \<Rightarrow> StellarToml \<Rightarrow> (InfoResponse option \<times> InfoSource) discovery_op" where
  "fetch_info lib toml =
     (case transfer_server_sep24 toml of
        Some base \<Rightarrow> bindS (info_fetch lib base) (\<lambda>i. retS (Some i, Sep24))
      | None \<Rightarrow>
          (case transfer_server toml of
             Some base \<Rightarrow> bindS (info_fetch lib base) (\<lambda>i. retS (Some i, Sep6))
           | None \<Rightarrow> retS (None, NoInfo)))"

definition discover :: "discovery_lib \<Rightarrow> string \<Rightarrow> DiscoveryReport discovery_op" where
  "discover lib domain =
     (if \<not> validate_domain_syntax (str_bytes domain) then failS (InvalidDomain_err domain)
      else
        case dl_build_error lib of
          Some e \<Rightarrow> failS (Unreachable domain e)
        | None \<Rightarrow>
            bindS (stellar_toml_fetch lib domain) (\<lambda>toml.
            bindS (fetch_info lib toml) (\<lambda>(info, info_source).
            retS \<lparr>report_domain = domain, report_toml = toml,
                  report_seps = detect toml info info_source\<rparr>)))"

text \<open>\<open>{:<8}\<close> pads with spaces on the right.\<close>

definition pad_right :: "nat \<Rightarrow> string \<Rightarrow> string" where
  "pad_right n s = s @ replicate (n - length s) (CHR '' '')"

definition finding_line :: "SepFinding \<Rightarrow> string" where
  "finding_line finding =
     (let mark = if supported finding then ''yes'' else ''no '' in
      ''  ['' @ mark @ ''] '' @ pad_right 8 (sep finding) @ '' '' @ sep_name finding @
      (if supported finding then
         (case detail finding of Some d \<Rightarrow> '' -- '' @ d | None \<Rightarrow> [])
       else []) @ [CHR 0x0A])"

definition print_report :: "DiscoveryReport \<Rightarrow> string" where
  "print_report report =
     ''anchor: '' @ report_domain report @ [CHR 0x0A] @
     (case network_passphrase (report_toml report) of
        Some passphrase \<Rightarrow> ''network: '' @ passphrase @ [CHR 0x0A] | None \<Rightarrow> []) @
     [CHR 0x0A] @ ''Supported SEPs:'' @ [CHR 0x0A] @
     concat (map finding_line (report_seps report))"

section \<open>Counting assets\<close>

lemma distinct_remdups_adj_sorted: "sorted xs \<Longrightarrow> distinct (remdups_adj xs)"
proof (induction xs rule: remdups_adj.induct)
  case (3 x y xs)
  then show ?case by (auto simp: order.antisym)
qed simp_all

definition enabled_assets :: "InfoResponse \<Rightarrow> string set" where
  "enabled_assets info =
     {code. \<exists>asset_op. enabled asset_op \<and> (code, asset_op) \<in> set (deposit info) \<union> set (withdraw info)}"

lemma enabled_asset_count_card: "enabled_asset_count info = card (enabled_assets info)"
proof -
  let ?assets = "map fst (filter (\<lambda>(_, asset_op). enabled asset_op) (deposit info)) @
    map fst (filter (\<lambda>(_, asset_op). enabled asset_op) (withdraw info))"
  have "length (remdups_adj (sort ?assets)) = card (set (remdups_adj (sort ?assets)))"
    by (rule distinct_card [symmetric]) (simp add: distinct_remdups_adj_sorted)
  also have "set (remdups_adj (sort ?assets)) = enabled_assets info"
    by (force simp: enabled_assets_def)
  finally show ?thesis by (simp add: enabled_asset_count_def)
qed

lemma finite_enabled_assets: "finite (enabled_assets info)"
proof (rule finite_subset)
  show "enabled_assets info \<subseteq> fst ` (set (deposit info) \<union> set (withdraw info))"
    by (force simp: enabled_assets_def)
qed simp

lemma enabled_asset_count_pos: "0 < enabled_asset_count info \<longleftrightarrow> enabled_assets info \<noteq> {}"
  by (simp add: enabled_asset_count_card card_gt_0_iff finite_enabled_assets)

section \<open>Accepted domains\<close>

lemma accepted_domain_bytes:
  assumes "validate_domain_syntax d" and "c \<in> set d"
  shows "label_char c \<or> c = 46"
  using assms split_on_cover [OF assms(2), of 46]
  by (auto simp: validate_domain_syntax_def is_valid_domain_syntax_iff valid_label_def list_all_iff)

definition host_char :: "char \<Rightarrow> bool" where
  "host_char c \<longleftrightarrow> is_ascii_alphanumeric_char c \<or> c = CHR ''-'' \<or> c = CHR ''.''"

lemma unat_char_byte: "unat (word_of_nat (char_code c) :: u8) = char_code c"
  by (simp add: char_code_def unsigned_of_nat take_bit_nat_eq_self)

lemma char_code_inject: "char_code c = char_code d \<longleftrightarrow> c = d"
  by (simp add: char_code_def)

lemma hyphen_dot_code: "char_code c = 45 \<Longrightarrow> c = CHR ''-''" "char_code c = 46 \<Longrightarrow> c = CHR ''.''"
  using char_code_inject [of c "CHR ''-''"] char_code_inject [of c "CHR ''.''"]
  by (simp_all add: char_code_def)

lemma accepted_domain_chars:
  assumes "validate_domain_syntax (str_bytes domain)"
  shows "list_all host_char domain"
proof -
  have "host_char c" if "c \<in> set domain" for c
  proof -
    let ?b = "word_of_nat (char_code c) :: u8"
    have "label_char ?b \<or> ?b = 46"
      using accepted_domain_bytes [OF assms, of ?b] that by (simp add: str_bytes_def)
    then have "is_ascii_alphanumeric_char c \<or> char_code c = 45 \<or> char_code c = 46"
      by (auto simp: label_char_def is_ascii_alphanumeric_def is_ascii_alphanumeric_char_def
          is_ascii_digit_char_def word_le_nat_alt word_unat_eq_iff unat_char_byte)
    then show ?thesis
      by (auto simp: host_char_def dest: hyphen_dot_code)
  qed
  then show ?thesis by (simp add: list_all_iff)
qed

section \<open>The requests and the report\<close>

lemma stellar_toml_fetch_cases:
  assumes "stellar_toml_fetch lib domain w = (r, w')"
  shows "w' = w @ [stellar_toml_url domain] \<and> r \<noteq> Panic"
  using assms
  by (auto simp: stellar_toml_fetch_def send_get_def bindS_def op_defs Let_def
      split: get_reply.splits if_splits sum.splits)

lemma info_fetch_cases:
  assumes "info_fetch lib base w = (r, w')"
  shows "w' = w @ [info_url base] \<and> r \<noteq> Panic"
  using assms
  by (auto simp: info_fetch_def send_get_def bindS_def op_defs Let_def
      split: get_reply.splits if_splits sum.splits)

definition queried_base :: "StellarToml \<Rightarrow> string option" where
  "queried_base toml =
     (case transfer_server_sep24 toml of Some base \<Rightarrow> Some base | None \<Rightarrow> transfer_server toml)"

lemma fetch_info_cases:
  assumes "fetch_info lib toml w = (r, w')"
  shows "w' = w @ (case queried_base toml of None \<Rightarrow> [] | Some base \<Rightarrow> [info_url base]) \<and> r \<noteq> Panic"
  using assms
  by (auto simp: fetch_info_def queried_base_def bindS_def op_defs dest!: info_fetch_cases
      split: option.splits prod.splits outcome.splits)

text \<open>The shape of a run that gets past the domain check.\<close>

lemma discover_valid:
  assumes "validate_domain_syntax (str_bytes domain)" and "dl_build_error lib = None"
  shows "discover lib domain w =
    (case stellar_toml_fetch lib domain w of
       (Ok toml, w1) \<Rightarrow>
         (case fetch_info lib toml w1 of
            (Ok (info, src), w2) \<Rightarrow>
              (Ok \<lparr>report_domain = domain, report_toml = toml, report_seps = detect toml info src\<rparr>, w2)
          | (Err e, w2) \<Rightarrow> (Err e, w2)
          | (Panic, w2) \<Rightarrow> (Panic, w2))
     | (Err e, w1) \<Rightarrow> (Err e, w1)
     | (Panic, w1) \<Rightarrow> (Panic, w1))"
  using assms
  by (simp add: discover_def bindS_def op_defs split: prod.splits outcome.splits)

lemma discover_invalid:
  "\<not> validate_domain_syntax (str_bytes domain) \<Longrightarrow> discover lib domain w = (Err (InvalidDomain_err domain), w)"
  by (simp add: discover_def op_defs)

lemma discover_unbuilt:
  "validate_domain_syntax (str_bytes domain) \<Longrightarrow> dl_build_error lib = Some e \<Longrightarrow>
     discover lib domain w = (Err (Unreachable domain e), w)"
  by (simp add: discover_def op_defs)

section \<open>Properties\<close>

text \<open>
  Discovery never panics and never reaches past what it checked. A domain the validator
  refuses is reported as such with no request made; an accepted one is made of letters, digits,
  hyphens and dots only, so that the first URL names that host and the path of \<open>stellar.toml\<close>; at
  most one more request follows, to the \<open>/info\<close> of the hosted transfer server if the fetched
  document names one, else of the plain transfer server.
\<close>

lemma discover_requests:
  assumes "discover lib domain w = (r, w')"
  shows "r \<noteq> Panic \<and>
    (if validate_domain_syntax (str_bytes domain) then
       list_all host_char domain \<and>
       (w' = w \<or> w' = w @ [stellar_toml_url domain] \<or>
        (\<exists>toml base. fst (stellar_toml_fetch lib domain w) = Ok toml \<and> queried_base toml = Some base \<and>
           w' = w @ [stellar_toml_url domain, info_url base]))
     else r = Err (InvalidDomain_err domain) \<and> w' = w)"
proof (cases "validate_domain_syntax (str_bytes domain)")
  case False
  then show ?thesis using assms by (auto simp: discover_invalid)
next
  case valid: True
  note chars = accepted_domain_chars [OF valid]
  show ?thesis
  proof (cases "dl_build_error lib")
    case (Some e)
    then show ?thesis using assms valid chars by (auto simp: discover_unbuilt)
  next
    case None
    obtain t w1 where t: "stellar_toml_fetch lib domain w = (t, w1)" by fastforce
    have w1: "w1 = w @ [stellar_toml_url domain]" "t \<noteq> Panic" using stellar_toml_fetch_cases [OF t] by auto
    show ?thesis
    proof (cases t)
      case (Ok toml)
      obtain i w2 where i: "fetch_info lib toml w1 = (i, w2)" by fastforce
      have "w' = w2" "r \<noteq> Panic"
        using assms fetch_info_cases [OF i] Ok i t discover_valid [OF valid None]
        by (auto split: outcome.splits)
      then show ?thesis using fetch_info_cases [OF i] valid chars t Ok w1 by (auto split: option.splits)
    qed (use assms t w1 valid chars discover_valid [OF valid None] in auto)
  qed
qed

definition demo_toml :: StellarToml where
  "demo_toml = \<lparr>version = None, network_passphrase = None, federation_server = None,
     web_auth_endpoint = Some ''https://a.b/auth'', signing_key = None,
     transfer_server = Some ''https://a.b/sep6/'', transfer_server_sep24 = None, kyc_server = None,
     direct_payment_server = None, anchor_quote_server = None\<rparr>"

definition demo_info :: InfoResponse where
  "demo_info = \<lparr>deposit = [(''USD'', \<lparr>enabled = True\<rparr>)], withdraw = []\<rparr>"

definition demo_discovery :: discovery_lib where
  "demo_discovery = \<lparr>dl_get = \<lambda>_ _. Got 200 (Inr []), dl_parse_toml = \<lambda>_. Inr demo_toml,
     dl_parse_info = \<lambda>_. Inr demo_info,
     dl_build_error = None\<rparr>"

lemma demo_domain_valid: "validate_domain_syntax (str_bytes ''a.b'')"
  by code_simp

lemma demo_toml_fetch:
  "stellar_toml_fetch demo_discovery domain w = (Ok demo_toml, w @ [stellar_toml_url domain])"
  by (simp add: stellar_toml_fetch_def send_get_def bindS_def op_defs demo_discovery_def is_success_def
      Let_def)

lemma demo_info_fetch: "info_fetch demo_discovery base w = (Ok demo_info, w @ [info_url base])"
  by (simp add: info_fetch_def send_get_def bindS_def op_defs demo_discovery_def is_success_def Let_def)

lemma demo_discover:
  "discover demo_discovery ''a.b'' [] =
     (Ok \<lparr>report_domain = ''a.b'', report_toml = demo_toml,
        report_seps = detect demo_toml (Some demo_info) Sep6\<rparr>,
      [stellar_toml_url ''a.b'', info_url ''https://a.b/sep6/''])"
proof -
  have "dl_build_error demo_discovery = None" by (simp add: demo_discovery_def)
  then show ?thesis
    unfolding discover_valid [OF demo_domain_valid \<open>dl_build_error demo_discovery = None\<close>] demo_toml_fetch
    by (simp add: fetch_info_def demo_toml_def demo_info_fetch bindS_def op_defs)
qed

text \<open>
  C40. A report lists the seven capabilities in order, and says of each what the two documents
  say: the transfer server that was asked counts as supported exactly when its \<open>/info\<close>, fetched
  in the same run, enables an asset for deposit or withdrawal; the other ones by their fields.
\<close>

theorem discover_report:
  assumes "discover lib domain w = (Ok report, w')"
  shows "\<exists>info.
    fst (stellar_toml_fetch lib domain w) = Ok (report_toml report) \<and>
    (case queried_base (report_toml report) of
       None \<Rightarrow> info = None
     | Some base \<Rightarrow> \<exists>i. info = Some i \<and> fst (info_fetch lib base (w @ [stellar_toml_url domain])) = Ok i) \<and>
    map (\<lambda>f. (sep f, supported f)) (report_seps report) =
      (let toml = report_toml report; live = (\<exists>i. info = Some i \<and> enabled_assets i \<noteq> {}) in
       [(''SEP-1'', True),
        (''SEP-10'', web_auth_endpoint toml \<noteq> None \<and> signing_key toml \<noteq> None),
        (''SEP-6'', transfer_server toml \<noteq> None \<and> (transfer_server_sep24 toml \<noteq> None \<or> live)),
        (''SEP-24'', transfer_server_sep24 toml \<noteq> None \<and> live),
        (''SEP-12'', kyc_server toml \<noteq> None),
        (''SEP-31'', direct_payment_server toml \<noteq> None),
        (''SEP-38'', anchor_quote_server toml \<noteq> None)])"
proof -
  have valid: "validate_domain_syntax (str_bytes domain)" and built: "dl_build_error lib = None"
    using assms by (auto simp: discover_def op_defs split: if_splits option.splits)
  obtain toml w1 info src where t: "stellar_toml_fetch lib domain w = (Ok toml, w1)"
    and i: "fetch_info lib toml w1 = (Ok (info, src), w')"
    and report: "report_toml report = toml" "report_seps report = detect toml info src"
    using assms discover_valid [OF valid built] by (auto split: prod.splits outcome.splits)
  have w1: "w1 = w @ [stellar_toml_url domain]" using stellar_toml_fetch_cases [OF t] by simp
  show ?thesis
    using i t unfolding report w1
    by (intro exI [of _ info])
      (auto simp: fetch_info_def queried_base_def bindS_def op_defs detect_def sep_transfer_supported_def
        enabled_asset_count_pos split: option.splits prod.splits outcome.splits)
qed

theorem discover_report_witness:
  "map (\<lambda>f. (sep f, supported f))
     (report_seps (case fst (discover demo_discovery ''a.b'' []) of Ok report \<Rightarrow> report)) =
   [(''SEP-1'', True), (''SEP-10'', False), (''SEP-6'', True), (''SEP-24'', False),
    (''SEP-12'', False), (''SEP-31'', False), (''SEP-38'', False)]"
proof -
  have "enabled_assets demo_info \<noteq> {}"
    by (simp add: enabled_assets_def demo_info_def)
  then show ?thesis
    using discover_report [OF demo_discover]
    by (auto simp: demo_discover demo_info_fetch queried_base_def demo_toml_def)
qed

end
