(* ===== verification/Playground.thy ===== *)
theory Playground
  imports Cli_Types
begin

text \<open>
  \<open>anchorkit playground\<close> (\<open>cli/src/args.rs\<close>, \<open>display.rs\<close>, \<open>rpc.rs\<close>, \<open>repl.rs\<close>): the values of a
  contract call, their parsing and printing, the JSON-RPC client and the read-eval-print loop. The
  strkey and XDR libraries, the JSON parser and the HTTP client are parameters; the state is the
  list of requests posted and the text printed. Strings are byte lists in UTF-8.
\<close>

section \<open>Values\<close>

text \<open>
  The variants of \<open>ScAddress\<close> and \<open>ScVal\<close> that the source names; the other ones carry the text
  their \<open>Debug\<close> implementation gives.
\<close>

datatype ScAddress = Account "u8 list" | ContractAddress "u8 list" | OtherAddress string

datatype ScVal =
    ScBool bool
  | ScVoid
  | ScU32 u32
  | ScI32 "32 word"
  | ScU64 u64
  | ScI64 "64 word"
  | ScBytes "u8 list"
  | ScString string
  | ScSymbol string
  | ScAddr ScAddress
  | ScVec "ScVal list option"
  | ScMap "(ScVal \<times> ScVal) list option"
  | ScOther string

record TransactionEnvelope =
  env_source :: "u8 list"
  env_fee :: u32
  env_seq_num :: "64 word"
  env_contract :: "u8 list"
  env_function :: string
  env_args :: "ScVal list"
  env_auth :: "u8 list list"
  env_signatures :: "u8 list list"

record SimulateResult =
  sim_error :: "string option"
  sim_results :: "string list option"

record JsonRpcResponse =
  rpc_result :: "SimulateResult option"
  rpc_error :: "string option"

record rpc_request =
  req_jsonrpc :: string
  req_id :: nat
  req_method :: string
  req_transaction :: string

record play_lib =
  pl_account_of :: "string \<Rightarrow> string + u8 list"
  pl_contract_of :: "string \<Rightarrow> string + u8 list"
  pl_show_account :: "u8 list \<Rightarrow> string"
  pl_show_contract :: "u8 list \<Rightarrow> string"
  pl_show_stringm :: "string \<Rightarrow> string"
  pl_symbol_of :: "string \<Rightarrow> string option"
  pl_to_xdr :: "TransactionEnvelope \<Rightarrow> string + string"
  pl_from_xdr :: "string \<Rightarrow> string + ScVal"
  pl_post :: "nat \<Rightarrow> string \<Rightarrow> rpc_request \<Rightarrow> get_reply"
  pl_parse_response :: "string \<Rightarrow> string + JsonRpcResponse"
  pl_status_text :: "u16 \<Rightarrow> string"
  pl_build_error :: "string option"

section \<open>Arguments\<close>

definition parse_address :: "play_lib \<Rightarrow> string \<Rightarrow> CliError + ScVal" where
  "parse_address lib raw =
     (case pl_account_of lib raw of
        Inr account \<Rightarrow> Inr (ScAddr (Account account))
      | Inl _ \<Rightarrow>
          (case pl_contract_of lib raw of
             Inr contract \<Rightarrow> Inr (ScAddr (ContractAddress contract))
           | Inl _ \<Rightarrow> Inl (InvalidArgument raw
               (''expected a '' @ [CHR 0x27] @ ''G...'' @ [CHR 0x27] @ '' account address or a '' @
                [CHR 0x27] @ ''C...'' @ [CHR 0x27] @ '' contract address''))))"

definition parse_symbol :: "play_lib \<Rightarrow> string \<Rightarrow> CliError + ScVal" where
  "parse_symbol lib raw =
     (case pl_symbol_of lib raw of
        Some symbol \<Rightarrow> Inr (ScSymbol symbol)
      | None \<Rightarrow> Inl (InvalidArgument raw
          ''not a valid symbol (must be ASCII, 32 characters or fewer)''))"

section \<open>Display\<close>

definition show_int :: "int \<Rightarrow> string" where
  "show_int i = (if i < 0 then ''-'' @ show_nat (nat (- i)) else show_nat (nat i))"

definition lower_hex_digit :: "nat \<Rightarrow> char" where
  "lower_hex_digit n = (if n < 10 then char_of (48 + n) else char_of (87 + n))"

definition hex_encode :: "u8 list \<Rightarrow> string" where
  "hex_encode bytes =
     concat (map (\<lambda>b. [lower_hex_digit (unat b div 16), lower_hex_digit (unat b mod 16)]) bytes)"

fun format_address :: "play_lib \<Rightarrow> ScAddress \<Rightarrow> string" where
  "format_address lib (Account bytes) = pl_show_account lib bytes"
| "format_address lib (ContractAddress bytes) = pl_show_contract lib bytes"
| "format_address lib (OtherAddress dbg) = dbg"

fun join_comma :: "string list \<Rightarrow> string" where
  "join_comma [] = []"
| "join_comma [s] = s"
| "join_comma (s # ss) = s @ '', '' @ join_comma ss"

fun format_scval :: "play_lib \<Rightarrow> ScVal \<Rightarrow> string" where
  "format_scval lib (ScBool b) = (if b then ''true'' else ''false'')"
| "format_scval lib ScVoid = ''()''"
| "format_scval lib (ScU32 n) = show_nat (unat n)"
| "format_scval lib (ScI32 n) = show_int (sint n)"
| "format_scval lib (ScU64 n) = show_nat (unat n)"
| "format_scval lib (ScI64 n) = show_int (sint n)"
| "format_scval lib (ScBytes bytes) = ''0x'' @ hex_encode bytes"
| "format_scval lib (ScString s) = pl_show_stringm lib s"
| "format_scval lib (ScSymbol s) = pl_show_stringm lib s"
| "format_scval lib (ScAddr addr) = format_address lib addr"
| "format_scval lib (ScVec (Some vs)) = ''['' @ join_comma (map (format_scval lib) vs) @ '']''"
| "format_scval lib (ScVec None) = ''[]''"
| "format_scval lib (ScMap (Some entries)) =
     ''{'' @ join_comma (map (\<lambda>e. format_scval lib (fst e) @ '': '' @ format_scval lib (snd e)) entries) @ ''}''"
| "format_scval lib (ScMap None) = ''{}''"
| "format_scval lib (ScOther dbg) = dbg"

section \<open>The RPC client\<close>

record RpcClient =
  rpc_url :: string
  rpc_contract_id :: "u8 list"
  rpc_source_account :: "u8 list"

record play_world =
  pw_posts :: "(string \<times> rpc_request) list"
  pw_out :: string

type_synonym 'a play_op = "(play_world, CliError, 'a) op"

definition RpcClient_new :: "play_lib \<Rightarrow> string \<Rightarrow> string \<Rightarrow> string \<Rightarrow> CliError + RpcClient" where
  "RpcClient_new lib url contract_id source_account =
     (case pl_contract_of lib contract_id of
        Inl e \<Rightarrow> Inl (InvalidArgument contract_id e)
      | Inr contract \<Rightarrow>
          (case pl_account_of lib source_account of
             Inl e \<Rightarrow> Inl (InvalidArgument source_account e)
           | Inr account \<Rightarrow>
               (case pl_build_error lib of
                  Some e \<Rightarrow> Inl (Rpc e)
                | None \<Rightarrow> Inr \<lparr>rpc_url = url, rpc_contract_id = contract, rpc_source_account = account\<rparr>)))"

text \<open>
  A vector converts to \<open>VecM\<close> if its length is at most the bound of the type, \<open>u32::MAX\<close> for the
  arguments; the operation list has one element and a bound of a hundred.
\<close>

definition build_envelope :: "play_lib \<Rightarrow> RpcClient \<Rightarrow> string \<Rightarrow> ScVal list \<Rightarrow> CliError + TransactionEnvelope" where
  "build_envelope lib client function_name args =
     (case pl_symbol_of lib function_name of
        None \<Rightarrow> Inl (InvalidArgument function_name
          ''not a valid contract method name (must be ASCII, 32 characters or fewer)'')
      | Some symbol \<Rightarrow>
          if 2 ^ 32 \<le> length args then Inl (InvalidArgument ''args'' ''too many arguments'')
          else Inr \<lparr>env_source = rpc_source_account client, env_fee = 100, env_seq_num = 0,
                    env_contract = rpc_contract_id client, env_function = symbol, env_args = args,
                    env_auth = [], env_signatures = []\<rparr>)"

definition liftE :: "'e + 'a \<Rightarrow> ('s, 'e, 'a) op" where
  [op_defs]: "liftE r = (case r of Inl e \<Rightarrow> failS e | Inr x \<Rightarrow> retS x)"

definition send_post :: "play_lib \<Rightarrow> string \<Rightarrow> rpc_request \<Rightarrow> get_reply play_op" where
  "send_post lib url body w =
     (Ok (pl_post lib (length (pw_posts w)) url body), w\<lparr>pw_posts := pw_posts w @ [(url, body)]\<rparr>)"

text \<open>What \<open>call\<close> makes of the response, from its status on.\<close>

definition read_response :: "play_lib \<Rightarrow> string \<Rightarrow> get_reply \<Rightarrow> CliError + ScVal" where
  "read_response lib url reply =
     (case reply of
        Get_failed e \<Rightarrow> Inl (Rpc (''could not reach '' @ url @ '': '' @ e))
      | Got status body \<Rightarrow>
          if \<not> is_success status then Inl (Rpc (url @ '' responded with HTTP '' @ pl_status_text lib status))
          else
            case (case body of Inl e \<Rightarrow> Inl e | Inr body_text \<Rightarrow> pl_parse_response lib body_text) of
              Inl e \<Rightarrow> Inl (Rpc (url @ '' sent a response that wasn'' @ [CHR 0x27] @ ''t valid JSON-RPC: '' @ e))
            | Inr response \<Rightarrow>
                (case rpc_error response of
                   Some message \<Rightarrow> Inl (Rpc message)
                 | None \<Rightarrow>
                     (case rpc_result response of
                        None \<Rightarrow> Inl (Rpc (url @ '' returned an empty response''))
                      | Some result \<Rightarrow>
                          (case sim_error result of
                             Some e \<Rightarrow> Inl (Simulation e)
                           | None \<Rightarrow>
                               (case sim_results result of
                                  Some (first # _) \<Rightarrow>
                                    (case pl_from_xdr lib first of
                                       Inl e \<Rightarrow> Inl (Xdr (''could not decode return value: '' @ e))
                                     | Inr v \<Rightarrow> Inr v)
                                | _ \<Rightarrow> Inl (Simulation ''simulation returned no result value''))))))"

definition rpc_call :: "play_lib \<Rightarrow> RpcClient \<Rightarrow> string \<Rightarrow> ScVal list \<Rightarrow> ScVal play_op" where
  "rpc_call lib client function_name args =
     bindS (liftE (build_envelope lib client function_name args)) (\<lambda>envelope.
     bindS (case pl_to_xdr lib envelope of
              Inl e \<Rightarrow> failS (Xdr (''could not encode transaction: '' @ e))
            | Inr tx_xdr \<Rightarrow> retS tx_xdr) (\<lambda>tx_xdr.
     bindS (send_post lib (rpc_url client)
              \<lparr>req_jsonrpc = ''2.0'', req_id = 1, req_method = ''simulateTransaction'',
               req_transaction = tx_xdr\<rparr>) (\<lambda>reply.
     liftE (read_response lib (rpc_url client) reply))))"

section \<open>The loop\<close>

text \<open>
  Unicode white space at the head of a UTF-8 string: the number of bytes of that character, 0 if
  there is none.
\<close>

fun ws_len :: "string \<Rightarrow> nat" where
  "ws_len [] = 0"
| "ws_len (c # cs) =
     (if char_code c = 32 \<or> 9 \<le> char_code c \<and> char_code c \<le> 13 then 1
      else
        (case map char_code (c # take 2 cs) of
           b1 # b2 # rest \<Rightarrow>
             if b1 = 0xC2 \<and> (b2 = 0x85 \<or> b2 = 0xA0) then 2
             else
               (case rest of
                  b3 # _ \<Rightarrow>
                    if b1 = 0xE1 \<and> b2 = 0x9A \<and> b3 = 0x80 \<or>
                       b1 = 0xE2 \<and> b2 = 0x80 \<and> (0x80 \<le> b3 \<and> b3 \<le> 0x8A \<or> b3 = 0xA8 \<or> b3 = 0xA9 \<or> b3 = 0xAF) \<or>
                       b1 = 0xE2 \<and> b2 = 0x81 \<and> b3 = 0x9F \<or>
                       b1 = 0xE3 \<and> b2 = 0x80 \<and> b3 = 0x80
                    then 3 else 0
                | [] \<Rightarrow> 0)
         | _ \<Rightarrow> 0))"

function split_whitespace_from :: "string \<Rightarrow> string \<Rightarrow> string list" where
  "split_whitespace_from cur s =
     (if s = [] then (if cur = [] then [] else [cur])
      else if ws_len s = 0 then split_whitespace_from (cur @ [hd s]) (tl s)
      else (if cur = [] then [] else [cur]) @ split_whitespace_from [] (drop (ws_len s) s))"
  by pat_completeness auto
termination by (relation "measure (\<lambda>(_, s). length s)") auto

definition split_whitespace :: "string \<Rightarrow> string list" where
  "split_whitespace s = split_whitespace_from [] s"

function trim_start :: "string \<Rightarrow> string" where
  "trim_start s = (if ws_len s = 0 then s else trim_start (drop (ws_len s) s))"
  by pat_completeness auto
termination by (relation "measure length") (auto, metis diff_less length_greater_0_conv neq0_conv ws_len.simps(1))

fun trim_end :: "string \<Rightarrow> string" where
  "trim_end [] = []"
| "trim_end (c # cs) = (if trim_start (c # cs) = [] then [] else c # trim_end cs)"

declare split_whitespace_from.simps [simp del] trim_start.simps [simp del]

definition usage_error :: "string \<Rightarrow> string list \<Rightarrow> string \<Rightarrow> CliError" where
  "usage_error command rest usage =
     Usage (''usage: '' @ command @ '' '' @ usage @ '' (got '' @ show_nat (length rest) @ '' argument(s))'')"

text \<open>\<open>require_args\<close> for the two array lengths it is used at.\<close>

definition require_args1 :: "string \<Rightarrow> string list \<Rightarrow> string \<Rightarrow> CliError + string" where
  "require_args1 command rest usage =
     (case rest of [a] \<Rightarrow> Inr a | _ \<Rightarrow> Inl (usage_error command rest usage))"

definition require_args2 :: "string \<Rightarrow> string list \<Rightarrow> string \<Rightarrow> CliError + string \<times> string" where
  "require_args2 command rest usage =
     (case rest of [a, b] \<Rightarrow> Inr (a, b) | _ \<Rightarrow> Inl (usage_error command rest usage))"

definition call_subject_type :: "play_lib \<Rightarrow> RpcClient \<Rightarrow> string \<Rightarrow> string list \<Rightarrow> ScVal play_op" where
  "call_subject_type lib client command rest =
     bindS (liftE (require_args2 command rest ''<subject> <attestation_type>'')) (\<lambda>(subject, attestation_type).
     bindS (liftE (parse_address lib subject)) (\<lambda>a.
     bindS (liftE (parse_symbol lib attestation_type)) (\<lambda>t.
     rpc_call lib client command [a, t])))"

definition dispatch :: "play_lib \<Rightarrow> RpcClient \<Rightarrow> string \<Rightarrow> ScVal play_op" where
  "dispatch lib client line =
     (let (command, rest) = (case split_whitespace line of [] \<Rightarrow> ([], []) | c # cs \<Rightarrow> (c, cs)) in
      if command = ''get_attestation'' then call_subject_type lib client command rest
      else if command = ''is_valid'' then call_subject_type lib client command rest
      else if command = ''is_attestor'' then
        bindS (liftE (require_args1 command rest ''<attestor>'')) (\<lambda>attestor.
        bindS (liftE (parse_address lib attestor)) (\<lambda>a. rpc_call lib client command [a]))
      else if command = ''get_attestation_count'' then
        (if rest \<noteq> [] then
           failS (Usage (''get_attestation_count takes no arguments (got '' @ show_nat (length rest) @ '')''))
         else rpc_call lib client command [])
      else failS (Usage (''unknown command '' @ [CHR 0x27] @ command @ [CHR 0x27] @ '' -- type '' @
             [CHR 0x27] @ ''help'' @ [CHR 0x27] @ '' for the command list'')))"

definition HELP :: string where
  "HELP =
     ''Commands:'' @ [CHR 0x0A] @
     ''  get_attestation <subject:G...> <attestation_type:symbol>   fetch a stored attestation'' @ [CHR 0x0A] @
     ''  is_valid <subject:G...> <attestation_type:symbol>          true iff active and unexpired'' @ [CHR 0x0A] @
     ''  is_attestor <attestor:G...>                                allow-list membership check'' @ [CHR 0x0A] @
     ''  get_attestation_count                                      running count of attestations'' @ [CHR 0x0A] @
     ''  help                                                       show this message'' @ [CHR 0x0A] @
     ''  exit | quit                                                leave the playground''"

definition play_print :: "string \<Rightarrow> play_world \<Rightarrow> play_world" where
  "play_print s w = w\<lparr>pw_out := pw_out w @ s\<rparr>"

text \<open>
  The loop on what standard input gives: \<open>None\<close> is a read error, the end of the list the end of the
  input. \<open>flushed\<close> says for the n-th prompt whether flushing the output succeeds.
\<close>

fun repl_loop :: "play_lib \<Rightarrow> RpcClient \<Rightarrow> (nat \<Rightarrow> bool) \<Rightarrow> nat \<Rightarrow> string option list \<Rightarrow> play_world \<Rightarrow> play_world" where
  "repl_loop lib client flushed n input w =
     (let w = play_print ''anchorkit> '' w in
      if \<not> flushed n then w
      else
        case input of
          [] \<Rightarrow> play_print [CHR 0x0A] w
        | None # _ \<Rightarrow> play_print [CHR 0x0A] w
        | Some raw # input' \<Rightarrow>
            let line = trim_end (trim_start raw) in
            if line = [] then repl_loop lib client flushed (Suc n) input' w
            else if line = ''exit'' \<or> line = ''quit'' then w
            else if line = ''help'' then
              repl_loop lib client flushed (Suc n) input' (play_print (HELP @ [CHR 0x0A]) w)
            else
              (case dispatch lib client line w of
                 (Ok v, w) \<Rightarrow>
                   repl_loop lib client flushed (Suc n) input' (play_print (format_scval lib v @ [CHR 0x0A]) w)
               | (Err e, w) \<Rightarrow>
                   repl_loop lib client flushed (Suc n) input'
                     (play_print (''Error: '' @ cli_error_to_string e @ [CHR 0x0A]) w)
               | (Panic, w) \<Rightarrow> w))"

declare repl_loop.simps [simp del]

definition repl_run :: "play_lib \<Rightarrow> RpcClient \<Rightarrow> (nat \<Rightarrow> bool) \<Rightarrow> string option list \<Rightarrow> play_world \<Rightarrow> play_world" where
  "repl_run lib client flushed input w =
     repl_loop lib client flushed 0 input
       (play_print (''anchorkit playground -- read-only contract calls. Type '' @ [CHR 0x27] @ ''help'' @
          [CHR 0x27] @ '' for commands, '' @ [CHR 0x27] @ ''exit'' @ [CHR 0x27] @ '' to quit.'' @ [CHR 0x0A]) w)"

section \<open>What is sent\<close>

text \<open>
  The envelope of a read-only call: unsigned, without authorisations, for the client's contract and
  source account, with one of the four methods and arguments of the types it takes.
\<close>

fun is_address :: "ScVal \<Rightarrow> bool" where
  "is_address (ScAddr _) = True"
| "is_address _ = False"

fun is_symbol :: "ScVal \<Rightarrow> bool" where
  "is_symbol (ScSymbol _) = True"
| "is_symbol _ = False"

definition read_only_call :: "string \<Rightarrow> ScVal list \<Rightarrow> bool" where
  "read_only_call f args \<longleftrightarrow>
     (f = ''get_attestation'' \<or> f = ''is_valid'') \<and> (\<exists>a t. args = [a, t] \<and> is_address a \<and> is_symbol t) \<or>
     f = ''is_attestor'' \<and> (\<exists>a. args = [a] \<and> is_address a) \<or>
     f = ''get_attestation_count'' \<and> args = []"

definition read_only_post :: "play_lib \<Rightarrow> RpcClient \<Rightarrow> string \<times> rpc_request \<Rightarrow> bool" where
  "read_only_post lib client post \<longleftrightarrow>
     (case post of (url, body) \<Rightarrow>
        url = rpc_url client \<and> req_method body = ''simulateTransaction'' \<and>
        (\<exists>f args symbol envelope. read_only_call f args \<and> pl_symbol_of lib f = Some symbol \<and>
           envelope = \<lparr>env_source = rpc_source_account client, env_fee = 100, env_seq_num = 0,
             env_contract = rpc_contract_id client, env_function = symbol, env_args = args,
             env_auth = [], env_signatures = []\<rparr> \<and>
           pl_to_xdr lib envelope = Inr (req_transaction body)))"

lemma rpc_call_effect:
  assumes "rpc_call lib client f args w = (r, w')" and "read_only_call f args"
  shows "r \<noteq> Panic \<and> pw_out w' = pw_out w \<and>
    (w' = w \<or> (\<exists>p. read_only_post lib client p \<and> pw_posts w' = pw_posts w @ [p]))"
proof (cases "build_envelope lib client f args")
  case (Inl e)
  then show ?thesis using assms(1) by (auto simp: rpc_call_def bindS_def op_defs)
next
  case (Inr envelope)
  show ?thesis
  proof (cases "pl_to_xdr lib envelope")
    case (Inl e)
    then show ?thesis using assms(1) Inr by (auto simp: rpc_call_def bindS_def op_defs)
  next
    case xdr: (Inr tx_xdr)
    let ?p = "(rpc_url client, \<lparr>req_jsonrpc = ''2.0'', req_id = 1, req_method = ''simulateTransaction'',
      req_transaction = tx_xdr\<rparr>)"
    have "read_only_post lib client ?p"
      using Inr xdr assms(2) by (auto simp: read_only_post_def build_envelope_def split: option.splits if_splits)
    moreover have "w' = w\<lparr>pw_posts := pw_posts w @ [?p]\<rparr>" "r \<noteq> Panic"
      using assms(1) Inr xdr
      by (auto simp: rpc_call_def bindS_def op_defs send_post_def split: sum.splits)
    ultimately show ?thesis by auto
  qed
qed

lemma parse_address_type: "parse_address lib raw = Inr v \<Longrightarrow> is_address v"
  by (auto simp: parse_address_def split: sum.splits)

lemma parse_symbol_type: "parse_symbol lib raw = Inr v \<Longrightarrow> is_symbol v"
  by (auto simp: parse_symbol_def split: option.splits)

lemma read_only_callI:
  "f = ''get_attestation'' \<or> f = ''is_valid'' \<Longrightarrow> is_address a \<Longrightarrow> is_symbol t \<Longrightarrow> read_only_call f [a, t]"
  "is_address a \<Longrightarrow> read_only_call ''is_attestor'' [a]"
  "read_only_call ''get_attestation_count'' []"
  by (auto simp: read_only_call_def)

text \<open>What a line amounts to: one read-only call, or a refusal that sends nothing.\<close>

definition one_call_or_none :: "play_lib \<Rightarrow> RpcClient \<Rightarrow> ScVal play_op \<Rightarrow> bool" where
  "one_call_or_none lib client m \<longleftrightarrow>
     (\<exists>f args. read_only_call f args \<and> m = rpc_call lib client f args) \<or> (\<exists>e. m = failS e)"

lemma one_call_or_none_intros:
  "read_only_call f args \<Longrightarrow> one_call_or_none lib client (rpc_call lib client f args)"
  "one_call_or_none lib client (failS e)"
  by (auto simp: one_call_or_none_def)

lemma one_call_or_none_lift:
  "(\<And>x. r = Inr x \<Longrightarrow> one_call_or_none lib client (g x)) \<Longrightarrow> one_call_or_none lib client (bindS (liftE r) g)"
  by (cases r) (simp_all add: liftE_def one_call_or_none_intros)

lemma one_call_or_none_pair:
  "f = ''get_attestation'' \<or> f = ''is_valid'' \<Longrightarrow>
     one_call_or_none lib client (call_subject_type lib client f rest)"
  unfolding call_subject_type_def
  by (intro one_call_or_none_lift)
    (auto intro!: one_call_or_none_lift one_call_or_none_intros read_only_callI
      dest: parse_address_type parse_symbol_type split: prod.splits)

lemma one_call_or_none_dispatch: "one_call_or_none lib client (dispatch lib client line)"
proof -
  obtain command rest where
    "(case split_whitespace line of [] \<Rightarrow> ([], []) | c # cs \<Rightarrow> (c, cs)) = (command, rest)" by fastforce
  then show ?thesis
    unfolding dispatch_def
    by (auto simp: Let_def intro!: one_call_or_none_pair one_call_or_none_lift one_call_or_none_intros
        read_only_callI dest: parse_address_type)
qed

lemma dispatch_effect:
  assumes "dispatch lib client line w = (r, w')"
  shows "r \<noteq> Panic \<and> pw_out w' = pw_out w \<and>
    (w' = w \<or> (\<exists>p. read_only_post lib client p \<and> pw_posts w' = pw_posts w @ [p]))"
  using one_call_or_none_dispatch [of lib client line] assms rpc_call_effect
  by (fastforce simp: one_call_or_none_def failS_def)

lemma play_print_simps [simp]:
  "pw_posts (play_print s w) = pw_posts w" "pw_out (play_print s w) = pw_out w @ s"
  by (simp_all add: play_print_def)

lemma repl_loop_posts:
  "\<exists>sent. pw_posts (repl_loop lib client flushed n input w) = pw_posts w @ sent \<and>
     list_all (read_only_post lib client) sent \<and> length sent \<le> length input"
proof (induction input arbitrary: n w)
  case Nil
  then show ?case by (subst repl_loop.simps) (simp add: Let_def)
next
  case (Cons x input)
  have further: "\<exists>sent. pw_posts (repl_loop lib client flushed n' input w') = pw_posts w @ sent \<and>
      list_all (read_only_post lib client) sent \<and> length sent \<le> Suc (length input)"
    if "pw_posts w' = pw_posts w \<or> (\<exists>p. read_only_post lib client p \<and> pw_posts w' = pw_posts w @ [p])" for n' w'
    using that Cons.IH [of n' w'] by fastforce
  show ?case
  proof (cases "dispatch lib client (trim_end (trim_start (the x))) (play_print ''anchorkit> '' w)")
    case (Pair r w')
    from dispatch_effect [OF this]
    have "pw_posts w' = pw_posts w \<or> (\<exists>p. read_only_post lib client p \<and> pw_posts w' = pw_posts w @ [p])"
      "r \<noteq> Panic" by auto
    with Pair show ?thesis
      by (subst repl_loop.simps) (auto simp: Let_def intro!: further split: option.splits outcome.splits)
  qed
qed

section \<open>Properties\<close>

text \<open>
  C39. Whatever is typed and whatever the endpoint answers, a playground session posts only
  simulations, at most one per line: unsigned envelopes without authorisations, for the
  contract and source account the session was started with, calling one of the four read-only
  methods with arguments of the types it takes.
\<close>

theorem playground_read_only:
  assumes "RpcClient_new lib url contract source = Inr client"
  shows "\<exists>sent. pw_posts (repl_run lib client flushed input w) = pw_posts w @ sent \<and>
    length sent \<le> length input \<and> list_all (read_only_post lib client) sent \<and>
    rpc_url client = url \<and> pl_contract_of lib contract = Inr (rpc_contract_id client) \<and>
    pl_account_of lib source = Inr (rpc_source_account client)"
proof -
  have "rpc_url client = url" "pl_contract_of lib contract = Inr (rpc_contract_id client)"
    "pl_account_of lib source = Inr (rpc_source_account client)"
    using assms by (auto simp: RpcClient_new_def split: sum.splits option.splits)
  then show ?thesis
    using repl_loop_posts [of lib client flushed 0 input "play_print _ w"] unfolding repl_run_def by auto
qed

definition demo_play :: play_lib where
  "demo_play = \<lparr>
     pl_account_of = \<lambda>s. if take 1 s = ''G'' then Inr [1] else Inl ''invalid strkey'',
     pl_contract_of = \<lambda>s. if take 1 s = ''C'' then Inr [2] else Inl ''invalid strkey'',
     pl_show_account = \<lambda>_. ''GA'', pl_show_contract = \<lambda>_. ''CA'', pl_show_stringm = id,
     pl_symbol_of = \<lambda>s. if length s \<le> 32 then Some s else None,
     pl_to_xdr = \<lambda>e. Inr (env_function e), pl_from_xdr = \<lambda>_. Inr (ScBool True),
     pl_post = \<lambda>_ _ _. Got 200 (Inr []),
     pl_parse_response = \<lambda>_. Inr \<lparr>rpc_result = Some \<lparr>sim_error = None, sim_results = Some [[]]\<rparr>,
       rpc_error = None\<rparr>,
     pl_status_text = \<lambda>_. [], pl_build_error = None\<rparr>"

definition demo_client :: RpcClient where
  "demo_client = \<lparr>rpc_url = ''u'', rpc_contract_id = [2], rpc_source_account = [1]\<rparr>"

definition demo_play_world :: play_world where
  "demo_play_world = \<lparr>pw_posts = [], pw_out = []\<rparr>"

lemma demo_line: "trim_end (trim_start '' is_attestor GA'') = ''is_attestor GA''"
  by (simp add: trim_start.simps char_code_def)

lemma demo_words: "split_whitespace ''is_attestor GA'' = [''is_attestor'', ''GA'']"
  by (simp add: split_whitespace_def split_whitespace_from.simps char_code_def)

lemma demo_exit: "trim_end (trim_start ''exit'') = ''exit''"
  by (simp add: trim_start.simps char_code_def)

lemma demo_dispatch:
  "dispatch demo_play demo_client ''is_attestor GA'' w =
     (Ok (ScBool True), w\<lparr>pw_posts := pw_posts w @
        [(''u'', \<lparr>req_jsonrpc = ''2.0'', req_id = 1, req_method = ''simulateTransaction'',
           req_transaction = ''is_attestor''\<rparr>)]\<rparr>)"
  by (simp add: dispatch_def demo_words Let_def require_args1_def bindS_def op_defs parse_address_def
      rpc_call_def build_envelope_def send_post_def read_response_def demo_play_def demo_client_def
      is_success_def)

lemma demo_session:
  "pw_posts (repl_run demo_play demo_client (\<lambda>_. True) [Some '' is_attestor GA'', Some ''exit'']
     demo_play_world) =
     [(''u'', \<lparr>req_jsonrpc = ''2.0'', req_id = 1, req_method = ''simulateTransaction'',
        req_transaction = ''is_attestor''\<rparr>)]"
  by (simp add: repl_run_def repl_loop.simps demo_line demo_dispatch demo_exit demo_play_world_def Let_def)

theorem playground_read_only_witness:
  "length (pw_posts (repl_run demo_play demo_client (\<lambda>_. True)
     [Some '' is_attestor GA'', Some ''exit''] demo_play_world)) = 1 \<and>
   list_all (read_only_post demo_play demo_client)
     (pw_posts (repl_run demo_play demo_client (\<lambda>_. True)
        [Some '' is_attestor GA'', Some ''exit''] demo_play_world))"
proof -
  have "RpcClient_new demo_play ''u'' ''CA'' ''GA'' = Inr demo_client" by code_simp
  moreover have "pw_posts demo_play_world = []" by (simp add: demo_play_world_def)
  ultimately show ?thesis
    using playground_read_only [of demo_play "''u''" "''CA''" "''GA''" demo_client "\<lambda>_. True"
        "[Some '' is_attestor GA'', Some ''exit'']" demo_play_world]
    unfolding demo_session by auto
qed

end
