(* ===== verification/Cli_Unit_Tests.thy ===== *)
theory Cli_Unit_Tests
  imports Watch Discovery Playground
begin

text \<open>
  The unit tests beside the code of the command-line tool (\<open>watch.rs\<close>, \<open>discovery/info.rs\<close>,
  \<open>discovery/seps.rs\<close>, \<open>discovery/stellar_toml.rs\<close>, \<open>args.rs\<close>, \<open>display.rs\<close> of \<open>cli/src/\<close>), each as a definition that says whether its
  assertions hold. A JSON document written out in a test is given as the structure it parses to. The
  tests of \<open>stellar.toml\<close> take the TOML parser, a library, as a parameter.
\<close>

section \<open>Transaction watcher\<close>

definition terminal_statuses_are_recognised :: bool where
  "terminal_statuses_are_recognised \<longleftrightarrow> list_all is_terminal TERMINAL_STATUSES"

definition non_terminal_statuses_are_not_terminal :: bool where
  "non_terminal_statuses_are_not_terminal \<longleftrightarrow>
     list_all (\<lambda>s. \<not> is_terminal s)
       [''pending_external'', ''pending_anchor'', ''pending_stellar'', ''pending_trust'', ''pending_user'',
        ''pending_user_transfer_start'']"

definition backoff_is_capped_at_maximum :: bool where
  "backoff_is_capped_at_maximum \<longleftrightarrow>
     list_all (\<lambda>attempt. backoff_ms (word_of_nat attempt) \<le> MAX_BACKOFF_MS) [0..<50]"

definition backoff_grows_up_to_cap :: bool where
  "backoff_grows_up_to_cap \<longleftrightarrow>
     backoff_ms 0 < backoff_ms 1 \<and> backoff_ms 1 < backoff_ms 2 \<and> backoff_ms 20 = backoff_ms 30"

definition urlencoding_simple_leaves_safe_chars_unchanged :: bool where
  "urlencoding_simple_leaves_safe_chars_unchanged \<longleftrightarrow>
     urlencoding_simple ''abc-123_tx.~'' = ''abc-123_tx.~''"

definition urlencoding_simple_encodes_spaces_and_specials :: bool where
  "urlencoding_simple_encodes_spaces_and_specials \<longleftrightarrow> urlencoding_simple ''a b+c'' = ''a%20b%2Bc''"

lemma backoff_le_cap: "backoff_ms attempt \<le> MAX_BACKOFF_MS"
  by (simp add: backoff_ms_def)

lemma watch_tests_pass:
  terminal_statuses_are_recognised
  non_terminal_statuses_are_not_terminal
  urlencoding_simple_leaves_safe_chars_unchanged
  urlencoding_simple_encodes_spaces_and_specials
  by code_simp+

lemma backoff_tests_pass:
  backoff_is_capped_at_maximum
  backoff_grows_up_to_cap
proof -
  show backoff_is_capped_at_maximum by (simp add: backoff_is_capped_at_maximum_def backoff_le_cap list_all_iff)
  show backoff_grows_up_to_cap
    by (simp add: backoff_grows_up_to_cap_def word_less_nat_alt word_unat_eq_iff unat_backoff_ms)
qed

section \<open>Anchor discovery\<close>

text \<open>Indexing a map by a missing key panics, so the test fails then.\<close>

definition asset_flag :: "string \<Rightarrow> (string \<times> AssetOperation) list \<Rightarrow> bool option" where
  "asset_flag code ops = map_option enabled (map_of ops code)"

definition parses_deposit_and_withdraw_enabled_flags :: bool where
  "parses_deposit_and_withdraw_enabled_flags \<longleftrightarrow>
     (let info = \<lparr>deposit = [(''USD'', \<lparr>enabled = True\<rparr>), (''EUR'', \<lparr>enabled = False\<rparr>)],
                  withdraw = [(''USD'', \<lparr>enabled = True\<rparr>)]\<rparr>
      in asset_flag ''USD'' (deposit info) = Some True \<and> asset_flag ''EUR'' (deposit info) = Some False \<and>
         asset_flag ''USD'' (withdraw info) = Some True)"

lemma flags_test_passes: parses_deposit_and_withdraw_enabled_flags
  by (simp add: parses_deposit_and_withdraw_enabled_flags_def asset_flag_def)

definition counts_distinct_enabled_assets_across_deposit_and_withdraw :: bool where
  "counts_distinct_enabled_assets_across_deposit_and_withdraw \<longleftrightarrow>
     (let info = \<lparr>deposit = [(''USD'', \<lparr>enabled = True\<rparr>), (''EUR'', \<lparr>enabled = False\<rparr>)],
                  withdraw = [(''USD'', \<lparr>enabled = True\<rparr>), (''GBP'', \<lparr>enabled = True\<rparr>)]\<rparr>
      in enabled_asset_count info = 2)"

definition missing_sections_default_to_empty :: bool where
  "missing_sections_default_to_empty \<longleftrightarrow> enabled_asset_count \<lparr>deposit = [], withdraw = []\<rparr> = 0"

definition empty_toml :: StellarToml where
  "empty_toml = \<lparr>version = None, network_passphrase = None, federation_server = None,
     web_auth_endpoint = None, signing_key = None, transfer_server = None, transfer_server_sep24 = None,
     kyc_server = None, direct_payment_server = None, anchor_quote_server = None\<rparr>"

text \<open>\<open>find(...).unwrap()\<close> of a finding by its name, and a property of it.\<close>

definition finding_holds :: "string \<Rightarrow> (SepFinding \<Rightarrow> bool) \<Rightarrow> SepFinding list \<Rightarrow> bool" where
  "finding_holds name P findings =
     (case find (\<lambda>f. sep f = name) findings of None \<Rightarrow> False | Some f \<Rightarrow> P f)"

definition has_part :: "string \<Rightarrow> string \<Rightarrow> bool" where
  "has_part part s = list_ex (\<lambda>i. take (length part) (drop i s) = part) [0..<Suc (length s)]"

definition one_asset :: "bool \<Rightarrow> InfoResponse" where
  "one_asset on = \<lparr>deposit = [(''USD'', \<lparr>enabled = on\<rparr>)], withdraw = []\<rparr>"

definition sep1_always_reported_supported :: bool where
  "sep1_always_reported_supported \<longleftrightarrow>
     finding_holds ''SEP-1'' supported (detect empty_toml None NoInfo)"

definition sep10_requires_both_endpoint_and_signing_key :: bool where
  "sep10_requires_both_endpoint_and_signing_key \<longleftrightarrow>
     (let toml = empty_toml\<lparr>web_auth_endpoint := Some ''https://auth.example.com''\<rparr>;
          toml' = toml\<lparr>signing_key := Some ''GABC...''\<rparr>
      in finding_holds ''SEP-10'' (\<lambda>f. \<not> supported f) (detect toml None NoInfo) \<and>
         finding_holds ''SEP-10'' supported (detect toml' None NoInfo))"

definition sep6_and_sep24_are_detected_independently :: bool where
  "sep6_and_sep24_are_detected_independently \<longleftrightarrow>
     (let toml = empty_toml\<lparr>transfer_server := Some ''https://transfer.example.com''\<rparr>;
          findings = detect toml None NoInfo
      in finding_holds ''SEP-6'' supported findings \<and>
         finding_holds ''SEP-24'' (\<lambda>f. \<not> supported f) findings)"

definition both_servers :: StellarToml where
  "both_servers = empty_toml\<lparr>transfer_server := Some ''https://transfer.example.com'',
     transfer_server_sep24 := Some ''https://sep24.example.com''\<rparr>"

definition asset_count_only_attached_to_the_endpoint_actually_queried :: bool where
  "asset_count_only_attached_to_the_endpoint_actually_queried \<longleftrightarrow>
     (let findings = detect both_servers (Some (one_asset True)) Sep24 in
      finding_holds ''SEP-6'' (\<lambda>f. detail f = Some ''https://transfer.example.com'') findings \<and>
      finding_holds ''SEP-24''
        (\<lambda>f. case detail f of None \<Rightarrow> False | Some d \<Rightarrow> has_part ''1 asset enabled'' d) findings)"

definition sep6_unsupported_when_queried_info_shows_no_enabled_operations :: bool where
  "sep6_unsupported_when_queried_info_shows_no_enabled_operations \<longleftrightarrow>
     (let toml = empty_toml\<lparr>transfer_server := Some ''https://transfer.example.com''\<rparr> in
      finding_holds ''SEP-6'' (\<lambda>f. \<not> supported f) (detect toml (Some (one_asset False)) Sep6))"

definition sep24_unsupported_when_queried_info_shows_no_enabled_operations :: bool where
  "sep24_unsupported_when_queried_info_shows_no_enabled_operations \<longleftrightarrow>
     (let toml = empty_toml\<lparr>transfer_server_sep24 := Some ''https://sep24.example.com''\<rparr>;
          info = \<lparr>deposit = [], withdraw = [(''EUR'', \<lparr>enabled = False\<rparr>)]\<rparr>
      in finding_holds ''SEP-24'' (\<lambda>f. \<not> supported f) (detect toml (Some info) Sep24))"

definition sep_transfer_support_falls_back_to_field_presence :: bool where
  "sep_transfer_support_falls_back_to_field_presence \<longleftrightarrow>
     (let findings = detect both_servers (Some (one_asset False)) Sep24 in
      finding_holds ''SEP-6'' supported findings \<and>
      finding_holds ''SEP-24'' (\<lambda>f. \<not> supported f) findings)"

definition sep6_supported_when_queried_info_shows_an_enabled_operation :: bool where
  "sep6_supported_when_queried_info_shows_an_enabled_operation \<longleftrightarrow>
     (let toml = empty_toml\<lparr>transfer_server := Some ''https://transfer.example.com''\<rparr> in
      finding_holds ''SEP-6'' supported (detect toml (Some (one_asset True)) Sep6))"

definition unsupported_seps_have_no_detail :: bool where
  "unsupported_seps_have_no_detail \<longleftrightarrow>
     list_all (\<lambda>f. if sep f \<noteq> ''SEP-1'' then \<not> supported f \<and> detail f = None else True)
       (detect empty_toml None NoInfo)"

lemma count_tests_pass:
  counts_distinct_enabled_assets_across_deposit_and_withdraw
  missing_sections_default_to_empty
proof -
  have "enabled_assets \<lparr>deposit = [(''USD'', \<lparr>enabled = True\<rparr>), (''EUR'', \<lparr>enabled = False\<rparr>)],
      withdraw = [(''USD'', \<lparr>enabled = True\<rparr>), (''GBP'', \<lparr>enabled = True\<rparr>)]\<rparr> = {''USD'', ''GBP''}"
    by (auto simp: enabled_assets_def)
  then show counts_distinct_enabled_assets_across_deposit_and_withdraw
    by (simp add: counts_distinct_enabled_assets_across_deposit_and_withdraw_def enabled_asset_count_card)
  show missing_sections_default_to_empty
    by (simp add: missing_sections_default_to_empty_def enabled_asset_count_def)
qed

lemma one_asset_count: "enabled_asset_count (one_asset on) = (if on then 1 else 0)"
  by (simp add: one_asset_def enabled_asset_count_def)

lemmas detect_defs = detect_def empty_toml_def both_servers_def finding_holds_def sep_transfer_supported_def
  asset_detail_def one_asset_count

lemma detection_tests_pass:
  sep1_always_reported_supported
  sep10_requires_both_endpoint_and_signing_key
  sep6_and_sep24_are_detected_independently
  sep6_unsupported_when_queried_info_shows_no_enabled_operations
  sep24_unsupported_when_queried_info_shows_no_enabled_operations
  sep_transfer_support_falls_back_to_field_presence
  sep6_supported_when_queried_info_shows_an_enabled_operation
  unsupported_seps_have_no_detail
  by (simp_all add: sep1_always_reported_supported_def sep10_requires_both_endpoint_and_signing_key_def
      sep6_and_sep24_are_detected_independently_def
      sep6_unsupported_when_queried_info_shows_no_enabled_operations_def
      sep24_unsupported_when_queried_info_shows_no_enabled_operations_def
      sep_transfer_support_falls_back_to_field_presence_def
      sep6_supported_when_queried_info_shows_an_enabled_operation_def unsupported_seps_have_no_detail_def
      detect_defs enabled_asset_count_def one_asset_def Let_def)

lemma queried_detail:
  "has_part ''1 asset enabled'' (''https://sep24.example.com ('' @ show_nat 1 @ '' asset'' @ [] @ '' enabled)'')"
  by code_simp

lemma asset_count_test_passes: asset_count_only_attached_to_the_endpoint_actually_queried
  using queried_detail
  by (simp add: asset_count_only_attached_to_the_endpoint_actually_queried_def detect_defs Let_def)

section \<open>Line endings of stellar.toml\<close>

text \<open>A line \<open>KEY="text"\<close> with its line feed.\<close>

definition toml_line :: "string \<Rightarrow> string \<Rightarrow> string" where
  "toml_line key v = key @ [CHR ''='', CHR 34] @ v @ [CHR 34, CHR 10]"

definition TOML_BODY_LF :: string where
  "TOML_BODY_LF =
     toml_line ''VERSION'' ''2.7.0'' @
     toml_line ''NETWORK_PASSPHRASE'' ''Test SDF Network ; September 2015'' @
     toml_line ''FEDERATION_SERVER'' ''https://example.com/federation'' @
     toml_line ''WEB_AUTH_ENDPOINT'' ''https://example.com/auth'' @
     toml_line ''SIGNING_KEY'' ''GABCDEXAMPLEKEY'' @
     toml_line ''TRANSFER_SERVER'' ''https://example.com/sep6'' @
     toml_line ''TRANSFER_SERVER_SEP0024'' ''https://example.com/sep24'' @
     toml_line ''KYC_SERVER'' ''https://example.com/kyc'' @
     toml_line ''DIRECT_PAYMENT_SERVER'' ''https://example.com/sep31'' @
     toml_line ''ANCHOR_QUOTE_SERVER'' ''https://example.com/sep38''"

definition to_crlf :: "string \<Rightarrow> string" where
  "to_crlf lf = concat (map (\<lambda>c. if c = CHR 10 then [CHR 13, CHR 10] else [c]) lf)"

definition parses_lf_line_endings :: "(string \<Rightarrow> string + StellarToml) \<Rightarrow> bool" where
  "parses_lf_line_endings parse \<longleftrightarrow>
     (case parse TOML_BODY_LF of
        Inl _ \<Rightarrow> False
      | Inr toml \<Rightarrow>
          version toml = Some ''2.7.0'' \<and>
          transfer_server_sep24 toml = Some ''https://example.com/sep24'' \<and>
          anchor_quote_server toml = Some ''https://example.com/sep38'')"

definition parses_crlf_line_endings_identically_to_lf :: "(string \<Rightarrow> string + StellarToml) \<Rightarrow> bool" where
  "parses_crlf_line_endings_identically_to_lf parse \<longleftrightarrow>
     (let crlf_body = to_crlf TOML_BODY_LF in
      has_part [CHR 13, CHR 10] crlf_body \<and>
      (case (parse TOML_BODY_LF, parse crlf_body) of
         (Inr from_lf, Inr from_crlf) \<Rightarrow> from_lf = from_crlf
       | _ \<Rightarrow> False))"

definition crlf_body_preserves_field_values_without_stray_carriage_returns ::
  "(string \<Rightarrow> string + StellarToml) \<Rightarrow> bool" where
  "crlf_body_preserves_field_values_without_stray_carriage_returns parse \<longleftrightarrow>
     (case parse (to_crlf TOML_BODY_LF) of
        Inl _ \<Rightarrow> False
      | Inr toml \<Rightarrow>
          list_all (\<lambda>field. case field of None \<Rightarrow> True | Some v \<Rightarrow> CHR 13 \<notin> set v)
            [version toml, network_passphrase toml, federation_server toml, web_auth_endpoint toml,
             signing_key toml, transfer_server toml, transfer_server_sep24 toml, kyc_server toml,
             direct_payment_server toml, anchor_quote_server toml])"

text \<open>
  Changing the line endings only adds carriage returns, one before each line feed. A parser that
  reads both line endings alike, as TOML requires, passes the second test when it parses the body,
  and the third when no field of the body as parsed has a carriage return.
\<close>

lemma filter_to_crlf: "CHR 13 \<notin> set s \<Longrightarrow> filter (\<lambda>c. c \<noteq> CHR 13) (to_crlf s) = s"
  by (induction s) (auto simp: to_crlf_def)

lemma body_has_crlf: "has_part [CHR 13, CHR 10] (to_crlf TOML_BODY_LF)"
proof -
  have part: "has_part p (xs @ p @ ys)" for p xs ys
    unfolding has_part_def list_ex_iff by (rule bexI [of _ "length xs"]) simp_all
  obtain ys where "TOML_BODY_LF = (''VERSION='' @ [CHR 34] @ ''2.7.0'' @ [CHR 34]) @ CHR 10 # ys"
    by (simp add: TOML_BODY_LF_def toml_line_def)
  moreover have "to_crlf (xs @ CHR 10 # ys) = to_crlf xs @ [CHR 13, CHR 10] @ to_crlf ys" for xs ys
    by (simp add: to_crlf_def)
  ultimately show ?thesis using part by metis
qed

lemma toml_line_ending_tests:
  assumes "\<And>s. parse (to_crlf s) = parse s"
  shows "parses_crlf_line_endings_identically_to_lf parse \<longleftrightarrow> \<not> isl (parse TOML_BODY_LF)"
    and "parse TOML_BODY_LF = Inr toml \<Longrightarrow>
      (\<forall>field \<in> {version, network_passphrase, federation_server, web_auth_endpoint, signing_key, transfer_server,
         transfer_server_sep24, kyc_server, direct_payment_server, anchor_quote_server}.
         \<forall>v. field toml = Some v \<longrightarrow> CHR 13 \<notin> set v) \<Longrightarrow>
      crlf_body_preserves_field_values_without_stray_carriage_returns parse"
  using assms body_has_crlf
  by (auto simp: parses_crlf_line_endings_identically_to_lf_def Let_def
      crlf_body_preserves_field_values_without_stray_carriage_returns_def split: sum.split option.split)

section \<open>Playground arguments and display\<close>

definition is_account :: "CliError + ScVal \<Rightarrow> bool" where
  "is_account r \<longleftrightarrow> (case r of Inr (ScAddr (Account _)) \<Rightarrow> True | _ \<Rightarrow> False)"

definition is_contract :: "CliError + ScVal \<Rightarrow> bool" where
  "is_contract r \<longleftrightarrow> (case r of Inr (ScAddr (ContractAddress _)) \<Rightarrow> True | _ \<Rightarrow> False)"

definition is_invalid_argument :: "CliError + ScVal \<Rightarrow> bool" where
  "is_invalid_argument r \<longleftrightarrow> (case r of Inl (InvalidArgument _ _) \<Rightarrow> True | _ \<Rightarrow> False)"

definition is_symbol :: "CliError + ScVal \<Rightarrow> bool" where
  "is_symbol r \<longleftrightarrow> (case r of Inr (ScSymbol _) \<Rightarrow> True | _ \<Rightarrow> False)"

definition parses_account_address :: "play_lib \<Rightarrow> bool" where
  "parses_account_address lib \<longleftrightarrow>
     is_account (parse_address lib ''GAAAAAAAAAAAAAAAAAAAAAAAAAAAAAAAAAAAAAAAAAAAAAAAAAAAAWHF'')"

definition parses_contract_address :: "play_lib \<Rightarrow> bool" where
  "parses_contract_address lib \<longleftrightarrow>
     is_contract (parse_address lib ''CAAAAAAAAAAAAAAAAAAAAAAAAAAAAAAAAAAAAAAAAAAAAAAAAAAAABSC4'')"

definition rejects_garbage_address :: "play_lib \<Rightarrow> bool" where
  "rejects_garbage_address lib \<longleftrightarrow> is_invalid_argument (parse_address lib ''not-an-address'')"

definition parses_short_symbol :: "play_lib \<Rightarrow> bool" where
  "parses_short_symbol lib \<longleftrightarrow> is_symbol (parse_symbol lib ''kyc_approved'')"

definition rejects_oversized_symbol :: "play_lib \<Rightarrow> bool" where
  "rejects_oversized_symbol lib \<longleftrightarrow>
     (let too_long = replicate 33 (CHR ''a'') in is_invalid_argument (parse_symbol lib too_long))"

text \<open>Which strings the strkey and XDR libraries accept decides these tests, and nothing else does.\<close>

lemma argument_tests:
  "parses_account_address lib \<longleftrightarrow>
     isl (pl_account_of lib ''GAAAAAAAAAAAAAAAAAAAAAAAAAAAAAAAAAAAAAAAAAAAAAAAAAAAAWHF'') = False"
  "parses_contract_address lib \<longleftrightarrow>
     isl (pl_account_of lib ''CAAAAAAAAAAAAAAAAAAAAAAAAAAAAAAAAAAAAAAAAAAAAAAAAAAAABSC4'') \<and>
     \<not> isl (pl_contract_of lib ''CAAAAAAAAAAAAAAAAAAAAAAAAAAAAAAAAAAAAAAAAAAAAAAAAAAAABSC4'')"
  "rejects_garbage_address lib \<longleftrightarrow>
     isl (pl_account_of lib ''not-an-address'') \<and> isl (pl_contract_of lib ''not-an-address'')"
  "parses_short_symbol lib \<longleftrightarrow> pl_symbol_of lib ''kyc_approved'' \<noteq> None"
  "rejects_oversized_symbol lib \<longleftrightarrow> pl_symbol_of lib (replicate 33 (CHR ''a'')) = None"
  by (auto simp: parses_account_address_def parses_contract_address_def rejects_garbage_address_def
      parses_short_symbol_def rejects_oversized_symbol_def parse_address_def parse_symbol_def is_account_def
      is_contract_def is_invalid_argument_def is_symbol_def Let_def
      split: sum.split option.split)

definition formats_scalars :: "play_lib \<Rightarrow> bool" where
  "formats_scalars lib \<longleftrightarrow>
     format_scval lib (ScBool True) = ''true'' \<and> format_scval lib (ScU64 42) = ''42'' \<and>
     format_scval lib ScVoid = ''()''"

definition formats_string_and_symbol :: "play_lib \<Rightarrow> bool" where
  "formats_string_and_symbol lib \<longleftrightarrow>
     format_scval lib (ScString ''hello'') = ''hello'' \<and> format_scval lib (ScSymbol ''active'') = ''active''"

definition formats_bytes_as_hex :: "play_lib \<Rightarrow> bool" where
  "formats_bytes_as_hex lib \<longleftrightarrow> format_scval lib (ScBytes [0xDE, 0xAD, 0xBE, 0xEF]) = ''0xdeadbeef''"

definition formats_nested_vec_and_map :: "play_lib \<Rightarrow> bool" where
  "formats_nested_vec_and_map lib \<longleftrightarrow>
     format_scval lib (ScVec (Some [ScU32 1, ScU32 2])) = ''[1, 2]'' \<and>
     format_scval lib (ScMap (Some [(ScSymbol ''status'', ScBool True)])) = ''{status: true}''"

text \<open>\<open>StringM\<close> prints printable ASCII as it is, which is all these tests need of it.\<close>

lemma display_values:
  "show_nat (unat (42 :: u64)) = ''42''" "show_nat (unat (1 :: u32)) = ''1''" "show_nat (unat (2 :: u32)) = ''2''"
  "hex_encode [0xDE, 0xAD, 0xBE, 0xEF] = ''deadbeef''"
  by code_simp+

lemma display_tests_pass:
  assumes "\<And>s. s \<in> {''hello'', ''active'', ''status''} \<Longrightarrow> pl_show_stringm lib s = s"
  shows "formats_scalars lib" and "formats_string_and_symbol lib" and "formats_bytes_as_hex lib"
    and "formats_nested_vec_and_map lib"
  unfolding formats_scalars_def formats_string_and_symbol_def formats_bytes_as_hex_def
    formats_nested_vec_and_map_def format_scval.simps list.map join_comma.simps display_values fst_conv snd_conv
  by (simp_all add: assms)

end
