(* ===== verification/Processor_Interleaving.thy ===== *)
theory Processor_Interleaving
  imports Idempotency
begin

text \<open>
  Concurrent calls of \<open>IdempotentWebhookProcessor::process\<close> (\<open>webhook-sdk/src/processor.rs\<close>)
  on one store and one deliverer. \<open>process\<close> and the \<open>deliver\<close> it calls are \<open>async\<close>: other calls
  run while one of them waits for the database, the network or its backoff. A call is a
  \<open>task\<close>, whose constructors are the places it can wait at, and \<open>task_step\<close> is the code from
  one such place to the next. A scheduler lets any unfinished task move, or drops it, as when the
  caller of an \<open>async\<close> function stops waiting for it (\<open>interleave\<close>); a permit the task holds is then
  resolved by its \<open>Drop\<close>. Run one after another, the tasks are the calls of \<open>process\<close> of the theory
  \<open>Idempotency\<close>.
\<close>

section \<open>Tasks\<close>

datatype task =
    Checking WebhookDelivery
  | Entering string WebhookDelivery
  | Attempting string "string option" WebhookDelivery
  | Sending string "string option" "Permit option" WebhookDelivery
  | Resolving string "string option" "Permit option" WebhookDelivery "WebhookError + u16 \<times> string option"
  | Sleeping string "string option" WebhookDelivery instant
  | Recording string json json "(WebhookError, ProcessingResult) outcome"
  | Finished "(WebhookError, ProcessingResult) outcome"
  | Dropped

fun finished :: "task \<Rightarrow> bool" where
  "finished (Finished result) = True"
| "finished Dropped = True"
| "finished t = False"

text \<open>What \<open>process\<close> goes on to do with the result of \<open>deliver\<close>.\<close>

fun delivery_done :: "string \<Rightarrow> (WebhookError, WebhookDelivery) outcome \<Rightarrow> task" where
  "delivery_done key (Ok result) =
     Recording key (wd_payload result) (success_response result)
       (Ok \<lparr>pr_idempotency_key = key, pr_is_duplicate = False, pr_response = success_response result\<rparr>)"
| "delivery_done key (Err e) = Recording key (JObject []) (failure_response e) (Err e)"
| "delivery_done key Panic = Finished Panic"

text \<open>
  The parts of \<open>deliver\<close> (\<open>webhook-sdk/src/delivery.rs\<close>) between its waits: the look-up of the breaker of
  the host, the head of the loop up to the request, the two arms for its reply, of which the second
  ends the loop (\<open>Inl\<close>) or sets the instant the backoff ends at (\<open>Inr\<close>), and the end of the backoff, which
  is not before that instant.
\<close>

definition deliver_entry ::
  "platform \<Rightarrow> WebhookDeliverer \<Rightarrow> WebhookDelivery \<Rightarrow> delivery_world \<Rightarrow> string option \<times> delivery_world" where
  [simp]: "deliver_entry lib dlv d w =
     (case (wdr_breakers dlv, circuit_key lib (wd_url d)) of
        (Some config, Some host) \<Rightarrow> (Some host, w\<lparr>dw_breakers := snd (breaker_for host (dw_breakers w))\<rparr>)
      | _ \<Rightarrow> (None, w))"

definition deliver_head ::
  "platform \<Rightarrow> WebhookDeliverer \<Rightarrow> string option \<Rightarrow> WebhookDelivery \<Rightarrow> delivery_world
     \<Rightarrow> (WebhookError, Permit option \<times> WebhookDelivery) outcome \<times> delivery_world" where
  [simp]: "deliver_head lib dlv breaker d w =
     (case checked_add (wd_attempt d) 1 of
        None \<Rightarrow> (Panic, w)
      | Some attempt \<Rightarrow>
          (case take_permit dlv breaker w of
             (None, dw) \<Rightarrow> (Err CircuitOpen_err, dw)
           | (Some permit, dw) \<Rightarrow> (Ok (permit, attempted lib attempt w d), dw)))"

definition deliver_succeeds ::
  "WebhookDeliverer \<Rightarrow> string option \<Rightarrow> Permit option \<Rightarrow> WebhookDelivery \<Rightarrow> u16 \<Rightarrow> string option
     \<Rightarrow> delivery_world \<Rightarrow> (WebhookError, WebhookDelivery) outcome \<times> delivery_world" where
  [simp]: "deliver_succeeds dlv breaker permit d status response_body w =
     (Ok (d\<lparr>wd_status_code := Some status, wd_response_body := response_body, wd_delivered := True\<rparr>),
      permit_succeeds dlv breaker permit w)"

definition deliver_fails ::
  "platform \<Rightarrow> WebhookDeliverer \<Rightarrow> string option \<Rightarrow> Permit option \<Rightarrow> WebhookDelivery \<Rightarrow> WebhookError
     \<Rightarrow> delivery_world
     \<Rightarrow> ((WebhookError, WebhookDelivery) outcome + WebhookDelivery \<times> instant) \<times> delivery_world" where
  [simp]: "deliver_fails lib dlv breaker permit d e w =
     (case permit_fails dlv breaker permit w of
        None \<Rightarrow> (Inl Panic, w)
      | Some dw \<Rightarrow>
          (if \<not> should_retry (wdr_retry dlv) (wd_attempt d) then Inl (Err MaxRetriesExceeded)
           else Inr (d\<lparr>wd_error := Some (webhook_error_to_string e)\<rparr>,
                  dw_now dw + backoff_duration (float_powi lib) (wdr_retry dlv) (wd_attempt d - 1)),
           dw))"

definition deliver_wakes :: "instant \<Rightarrow> delivery_world \<Rightarrow> delivery_world" where
  [simp]: "deliver_wakes wake w = w\<lparr>dw_now := max (dw_now w) wake\<rparr>"

text \<open>
  A step of a call: the first query; the steps of \<open>deliver\<close>, with what \<open>process\<close> does with its result;
  the insertion.
\<close>

fun task_step ::
  "platform \<Rightarrow> store_lib \<Rightarrow> WebhookDeliverer \<Rightarrow> task \<Rightarrow> proc_world \<Rightarrow> (task \<times> proc_world) option" where
  "task_step lib slib dlv (Checking d) w =
     Some (let key = derive_idempotency_key lib slib (wd_payload d) in
       case idem_get lib key (pw_db w) of
         (Inl e, db) \<Rightarrow> (Finished (Err e), w\<lparr>pw_db := db\<rparr>)
       | (Inr (Some cached_response), db) \<Rightarrow>
           (Finished (Ok \<lparr>pr_idempotency_key = key, pr_is_duplicate = True, pr_response = cached_response\<rparr>),
            w\<lparr>pw_db := db\<rparr>)
       | (Inr None, db) \<Rightarrow> (Entering key d, w\<lparr>pw_db := db\<rparr>))"
| "task_step lib slib dlv (Entering key d) w =
     Some (case deliver_entry lib dlv d (pw_delivery w) of
         (breaker, dw) \<Rightarrow> (Attempting key breaker d, w\<lparr>pw_delivery := dw\<rparr>))"
| "task_step lib slib dlv (Attempting key breaker d) w =
     Some (case deliver_head lib dlv breaker d (pw_delivery w) of
         (Ok (permit, d'), dw) \<Rightarrow> (Sending key breaker permit d', w\<lparr>pw_delivery := dw\<rparr>)
       | (Err e, dw) \<Rightarrow> (delivery_done key (Err e), w\<lparr>pw_delivery := dw\<rparr>)
       | (Panic, dw) \<Rightarrow> (delivery_done key Panic, w\<lparr>pw_delivery := dw\<rparr>))"
| "task_step lib slib dlv (Sending key breaker permit d) w =
     Some (case send lib dlv d (pw_delivery w) of
         (reply, dw) \<Rightarrow> (Resolving key breaker permit d reply, w\<lparr>pw_delivery := dw\<rparr>))"
| "task_step lib slib dlv (Resolving key breaker permit d (Inr (status, response_body))) w =
     Some (case deliver_succeeds dlv breaker permit d status response_body (pw_delivery w) of
         (result, dw) \<Rightarrow> (delivery_done key result, w\<lparr>pw_delivery := dw\<rparr>))"
| "task_step lib slib dlv (Resolving key breaker permit d (Inl e)) w =
     Some (case deliver_fails lib dlv breaker permit d e (pw_delivery w) of
         (Inl result, dw) \<Rightarrow> (delivery_done key result, w\<lparr>pw_delivery := dw\<rparr>)
       | (Inr (d', wake), dw) \<Rightarrow> (Sleeping key breaker d' wake, w\<lparr>pw_delivery := dw\<rparr>))"
| "task_step lib slib dlv (Sleeping key breaker d wake) w =
     Some (Attempting key breaker d, w\<lparr>pw_delivery := deliver_wakes wake (pw_delivery w)\<rparr>)"
| "task_step lib slib dlv (Recording key payload response result) w =
     Some (case idem_record lib slib (utc_now lib (dw_now (pw_delivery w))) key payload response (pw_db w) of
         (Inl e, db) \<Rightarrow> (Finished (Err e), w\<lparr>pw_db := db\<rparr>)
       | (Inr _, db) \<Rightarrow> (Finished result, w\<lparr>pw_db := db\<rparr>))"
| "task_step lib slib dlv (Finished result) w = None"
| "task_step lib slib dlv Dropped w = None"

text \<open>
  Dropping a task that waits for a reply drops its permit. The failure the permit reports then can
  panic at the end of the 32-bit range, which leaves the breaker as it is.
\<close>

definition drop_permit ::
  "WebhookDeliverer \<Rightarrow> string option \<Rightarrow> Permit option \<Rightarrow> delivery_world \<Rightarrow> delivery_world" where
  "drop_permit dlv breaker permit w =
     (case (wdr_breakers dlv, breaker, permit) of
        (Some config, Some key, Some p) \<Rightarrow>
          (case Permit_drop config (dw_now w) False p (fst (breaker_for key (dw_breakers w))) of
             None \<Rightarrow> w
           | Some b \<Rightarrow> w\<lparr>dw_breakers := (dw_breakers w)(key \<mapsto> b)\<rparr>)
      | _ \<Rightarrow> w)"

fun drop_task :: "WebhookDeliverer \<Rightarrow> task \<Rightarrow> proc_world \<Rightarrow> proc_world" where
  "drop_task dlv (Sending key breaker permit d) w =
     w\<lparr>pw_delivery := drop_permit dlv breaker permit (pw_delivery w)\<rparr>"
| "drop_task dlv (Resolving key breaker permit d reply) w =
     w\<lparr>pw_delivery := drop_permit dlv breaker permit (pw_delivery w)\<rparr>"
| "drop_task dlv t w = w"

text \<open>One task moves; any task of the system moves or is dropped.\<close>

inductive task_moves ::
  "platform \<Rightarrow> store_lib \<Rightarrow> WebhookDeliverer \<Rightarrow> task \<times> proc_world \<Rightarrow> task \<times> proc_world \<Rightarrow> bool"
  for lib slib dlv where
  "task_step lib slib dlv t w = Some (t', w') \<Longrightarrow> task_moves lib slib dlv (t, w) (t', w')"

inductive interleave ::
  "platform \<Rightarrow> store_lib \<Rightarrow> WebhookDeliverer \<Rightarrow> task list \<times> proc_world \<Rightarrow> task list \<times> proc_world \<Rightarrow> bool"
  for lib slib dlv where
  runs: "i < length ts \<Longrightarrow> task_step lib slib dlv (ts ! i) w = Some (t', w') \<Longrightarrow>
     interleave lib slib dlv (ts, w) (ts[i := t'], w')"
| drops: "i < length ts \<Longrightarrow> \<not> finished (ts ! i) \<Longrightarrow>
     interleave lib slib dlv (ts, w) (ts[i := Dropped], drop_task dlv (ts ! i) w)"

inductive_cases task_movesE: "task_moves lib slib dlv (t, w) s"
inductive_cases interleaveE: "interleave lib slib dlv (ts, w) s"

section \<open>Run alone, a task is the call\<close>

abbreviation moves_to ::
  "platform \<Rightarrow> store_lib \<Rightarrow> WebhookDeliverer \<Rightarrow> task \<times> proc_world \<Rightarrow> task \<times> proc_world \<Rightarrow> bool" where
  "moves_to lib slib dlv \<equiv> (task_moves lib slib dlv)\<^sup>*\<^sup>*"

lemma moves_first:
  "task_step lib slib dlv t w = Some s \<Longrightarrow> moves_to lib slib dlv s s' \<Longrightarrow> moves_to lib slib dlv (t, w) s'"
  by (cases s) (auto intro: converse_rtranclp_into_rtranclp task_moves.intros)

lemma moves_one: "task_step lib slib dlv t w = Some s \<Longrightarrow> moves_to lib slib dlv (t, w) s"
  by (erule moves_first) (rule rtranclp.rtrancl_refl)

lemma loop_moves:
  "deliver_loop lib dlv br d dw = (r, dw') \<Longrightarrow>
     moves_to lib slib dlv (Attempting key br d, \<lparr>pw_delivery = dw, pw_db = db\<rparr>)
       (delivery_done key r, \<lparr>pw_delivery = dw', pw_db = db\<rparr>)"
proof (induction "unat (max_retries (wdr_retry dlv)) - unat (wd_attempt d)" arbitrary: d dw
    rule: less_induct)
  case less
  from less.prems show ?case
  proof (cases rule: deliver_loop_cases)
    case overflow
    then show ?thesis by (intro moves_one) simp
  next
    case (refused a)
    then show ?thesis by (intro moves_one) simp
  next
    case (delivered a permit w1 w2 status body)
    then show ?thesis
      by (intro moves_first [OF task_step.simps(3)] moves_first [OF task_step.simps(4)]
          moves_one | simp)+
  next
    case (panicked a permit w1 e)
    then show ?thesis
      by (intro moves_first [OF task_step.simps(3)] moves_first [OF task_step.simps(4)]
          moves_one | simp)+
  next
    case (gave_up a permit w1 e w2)
    then show ?thesis
      by (intro moves_first [OF task_step.simps(3)] moves_first [OF task_step.simps(4)]
          moves_one | simp)+
  next
    case (again a permit w1 e w2 w3 b)
    let ?d = "(attempted lib a dw d)\<lparr>wd_error := Some (webhook_error_to_string e)\<rparr>"
    have "moves_to lib slib dlv (Attempting key br ?d, \<lparr>pw_delivery = sleep_for b w3, pw_db = db\<rparr>)
        (delivery_done key r, \<lparr>pw_delivery = dw', pw_db = db\<rparr>)"
      using less.hyps [OF _ again(6)] retry_decreases [OF again(1,5)] by simp
    then have "moves_to lib slib dlv (Sleeping key br ?d (dw_now w3 + b), \<lparr>pw_delivery = w3, pw_db = db\<rparr>)
        (delivery_done key r, \<lparr>pw_delivery = dw', pw_db = db\<rparr>)"
      by (intro moves_first [OF task_step.simps(7)]) (simp add: sleep_for_def)
    with again(1-5,7) show ?thesis
      by (intro moves_first [OF task_step.simps(3)] moves_first [OF task_step.simps(4)]
          moves_first [OF task_step.simps(6)] | simp)+
  qed
qed

lemma deliver_moves:
  assumes "deliver lib dlv d (pw_delivery w) = (r, dw')"
  shows "moves_to lib slib dlv (Entering key d, w) (delivery_done key r, w\<lparr>pw_delivery := dw'\<rparr>)"
proof (cases "\<exists>config host. wdr_breakers dlv = Some config \<and> circuit_key lib (wd_url d) = Some host")
  case True
  then obtain config host where "wdr_breakers dlv = Some config" "circuit_key lib (wd_url d) = Some host"
    by blast
  then show ?thesis
    using assms loop_moves [of lib dlv "Some host" d _ r dw' slib key "pw_db w"]
    by (intro moves_first [OF task_step.simps(2)]) (cases w, simp add: deliver_def)
next
  case False
  then have loop: "deliver_loop lib dlv None d (pw_delivery w) = (r, dw')"
    and enter: "task_step lib slib dlv (Entering key d) w = Some (Attempting key None d, w)"
    using assms by (auto simp: deliver_def split: option.splits)
  from enter show ?thesis
    by (rule moves_first) (use loop_moves [OF loop, of slib key "pw_db w"] in \<open>cases w, simp\<close>)
qed

lemma process_moves:
  assumes "process lib slib dlv d w = (r, w')"
  shows "moves_to lib slib dlv (Checking d, w) (Finished r, w')"
proof -
  let ?key = "derive_idempotency_key lib slib (wd_payload d)"
  obtain g db where g: "idem_get lib ?key (pw_db w) = (g, db)" by fastforce
  obtain r0 dw where dlv: "deliver lib dlv d (pw_delivery w) = (r0, dw)" by fastforce
  note run = assms [unfolded process_def Let_def g, simplified]
  show ?thesis
  proof (cases "g = Inr None")
    case False
    then show ?thesis
      using run g by (intro moves_one) (auto simp: Let_def split: sum.splits option.splits)
  next
    case True
    let ?w1 = "w\<lparr>pw_db := db\<rparr>" and ?w2 = "\<lparr>pw_delivery = dw, pw_db = db\<rparr>"
    have "moves_to lib slib dlv (Checking d, w) (Entering ?key d, ?w1)"
      by (rule moves_one) (simp add: Let_def g True)
    also have "moves_to lib slib dlv (Entering ?key d, ?w1) (delivery_done ?key r0, ?w2)"
      using deliver_moves [of lib dlv d ?w1 r0 dw slib ?key] dlv by (cases w, simp)
    also have "moves_to lib slib dlv (delivery_done ?key r0, ?w2) (Finished r, w')"
    proof (cases "r0 = Panic")
      case True
      then show ?thesis using run \<open>g = Inr None\<close> dlv by simp
    next
      case False
      then show ?thesis
        using run \<open>g = Inr None\<close> dlv
        by (cases r0; intro moves_one) (auto simp: Let_def split: sum.splits prod.splits)
    qed
    finally show ?thesis .
  qed
qed

section \<open>Schedules\<close>

abbreviation schedules_to ::
  "platform \<Rightarrow> store_lib \<Rightarrow> WebhookDeliverer \<Rightarrow> task list \<times> proc_world \<Rightarrow> task list \<times> proc_world \<Rightarrow> bool" where
  "schedules_to lib slib dlv \<equiv> (interleave lib slib dlv)\<^sup>*\<^sup>*"

lemma schedule_one:
  "moves_to lib slib dlv (t, w) (t', w') \<Longrightarrow> schedules_to lib slib dlv (us @ t # vs, w) (us @ t' # vs, w')"
proof (induction rule: rtranclp_induct2)
  case (step t1 w1 t2 w2)
  have "interleave lib slib dlv (us @ t1 # vs, w1) (us @ t2 # vs, w2)"
    using interleave.runs [of "length us" "us @ t1 # vs" lib slib dlv w1 t2 w2] step.hyps(2)
    by (auto elim: task_movesE)
  with step.IH show ?case by (rule rtranclp.rtrancl_into_rtrancl)
qed simp

lemma sequence_schedules:
  "process_all lib slib dlv ds w = (rs, w') \<Longrightarrow>
     schedules_to lib slib dlv (us @ map Checking ds, w) (us @ map Finished rs, w')"
proof (induction ds arbitrary: us w rs)
  case (Cons d ds)
  obtain r w1 where r: "process lib slib dlv d w = (r, w1)" by fastforce
  obtain rs' where rs': "process_all lib slib dlv ds w1 = (rs', w')" "rs = r # rs'"
    using Cons.prems r by (auto split: prod.splits)
  have "schedules_to lib slib dlv (us @ Checking d # map Checking ds, w) (us @ Finished r # map Checking ds, w1)"
    by (rule schedule_one [OF process_moves [OF r]])
  also have "schedules_to lib slib dlv (us @ Finished r # map Checking ds, w1) ((us @ [Finished r]) @ map Finished rs', w')"
    using Cons.IH [OF rs'(1), of "us @ [Finished r]"] by simp
  finally show ?case using rs'(2) by simp
qed simp

section \<open>Every schedule ends\<close>

definition retries_left :: "WebhookDeliverer \<Rightarrow> WebhookDelivery \<Rightarrow> nat" where
  "retries_left dlv d = unat (max_retries (wdr_retry dlv)) - unat (wd_attempt d)"

text \<open>The number of steps a task may still take, at most.\<close>

fun steps_left :: "WebhookDeliverer \<Rightarrow> task \<Rightarrow> nat" where
  "steps_left dlv (Checking d) = 4 * retries_left dlv d + 7"
| "steps_left dlv (Entering key d) = 4 * retries_left dlv d + 6"
| "steps_left dlv (Attempting key br d) = 4 * retries_left dlv d + 5"
| "steps_left dlv (Sending key br p d) = (if retries_left dlv d = 0 then 3 else 4 * retries_left dlv d + 8)"
| "steps_left dlv (Resolving key br p d x) = (if retries_left dlv d = 0 then 2 else 4 * retries_left dlv d + 7)"
| "steps_left dlv (Sleeping key br d i) = 4 * retries_left dlv d + 6"
| "steps_left dlv (Recording key p response r) = 1"
| "steps_left dlv (Finished r) = 0"
| "steps_left dlv Dropped = 0"

lemma retries_left_attempted:
  "checked_add (wd_attempt d) 1 = Some a \<Longrightarrow> retries_left dlv (attempted lib a w d) = retries_left dlv d - 1"
  by (simp add: retries_left_def checked_add_one)

lemma should_retry_left: "should_retry (wdr_retry dlv) (wd_attempt d) \<longleftrightarrow> 0 < retries_left dlv d"
  by (simp add: should_retry_def retries_left_def word_less_nat_alt)

lemma task_step_decreases:
  assumes "task_step lib slib dlv t w = Some (t', w')"
  shows "steps_left dlv t' < steps_left dlv t"
proof (cases "(lib, slib, dlv, t, w)" rule: task_step.cases)
  case (3 lib slib dlv key br d w)
  then show ?thesis
    using assms retries_left_attempted [of d _ dlv]
    by (auto split: option.splits prod.splits) arith
next
  case (5 lib slib dlv key br p d status body w)
  then show ?thesis using assms by auto
next
  case (6 lib slib dlv key br p d e w)
  then show ?thesis
    using assms by (auto simp: should_retry_left retries_left_def split: option.splits if_splits)
qed (use assms in \<open>auto simp: Let_def split: option.splits prod.splits sum.splits\<close>)

lemma steps_left_finished: "steps_left dlv t = 0 \<longleftrightarrow> finished t"
  by (cases t) simp_all

lemma task_step_exists: "(\<exists>s. task_step lib slib dlv t w = Some s) \<longleftrightarrow> \<not> finished t"
  by (cases "(lib, slib, dlv, t, w)" rule: task_step.cases) auto

lemma task_step_unfinished: "task_step lib slib dlv t w = Some s \<Longrightarrow> \<not> finished t"
  using task_step_exists by blast

definition total_steps_left :: "WebhookDeliverer \<Rightarrow> task list \<Rightarrow> nat" where
  "total_steps_left dlv ts = sum_list (map (steps_left dlv) ts)"

lemma sum_list_decreases:
  "i < length xs \<Longrightarrow> y < xs ! i \<Longrightarrow> sum_list (xs[i := y]) < sum_list (xs :: nat list)"
proof (induction xs arbitrary: i)
  case (Cons x xs)
  then show ?case by (cases i) auto
qed simp

lemma interleave_decreases:
  assumes "interleave lib slib dlv (ts, w) (ts', w')"
  shows "total_steps_left dlv ts' < total_steps_left dlv ts"
  using assms
proof cases
  case (runs i t')
  then show ?thesis
    using task_step_decreases [OF runs(3)] by (simp add: total_steps_left_def map_update sum_list_decreases)
next
  case (drops i)
  then have "steps_left dlv Dropped < steps_left dlv (ts ! i)"
    using steps_left_finished [of dlv "ts ! i"] by (cases "steps_left dlv (ts ! i)") simp_all
  then show ?thesis using drops by (simp add: total_steps_left_def map_update sum_list_decreases)
qed

lemma schedule_bounded:
  "(interleave lib slib dlv ^^ n) (ts, w) (ts', w') \<Longrightarrow> n + total_steps_left dlv ts' \<le> total_steps_left dlv ts"
proof (induction n arbitrary: ts' w')
  case (Suc n)
  then obtain ts1 w1 where "(interleave lib slib dlv ^^ n) (ts, w) (ts1, w1)"
    and "interleave lib slib dlv (ts1, w1) (ts', w')" by auto
  then show ?case using Suc.IH interleave_decreases by fastforce
qed simp

text \<open>No step drops a task, and every task that was not dropped can be let run until it returns.\<close>

lemma task_step_not_Dropped: "task_step lib slib dlv t w = Some (t', w') \<Longrightarrow> t' \<noteq> Dropped"
  by (cases "(lib, slib, dlv, t, w)" rule: task_step.cases)
    (auto simp: Let_def split: option.splits prod.splits sum.splits if_splits)

definition returned_from :: "task \<Rightarrow> task \<Rightarrow> bool" where
  "returned_from t t' \<longleftrightarrow> (if t = Dropped then t' = Dropped else \<exists>r. t' = Finished r)"

lemma finished_returned: "finished t \<Longrightarrow> returned_from t t"
  by (cases t) (simp_all add: returned_from_def)

lemma all_can_return:
  "\<exists>ts' w'. (interleave lib slib dlv)\<^sup>*\<^sup>* (ts, w) (ts', w') \<and> list_all2 returned_from ts ts'"
proof (induction "total_steps_left dlv ts" arbitrary: ts w rule: less_induct)
  case less
  show ?case
  proof (cases "list_all finished ts")
    case True
    then have "list_all2 returned_from ts ts"
      by (auto simp: list_all2_conv_all_nth list_all_length finished_returned)
    then show ?thesis by blast
  next
    case False
    then obtain i where i: "i < length ts" "\<not> finished (ts ! i)" by (auto simp: list_all_length)
    then obtain t' w' where step: "task_step lib slib dlv (ts ! i) w = Some (t', w')"
      using task_step_exists by (metis surj_pair)
    note run = interleave.runs [OF i(1) step]
    obtain ts' w'' where rest: "(interleave lib slib dlv)\<^sup>*\<^sup>* (ts[i := t'], w') (ts', w'')"
      and ret: "list_all2 returned_from (ts[i := t']) ts'"
      using less [OF interleave_decreases [OF run]] by blast
    have "returned_from (ts ! i) (ts' ! i)"
      using list_all2_nthD [OF ret, of i] i task_step_not_Dropped [OF step]
      by (auto simp: returned_from_def)
    then have "list_all2 returned_from ts ts'"
      using ret by (simp add: list_all2_conv_all_nth) (metis nth_list_update_neq)
    then show ?thesis using converse_rtranclp_into_rtranclp [OF run rest] by blast
  qed
qed

section \<open>A recorded response stays\<close>

definition duplicate_answer :: "string \<Rightarrow> json \<Rightarrow> (WebhookError, ProcessingResult) outcome" where
  "duplicate_answer key v =
     Ok \<lparr>pr_idempotency_key = key, pr_is_duplicate = True, pr_response = v\<rparr>"

definition holds_response :: "string \<Rightarrow> string \<Rightarrow> proc_world \<Rightarrow> bool" where
  "holds_response key resp w \<longleftrightarrow> db_works (pw_db w) \<and> found_text key (pw_db w) = Some resp"

lemma idem_get_same:
  assumes "idem_get lib key' db = (r, db')"
  shows "found_text key db' = found_text key db" and "db_works db' = db_works db"
  using assms
  by (auto simp: idem_get_def db_query_def db_works_def found_text_def Let_def split: option.splits)

lemma idem_record_keeps:
  assumes "idem_record lib slib now key' payload response db = (r, db')"
  shows "db_works db' = db_works db" and "found_text key db = Some resp \<Longrightarrow> found_text key db' = Some resp"
  using assms
  by (auto simp: idem_record_def db_query_def db_works_def found_text_def Let_def bind_eq_Some_conv
      responses.first_wins split: option.splits sum.splits)

lemma task_step_holds:
  assumes "task_step lib slib dlv t w = Some (t', w')" and "holds_response key resp w"
  shows "holds_response key resp w'"
  using assms
  by (cases "(lib, slib, dlv, t, w)" rule: task_step.cases)
    (auto simp: Let_def holds_response_def idem_get_same idem_record_keeps(1) elim!: idem_record_keeps(2)
      split: option.splits prod.splits sum.splits)

lemma check_holds:
  assumes "holds_response key resp w" and "json_parse lib resp = Inr v"
    and "key = derive_idempotency_key lib slib (wd_payload d)"
    and "task_step lib slib dlv (Checking d) w = Some (t', w')"
  shows "t' = Finished (duplicate_answer key v)"
proof -
  obtain g db where g: "idem_get lib key (pw_db w) = (g, db)" by fastforce
  have "g = Inr (Some v)"
    using idem_get_works(3) [OF _ g] assms(1,2) by (simp add: holds_response_def)
  with assms(3,4) g show ?thesis by (simp add: Let_def duplicate_answer_def)
qed

text \<open>
  From the moment a response is held for a payload: the calls for it that have not looked yet
  are still about to look, or have been answered with the response held.
\<close>

definition answered ::
  "platform \<Rightarrow> store_lib \<Rightarrow> json \<Rightarrow> string \<Rightarrow> json \<Rightarrow> task list \<Rightarrow> task list \<times> proc_world \<Rightarrow> bool" where
  "answered lib slib p resp v ts0 s \<longleftrightarrow>
     holds_response (derive_idempotency_key lib slib p) resp (snd s) \<and> length (fst s) = length ts0 \<and>
     (\<forall>i < length ts0. \<forall>d. ts0 ! i = Checking d \<longrightarrow> wd_payload d = p \<longrightarrow>
        fst s ! i \<in> {Checking d, Dropped, Finished (duplicate_answer (derive_idempotency_key lib slib p) v)})"

lemma drop_task_db [simp]: "pw_db (drop_task dlv t w) = pw_db w"
  by (cases "(dlv, t, w)" rule: drop_task.cases) simp_all

lemma answered_step:
  assumes "json_parse lib resp = Inr v" and "answered lib slib p resp v ts0 (ts, w)"
    and "interleave lib slib dlv (ts, w) s'"
  shows "answered lib slib p resp v ts0 s'"
  using assms(3)
proof cases
  case (runs i t' w')
  have held: "holds_response (derive_idempotency_key lib slib p) resp w"
    using assms(2) by (simp add: answered_def)
  then have "t' = Finished (duplicate_answer (derive_idempotency_key lib slib p) v)"
    if "ts ! i = Checking d" "wd_payload d = p" for d
    using check_holds [OF held assms(1), of slib d dlv t' w'] runs(3) that by metis
  moreover have "\<not> finished (ts ! i)" using runs(3) by (rule task_step_unfinished)
  then have "ts ! i \<noteq> Dropped" and "ts ! i \<noteq> Finished r" for r by auto
  ultimately show ?thesis
    using assms(2) runs task_step_holds [OF runs(3) held]
    by (auto simp: answered_def nth_list_update)
next
  case (drops i)
  then show ?thesis
    using assms(2) by (auto simp: answered_def nth_list_update holds_response_def)
qed

interpretation answering: invariant_system
  "\<lambda>s. fst s = ts0 \<and> json_parse lib resp = Inr v \<and> holds_response (derive_idempotency_key lib slib p) resp (snd s)"
  "interleave lib slib dlv"
  "\<lambda>s. json_parse lib resp = Inr v \<and> answered lib slib p resp v ts0 s"
  for lib slib dlv p resp v ts0
proof unfold_locales
  fix s s'
  assume "json_parse lib resp = Inr v \<and> answered lib slib p resp v ts0 s" and "interleave lib slib dlv s s'"
  then show "json_parse lib resp = Inr v \<and> answered lib slib p resp v ts0 s'"
    using answered_step by (cases s) blast
qed (simp add: answered_def)

section \<open>The requests of a schedule\<close>

text \<open>The requests a task may still make, at most.\<close>

fun requests_left :: "WebhookDeliverer \<Rightarrow> task \<Rightarrow> nat" where
  "requests_left dlv (Checking d) = max 1 (retries_left dlv d)"
| "requests_left dlv (Entering key d) = max 1 (retries_left dlv d)"
| "requests_left dlv (Attempting key br d) = max 1 (retries_left dlv d)"
| "requests_left dlv (Sending key br p d) = Suc (retries_left dlv d)"
| "requests_left dlv (Resolving key br p d x) = retries_left dlv d"
| "requests_left dlv (Sleeping key br d i) = max 1 (retries_left dlv d)"
| "requests_left dlv (Recording key p response r) = 0"
| "requests_left dlv (Finished r) = 0"
| "requests_left dlv Dropped = 0"

lemma requests_left_delivery_done [simp]: "requests_left dlv (delivery_done key r) = 0"
  by (cases "(key, r)" rule: delivery_done.cases) simp_all




lemma drop_task_sent [simp]: "dw_sent (pw_delivery (drop_task dlv t w)) = dw_sent (pw_delivery w)"
  by (cases "(dlv, t, w)" rule: drop_task.cases) (simp_all add: drop_permit_def split: option.split)




section \<open>Calls that look before any of them records\<close>






text \<open>
  Run one after another, the tasks are the calls: the schedule that lets each task finish before the
  next one starts ends in the results and the world of the sequence of \<open>process\<close> calls.
\<close>

lemma sequential_schedule:
  "(interleave lib slib dlv)\<^sup>*\<^sup>* (map Checking ds, w)
     (map Finished (fst (process_all lib slib dlv ds w)), snd (process_all lib slib dlv ds w))"
  using sequence_schedules [of lib slib dlv ds w _ _ "[]"] by simp

section \<open>Properties\<close>

text \<open>
  C33. No schedule of concurrent calls runs forever, and none can bring a call to a halt. A schedule
  has at most \<open>4 * max_retries + 7\<close> steps per call. At every moment of it each call that has neither
  returned nor been dropped can itself take a step, whatever the others wait for, and from there a
  continuation lets every call that was not dropped return.
\<close>

theorem interleavings_terminate:
  assumes "(interleave lib slib dlv ^^ n) (map Checking ds, w) (ts, w')"
    and "\<forall>d \<in> set ds. wd_attempt d = 0"
  shows "n \<le> length ds * (4 * unat (max_retries (wdr_retry dlv)) + 7) \<and>
     (\<forall>i < length ts. \<not> finished (ts ! i) \<longrightarrow>
        (\<exists>t' w''. task_step lib slib dlv (ts ! i) w' = Some (t', w'') \<and> t' \<noteq> Dropped)) \<and>
     (\<exists>ts' w''. (interleave lib slib dlv)\<^sup>*\<^sup>* (ts, w') (ts', w'') \<and> list_all2 returned_from ts ts')"
proof (intro conjI allI impI all_can_return)
  have "total_steps_left dlv (map Checking ds) = length ds * (4 * unat (max_retries (wdr_retry dlv)) + 7)"
    using assms(2) by (induction ds) (simp_all add: total_steps_left_def retries_left_def)
  then show "n \<le> length ds * (4 * unat (max_retries (wdr_retry dlv)) + 7)"
    using schedule_bounded [OF assms(1)] by simp
  show "\<exists>t' w''. task_step lib slib dlv (ts ! i) w' = Some (t', w'') \<and> t' \<noteq> Dropped"
    if "\<not> finished (ts ! i)" for i
    using that task_step_exists task_step_not_Dropped by (metis surj_pair)
qed

text \<open>Two calls for one payload, let run from their first look at the store until both have returned.\<close>

theorem interleavings_terminate_witness:
  "\<exists>n r r' w'. (interleave demo_codec demo_store_lib demo_one_shot ^^ n)
      (map Checking [WebhookDelivery_new ''id'' 0 ''https://anchor/hook'' JNull,
         WebhookDelivery_new ''id2'' 0 ''https://anchor/hook'' JNull], demo_proc_world)
      ([Finished r, Finished r'], w') \<and> n \<le> 2 * (4 * unat (max_retries (wdr_retry demo_one_shot)) + 7)"
proof -
  let ?ds = "[WebhookDelivery_new ''id'' 0 ''https://anchor/hook'' JNull,
    WebhookDelivery_new ''id2'' 0 ''https://anchor/hook'' JNull]"
  let ?run = "interleave demo_codec demo_store_lib demo_one_shot"
  have fresh: "\<forall>d \<in> set ?ds. wd_attempt d = 0" by (simp add: WebhookDelivery_new_def)
  have "(?run ^^ 0) (map Checking ?ds, demo_proc_world) (map Checking ?ds, demo_proc_world)" by simp
  from interleavings_terminate [OF this fresh] obtain r r' w' where
    "?run\<^sup>*\<^sup>* (map Checking ?ds, demo_proc_world) ([Finished r, Finished r'], w')"
    by (auto simp: returned_from_def list_all2_Cons1)
  then obtain n where run: "(?run ^^ n) (map Checking ?ds, demo_proc_world) ([Finished r, Finished r'], w')"
    by (auto dest: rtranclp_imp_relpowp)
  show ?thesis using run interleavings_terminate [OF run fresh] by auto
qed

text \<open>
  C31. Once a response is held for a payload, every concurrent call for it that has not yet
  looked into the store is, in every schedule, still about to look, was dropped, or has returned as
  a duplicate with that response: it never makes a request. The response held stays the
  same, whatever the calls that were already on their way record.
\<close>

theorem late_calls_answered:
  assumes "db_works (pw_db w)"
    and "found_text (derive_idempotency_key lib slib (wd_payload d)) (pw_db w) = Some resp"
    and "json_parse lib resp = Inr v" and "i < length ts" and "ts ! i = Checking d"
    and "(interleave lib slib dlv)\<^sup>*\<^sup>* (ts, w) (ts', w')"
  shows "ts' ! i \<in> {Checking d, Dropped,
       Finished (Ok \<lparr>pr_idempotency_key = derive_idempotency_key lib slib (wd_payload d),
         pr_is_duplicate = True, pr_response = v\<rparr>)} \<and>
     found_text (derive_idempotency_key lib slib (wd_payload d)) (pw_db w') = Some resp"
proof -
  have "answered lib slib (wd_payload d) resp v ts (ts, w)"
    using assms(1,2) by (simp add: answered_def holds_response_def)
  then have "answered lib slib (wd_payload d) resp v ts (ts', w')"
    using answering.steps_invar [OF assms(6)] assms(3) by blast
  then show ?thesis
    using assms(4,5) by (auto simp: answered_def holds_response_def duplicate_answer_def)
qed

definition demo_recorded_world :: proc_world where
  "demo_recorded_world = demo_proc_world\<lparr>pw_db := \<lparr>db_table =
     Some [\<lparr>ik_key = ''v'', ik_payload = ''v'', ik_response = ''f'', ik_created_at = ''a''\<rparr>],
     db_queries = 1, db_faults = (\<lambda>_. None)\<rparr>\<rparr>"

theorem late_calls_answered_witness:
  "\<exists>ts' w'. (interleave demo_codec demo_store_lib demo_one_shot)\<^sup>*\<^sup>*
       ([Checking (WebhookDelivery_new ''id'' 0 ''https://anchor/hook'' JNull)], demo_recorded_world) (ts', w') \<and>
     ts' ! 0 = Finished (Ok \<lparr>pr_idempotency_key = ''v'', pr_is_duplicate = True,
       pr_response = failure_response MaxRetriesExceeded\<rparr>)"
proof -
  let ?d = "WebhookDelivery_new ''id'' 0 ''https://anchor/hook'' JNull"
  obtain r w' where r: "process demo_codec demo_store_lib demo_one_shot ?d demo_recorded_world = (r, w')"
    by fastforce
  have run: "(interleave demo_codec demo_store_lib demo_one_shot)\<^sup>*\<^sup>*
      ([Checking ?d], demo_recorded_world) ([Finished r], w')"
    using schedule_one [OF process_moves [OF r], of "[]" "[]"] by simp
  have key: "derive_idempotency_key demo_codec demo_store_lib (wd_payload ?d) = ''v''"
    by (simp add: derive_idempotency_key_def demo_codec_def demo_store_lib_def or_empty_def
        WebhookDelivery_new_def failure_response_def)
  have "json_parse demo_codec ''f'' = Inr (failure_response MaxRetriesExceeded)"
    by (simp add: demo_codec_def)
  then show ?thesis
    using run key late_calls_answered [of demo_recorded_world demo_codec demo_store_lib ?d "''f''" _ 0, OF _ _ _ _ _ run]
    by (auto simp: demo_recorded_world_def db_works_def found_text_def response_text_def select_key_def)
qed



end
