(* ===== verification/Breaker_Concurrency.thy ===== *)
theory Breaker_Concurrency
  imports Processor_Interleaving
begin

text \<open>
  The circuit breakers under concurrent calls. What the tasks of a schedule do to the breaker of one
  host is the interleaved use of a single breaker (\<open>breaker_step\<close> of the theory \<open>Circuit_Breaker\<close>): the
  permits outstanding are those the tasks hold for that host. The one exception is a failure report
  that panics at the end of the 32-bit range, which loses a permit that is not the probe. So the
  invariant of the breaker holds of every host in every schedule, dropped tasks included.
\<close>

section \<open>The breaker of a host in a schedule\<close>

definition held_permit :: "string \<Rightarrow> string option \<Rightarrow> Permit option \<Rightarrow> Permit list" where
  "held_permit host br permit = (case permit of Some p \<Rightarrow> if br = Some host then [p] else [] | None \<Rightarrow> [])"

fun permits_of :: "string \<Rightarrow> task \<Rightarrow> Permit list" where
  "permits_of host (Sending key br permit d) = held_permit host br permit"
| "permits_of host (Resolving key br permit d reply) = held_permit host br permit"
| "permits_of host t = []"

definition host_view :: "string \<Rightarrow> Permit list \<Rightarrow> delivery_world \<Rightarrow> breaker_sys" where
  "host_view host permits w =
     \<lparr>bs_inner = breaker_of host w, bs_permits = permits, bs_now = dw_now w\<rparr>"

definition breaker_view :: "string \<Rightarrow> task list \<times> proc_world \<Rightarrow> breaker_sys" where
  "breaker_view host s = host_view host (concat (map (permits_of host) (fst s))) (pw_delivery (snd s))"

lemma breaker_of_other:
  "host \<noteq> key \<Longrightarrow> breaker_of host (w\<lparr>dw_breakers := (dw_breakers w)(key \<mapsto> b)\<rparr>) = breaker_of host w"
  by (simp add: breaker_of_def breaker_for_def split: option.split)

lemma breaker_of_registered:
  "breaker_of host (w\<lparr>dw_breakers := snd (breaker_for key (dw_breakers w))\<rparr>) = breaker_of host w"
  by (simp add: breaker_of_def breaker_for_def split: option.split)

lemma breaker_inv_more:
  "breaker_inv config (host_view host ps w) \<Longrightarrow> set ps \<subseteq> set qs \<Longrightarrow> breaker_inv config (host_view host qs w)"
  by (auto simp: breaker_inv_def host_view_def)

lemma breaker_inv_later:
  assumes "breaker_inv config (host_view host ps w)" and "dw_now w \<le> dw_now w'"
    and "dw_breakers w' = dw_breakers w"
  shows "breaker_inv config (host_view host ps w')"
  using breaker_inv_step [OF assms(1) breaker_step.passed, of "dw_now w'"] assms(2) breaker_of_cong [OF assms(3)]
  by (simp add: host_view_def)

text \<open>Losing a permit that is not a probe, and the panic that loses it.\<close>

lemma failure_panics: "record_failure config now probe b = None \<Longrightarrow> \<not> probe"
  by (auto simp: record_failure_def)

lemma breaker_inv_lost:
  "breaker_inv config (host_view host (p # ps) w) \<Longrightarrow> \<not> is_probe p \<Longrightarrow> breaker_inv config (host_view host ps w)"
  by (auto simp: breaker_inv_def host_view_def)

section \<open>The operations on a permit\<close>

lemma take_permit_inv:
  assumes "wdr_breakers dlv = Some config" and "take_permit dlv br w = (r, w')"
    and "breaker_inv config (host_view host ps w)"
  shows "breaker_inv config (host_view host (held_permit host br (Option.bind r id) @ ps) w')"
proof (cases "br = Some host")
  case True
  then have acq: "try_acquire config (dw_now w) (breaker_of host w) = (Option.bind r id, breaker_of host w')"
    using guarded_iteration(1) assms(1,2) by blast
  have now: "dw_now w' = dw_now w" using take_permit_frame(3) [OF assms(2)] .
  show ?thesis
  proof (cases "Option.bind r id")
    case None
    then show ?thesis
      using breaker_inv_step [OF assms(3) breaker_step.refused, of "breaker_of host w'"] acq now
      by (simp add: host_view_def held_permit_def)
  next
    case (Some p)
    then show ?thesis
      using breaker_inv_step [OF assms(3) breaker_step.granted, of p "breaker_of host w'"] acq now True
      by (simp add: host_view_def held_permit_def)
  qed
next
  case False
  have "dw_breakers w' host = dw_breakers w host" and now: "dw_now w' = dw_now w"
    using take_permit_frame [OF assms(2)] False by simp_all
  then have "breaker_of host w' = breaker_of host w" by (simp add: breaker_of_def breaker_for_def split: option.split)
  then show ?thesis
    using assms(3) False now by (simp add: host_view_def held_permit_def split: option.split)
qed

text \<open>
  A permit is resolved by one of \<open>success\<close>, \<open>failure\<close> and \<open>drop\<close>, which act on the breaker of its
  host only.
\<close>

lemma resolve_inv:
  assumes "breaker_inv config (host_view host (held_permit host (Some key) (Some p) @ ps) w)"
    and "b = Permit_success p (breaker_of key w) \<or>
      record_failure config (dw_now w) (is_probe p) (breaker_of key w) = Some b"
  shows "breaker_inv config (host_view host ps (w\<lparr>dw_breakers := (dw_breakers w)(key \<mapsto> b)\<rparr>))"
proof (cases "key = host")
  case True
  let ?s = "host_view host (p # ps) w"
  have inv: "breaker_inv config ?s" using assms(1) True by (simp add: held_permit_def)
  have p: "p \<in> set (bs_permits ?s)" by (simp add: host_view_def)
  from assms(2) show ?thesis
  proof
    assume "b = Permit_success p (breaker_of key w)"
    then show ?thesis
      using breaker_inv_step [OF inv breaker_step.reported [OF p]] True by (simp add: host_view_def)
  next
    assume "record_failure config (dw_now w) (is_probe p) (breaker_of key w) = Some b"
    then show ?thesis
      using breaker_inv_failure [OF inv p, of b] True by (simp add: host_view_def)
  qed
next
  case False
  then show ?thesis using assms(1) by (simp add: host_view_def held_permit_def breaker_of_other)
qed

lemma lost_inv:
  assumes "breaker_inv config (host_view host (held_permit host (Some key) (Some p) @ ps) w)"
    and "record_failure config (dw_now w) (is_probe p) (breaker_of key w) = None"
  shows "breaker_inv config (host_view host ps w)"
  using assms(1) breaker_inv_lost [OF _ failure_panics [OF assms(2)]]
  by (auto simp: held_permit_def split: if_splits)

lemmas permit_defs = permit_succeeds_def permit_fails_def drop_permit_def Permit_failure_def Permit_drop_def

lemma permit_ops_inv:
  assumes "wdr_breakers dlv = Some config"
    and "breaker_inv config (host_view host (held_permit host br permit @ ps) w)"
  shows "breaker_inv config (host_view host ps (permit_succeeds dlv br permit w)) \<and>
     (\<forall>w'. permit_fails dlv br permit w = Some w' \<longrightarrow> breaker_inv config (host_view host ps w')) \<and>
     (permit_fails dlv br permit w = None \<longrightarrow> breaker_inv config (host_view host ps w)) \<and>
     breaker_inv config (host_view host ps (drop_permit dlv br permit w))"
proof (cases "\<exists>key p. br = Some key \<and> permit = Some p")
  case True
  then obtain key p where kp: "br = Some key" "permit = Some p" by blast
  note inv = assms(2) [unfolded kp]
  show ?thesis
    using resolve_inv [OF inv] lost_inv [OF inv] assms(1) kp
    by (auto simp: permit_defs breaker_of_def split: option.split)
next
  case False
  then have "permit_succeeds dlv br permit w = w" "permit_fails dlv br permit w = Some w"
    "drop_permit dlv br permit w = w" "breaker_inv config (host_view host ps w)"
    using assms by (auto simp: permit_defs held_permit_def split: option.splits)
  then show ?thesis by auto
qed

section \<open>Every step keeps the invariant\<close>

lemma permits_of_delivery_done [simp]: "permits_of host (delivery_done key r) = []"
  by (cases "(key, r)" rule: delivery_done.cases) simp_all

lemma task_step_breaker:
  assumes "wdr_breakers dlv = Some config" and "task_step lib slib dlv t w = Some (t', w')"
    and "breaker_inv config (host_view host (permits_of host t @ ps) (pw_delivery w))"
  shows "breaker_inv config (host_view host (permits_of host t' @ ps) (pw_delivery w'))"
proof (cases "(lib, slib, dlv, t, w)" rule: task_step.cases)
  case (2 lib slib dlv key d w)
  then show ?thesis
    using assms by (auto simp: host_view_def breaker_of_registered split: option.splits)
next
  case (3 lib slib dlv key br d w)
  then show ?thesis
    using assms take_permit_inv [OF assms(1), of br "pw_delivery w" _ _ host ps]
    by (auto simp: held_permit_def split: option.splits prod.splits)
next
  case (4 lib slib dlv key br permit d w)
  then obtain reply dw where r: "send lib dlv d (pw_delivery w) = (reply, dw)" by fastforce
  then show ?thesis
    using 4 assms breaker_inv_later [OF _ send_facts(3) [OF r] send_facts(2) [OF r]] by auto
next
  case (5 lib slib dlv key br permit d status body w)
  then show ?thesis
    using assms permit_ops_inv [OF assms(1), of host br permit ps "pw_delivery w"] by auto
next
  case (6 lib slib dlv key br permit d e w)
  then show ?thesis
    using assms permit_ops_inv [OF assms(1), of host br permit ps "pw_delivery w"]
    by (auto split: option.splits if_splits)
next
  case (7 lib slib dlv key br d wake w)
  then show ?thesis using assms by (auto intro: breaker_inv_later)
qed (use assms in \<open>auto simp: Let_def split: option.splits prod.splits sum.splits\<close>)

lemma drop_task_breaker:
  assumes "wdr_breakers dlv = Some config"
    and "breaker_inv config (host_view host (permits_of host t @ ps) (pw_delivery w))"
  shows "breaker_inv config (host_view host ps (pw_delivery (drop_task dlv t w)))"
proof (cases "(dlv, t, w)" rule: drop_task.cases)
  case (1 dlv key br permit d w)
  then show ?thesis
    using assms permit_ops_inv [OF assms(1), of host br permit ps "pw_delivery w"] by auto
next
  case (2 dlv key br permit d reply w)
  then show ?thesis
    using assms permit_ops_inv [OF assms(1), of host br permit ps "pw_delivery w"] by auto
qed (use assms in auto)

text \<open>The permits of a schedule, those of one task apart.\<close>

definition other_permits :: "string \<Rightarrow> nat \<Rightarrow> task list \<Rightarrow> Permit list" where
  "other_permits host i ts = concat (map (permits_of host) (take i ts @ drop (Suc i) ts))"

lemma set_permits_update:
  "i < length ts \<Longrightarrow> set (concat (map (permits_of host) (ts[i := t]))) =
     set (permits_of host t @ other_permits host i ts)"
  by (simp add: upd_conv_take_nth_drop other_permits_def) blast

lemma set_permits_nth:
  "i < length ts \<Longrightarrow> set (concat (map (permits_of host) ts)) =
     set (permits_of host (ts ! i) @ other_permits host i ts)"
  using set_permits_update [of i ts host "ts ! i"] by simp

lemma breaker_view_step:
  assumes "wdr_breakers dlv = Some config" and "interleave lib slib dlv (ts, w) s'"
    and "breaker_inv config (breaker_view host (ts, w))"
  shows "breaker_inv config (breaker_view host s')"
proof -
  have view: "breaker_inv config (host_view host (permits_of host (ts ! i) @ other_permits host i ts) (pw_delivery w))"
    if "i < length ts" for i
    using assms(3) set_permits_nth [OF that] breaker_inv_more unfolding breaker_view_def fst_conv snd_conv by blast
  from assms(2) show ?thesis
  proof cases
    case (runs i t' w')
    from task_step_breaker [OF assms(1) runs(3) view [OF runs(2)]] show ?thesis
      using runs(1) set_permits_update [OF runs(2)] breaker_inv_more
      unfolding breaker_view_def fst_conv snd_conv by (metis order_refl fst_conv snd_conv)
  next
    case (drops i)
    have "set (other_permits host i ts) \<subseteq> set (concat (map (permits_of host) (ts[i := Dropped])))"
      using set_permits_update [OF drops(2), of host Dropped] by simp
    with drop_task_breaker [OF assms(1) view [OF drops(2)]] show ?thesis
      using drops(1) breaker_inv_more by (simp add: breaker_view_def)
  qed
qed

interpretation guarded: invariant_system
  "\<lambda>s. wdr_breakers dlv = Some config \<and> breaker_inv config (breaker_view host s)"
  "interleave lib slib dlv"
  "\<lambda>s. wdr_breakers dlv = Some config \<and> breaker_inv config (breaker_view host s)"
  for lib slib dlv config host
proof unfold_locales
  fix s s'
  assume "wdr_breakers dlv = Some config \<and> breaker_inv config (breaker_view host s)"
    and "interleave lib slib dlv s s'"
  then show "wdr_breakers dlv = Some config \<and> breaker_inv config (breaker_view host s')"
    using breaker_view_step by (cases s) blast
qed

section \<open>Properties\<close>

definition breakers_settled :: "CircuitBreakerConfig \<Rightarrow> delivery_world \<Rightarrow> bool" where
  "breakers_settled config w \<longleftrightarrow>
     (\<forall>host b. dw_breakers w host = Some b \<longrightarrow>
        breaker_idle config b \<and> (\<forall>t. opened_at b = Some t \<longrightarrow> t \<le> dw_now w))"

lemma settled_view: "breakers_settled config w \<Longrightarrow> breaker_inv config (host_view host [] w)"
  using breaker_idle_new [of config]
  by (auto simp: breakers_settled_def breaker_inv_def host_view_def breaker_of_def breaker_for_def
      breaker_idle_def CircuitBreaker_new_def split: option.split)

lemma no_permits_admits:
  assumes "breaker_inv config (host_view host [] w)" and "dw_now w + cooldown config \<le> now"
  shows "cb_state (breaker_of host w) \<noteq> HalfOpen \<and> fst (try_acquire config now (breaker_of host w)) \<noteq> None"
  using breaker_never_stuck [OF assms(1), of now] assms(2) by (simp add: host_view_def)

lemma finished_no_permits: "list_all finished ts \<Longrightarrow> concat (map (permits_of host) ts) = []"
proof (induction ts)
  case (Cons t ts)
  then show ?case by (cases t) simp_all
qed simp

text \<open>
  C34. Concurrent deliveries share the breakers safely, whatever the schedule and whichever calls
  are dropped half-way: a breaker is half-open only while some call holds the permit of its
  probe, and once every call has returned or was dropped no breaker is half-open and, a cooldown
  later, every one of them lets a call through. The registry starts empty or settled.
\<close>

theorem schedules_settle_breakers:
  assumes "wdr_breakers dlv = Some config" and "breakers_settled config (pw_delivery w)"
    and "(interleave lib slib dlv)\<^sup>*\<^sup>* (map Checking ds, w) (ts, w')"
  shows "(cb_state (breaker_of host (pw_delivery w')) = HalfOpen \<longrightarrow>
       (\<exists>t \<in> set ts. \<exists>p \<in> set (permits_of host t). is_probe p)) \<and>
     (list_all finished ts \<and> dw_now (pw_delivery w') + cooldown config \<le> now \<longrightarrow>
       cb_state (breaker_of host (pw_delivery w')) \<noteq> HalfOpen \<and>
       fst (try_acquire config now (breaker_of host (pw_delivery w'))) \<noteq> None)"
proof -
  have "concat (map (permits_of host) (map Checking ds)) = []" by (induction ds) simp_all
  then have "breaker_inv config (breaker_view host (map Checking ds, w))"
    using settled_view [OF assms(2)] by (simp only: breaker_view_def fst_conv snd_conv)
  then have inv: "breaker_inv config (breaker_view host (ts, w'))"
    using guarded.steps_invar [OF assms(3)] assms(1) by blast
  then have "cb_state (breaker_of host (pw_delivery w')) = HalfOpen \<longrightarrow>
      (\<exists>t \<in> set ts. \<exists>p \<in> set (permits_of host t). is_probe p)"
    by (auto simp: breaker_inv_def breaker_view_def host_view_def)
  moreover have "list_all finished ts \<Longrightarrow> breaker_inv config (host_view host [] (pw_delivery w'))"
    using inv finished_no_permits by (simp add: breaker_view_def)
  ultimately show ?thesis using no_permits_admits by blast
qed

theorem schedules_settle_breakers_witness:
  "\<exists>ts w'. (interleave demo_platform demo_store_lib demo_deliverer)\<^sup>*\<^sup>*
       (map Checking [WebhookDelivery_new ''id'' 0 ''https://anchor/hook'' JNull], demo_proc_world) (ts, w') \<and>
     fst (try_acquire \<lparr>failure_threshold = 2, cooldown = 1000\<rparr> (dw_now (pw_delivery w') + 1000)
       (breaker_of ''anchor'' (pw_delivery w'))) \<noteq> None"
proof -
  let ?ds = "[WebhookDelivery_new ''id'' 0 ''https://anchor/hook'' JNull]"
  obtain rs w' where rs: "process_all demo_platform demo_store_lib demo_deliverer ?ds demo_proc_world = (rs, w')"
    by fastforce
  have run: "(interleave demo_platform demo_store_lib demo_deliverer)\<^sup>*\<^sup>* (map Checking ?ds, demo_proc_world)
      (map Finished rs, w')"
    using sequence_schedules [OF rs, of "[]"] by simp
  have "wdr_breakers demo_deliverer = Some \<lparr>failure_threshold = 2, cooldown = 1000\<rparr>"
    by (simp add: demo_deliverer_def with_circuit_breaker_def)
  moreover have "breakers_settled \<lparr>failure_threshold = 2, cooldown = 1000\<rparr> (pw_delivery demo_proc_world)"
    by (simp add: breakers_settled_def demo_proc_world_def demo_world_def)
  ultimately have "fst (try_acquire \<lparr>failure_threshold = 2, cooldown = 1000\<rparr> (dw_now (pw_delivery w') + 1000)
      (breaker_of ''anchor'' (pw_delivery w'))) \<noteq> None"
    using schedules_settle_breakers [OF _ _ run, of _ "''anchor''" "dw_now (pw_delivery w') + 1000"]
    by (simp add: list_all_iff)
  with run show ?thesis by blast
qed

end
