(* ===== verification/Cli_Main.thy ===== *)
theory Cli_Main
  imports Watch Discovery Playground
begin

text \<open>
  The entry point of the command-line tool (\<open>cli/src/main.rs\<close>), after clap has parsed the
  arguments: each command runs its module, an error is printed on the error stream and ends the
  process with status 1. \<open>None\<close> is a watch that goes on forever.
\<close>

datatype Command =
    PlaygroundCmd string string string
  | DiscoverCmd string
  | WatchCmd string string "string option" "u64 option" "u64 option"

datatype exit_status = Exit int | Panicked

record process_end =
  pe_exit :: exit_status
  pe_out :: string
  pe_err :: string

record cli_lib =
  cl_play :: play_lib
  cl_discovery :: discovery_lib
  cl_watch :: watch_lib
  cl_stdin :: "string option list"
  cl_flushed :: "nat \<Rightarrow> bool"

definition error_line :: "CliError \<Rightarrow> string" where
  "error_line e = ''Error: '' @ cli_error_to_string e @ [CHR 0x0A]"

fun cli_main :: "cli_lib \<Rightarrow> Command \<Rightarrow> process_end option" where
  "cli_main lib (PlaygroundCmd url contract_id source) =
     (case RpcClient_new (cl_play lib) url contract_id source of
        Inr client \<Rightarrow>
          (let w = repl_run (cl_play lib) client (cl_flushed lib) (cl_stdin lib) \<lparr>pw_posts = [], pw_out = []\<rparr>
           in Some \<lparr>pe_exit = Exit 0, pe_out = pw_out w, pe_err = []\<rparr>)
      | Inl e \<Rightarrow> Some \<lparr>pe_exit = Exit 1, pe_out = [], pe_err = error_line e\<rparr>)"
| "cli_main lib (DiscoverCmd domain) =
     (case fst (discover (cl_discovery lib) domain []) of
        Ok report \<Rightarrow> Some \<lparr>pe_exit = Exit 0, pe_out = print_report report, pe_err = []\<rparr>
      | Err e \<Rightarrow> Some \<lparr>pe_exit = Exit 1, pe_out = [], pe_err = error_line e\<rparr>
      | Panic \<Rightarrow> Some \<lparr>pe_exit = Panicked, pe_out = [], pe_err = []\<rparr>)"
| "cli_main lib (WatchCmd transfer_server_url transaction_id auth_token long_poll_timeout poll_interval_ms) =
     map_option (\<lambda>(r, w).
       case r of
         Ok _ \<Rightarrow> \<lparr>pe_exit = Exit 0, pe_out = ww_out w, pe_err = ww_err w\<rparr>
       | Err e \<Rightarrow> \<lparr>pe_exit = Exit 1, pe_out = ww_out w, pe_err = ww_err w @ error_line e\<rparr>
       | Panic \<Rightarrow> \<lparr>pe_exit = Panicked, pe_out = ww_out w, pe_err = ww_err w\<rparr>)
     (watch_run (cl_watch lib) transfer_server_url transaction_id auth_token long_poll_timeout
        poll_interval_ms \<lparr>ww_requests = [], ww_slept = [], ww_out = [], ww_err = []\<rparr>)"

text \<open>
  A process that ends with status 1 has an error line as the last thing on its error stream, and
  no other status but 0 and a panic occurs.
\<close>

lemma cli_main_status:
  assumes "cli_main lib c = Some p"
  shows "pe_exit p = Exit 0 \<or> pe_exit p = Panicked \<or> pe_exit p = Exit 1 \<and> (\<exists>e. suffix (error_line e) (pe_err p))"
proof (cases c)
  case (PlaygroundCmd u k a)
  then show ?thesis using assms by (auto simp: Let_def split: sum.splits)
next
  case (DiscoverCmd d)
  then show ?thesis using assms by (auto split: outcome.splits)
next
  case (WatchCmd u t a l i)
  then obtain r w where "watch_run (cl_watch lib) u t a l i
      \<lparr>ww_requests = [], ww_slept = [], ww_out = [], ww_err = []\<rparr> = Some (r, w)"
    using assms by auto
  moreover have "\<exists>e'. suffix (error_line e') (ww_err w @ error_line e)" for e
    by (intro exI suffixI) (rule refl)
  ultimately show ?thesis using assms WatchCmd by (cases r) auto
qed

end
