(* ===== verification/Spec2Isabelle.thy ===== *)
theory Spec2Isabelle
  imports Governance_Properties Reference_Model Invariant_Harness Expiry_Harness Fuzz_Targets
    Storage_Ttl_Tests Benchmark_Reports Wasm_Artifact_Path Contract_Unit_Tests Breaker_Unit_Tests
    Webhook_Walkthroughs Cli_Unit_Tests Breaker_Concurrency Cli_Main
begin

text \<open>
  \<^bold>\<open>AnchorKit.\<close> A verification development for the three Rust crates of the repository: the
  attestation contract on Soroban (\<open>src/\<close>), the webhook SDK (\<open>webhook-sdk/src/\<close>) and the
  command-line tool (\<open>cli/src/\<close>). Paths below are relative to the repository.

  \<^bold>\<open>The parts and how they meet.\<close> The contract keeps, per subject and attestation type, the
  current attestation and an append-only history of every version of it; an administrator
  keeps the list of attestors who may issue, the pause switch and the limits on lifetimes; a
  signer set is kept beside it for governance. The webhook SDK delivers events to
  subscribers over HTTP: a retry loop around one request, a circuit breaker per host in front
  of it, a log with redaction behind it, a store that makes repeated payloads take effect once, a
  queue of undeliverable ones with a monitor, and the check of signatures on the receiving
  side. The command-line tool reads the contract through a simulating RPC client, discovers
  what an anchor supports and watches a transfer; it shares only the domain validator with the
  contract crate.

  \<^bold>\<open>How code becomes definitions.\<close> Unsigned integers are words of their width; the arithmetic of
  the standard library (saturating, checked, clamping) is in \<open>Anchor_Prelude\<close>. A fallible function on
  a state is an \<open>op\<close>: it gives \<open>Ok\<close>, \<open>Err\<close> or \<open>Panic\<close> together with the state it leaves, also when
  it fails, so that what was written before a failure stays visible. Where the host undoes a failed
  call, this is said by the step relation and not by the operations. Strings are lists of bytes. What is
  not in the repository is an argument: the host's sha256 and its extension of lifetimes, the
  HTTP clients, parsers, clocks, SQLite's faults, MACs and the floating-point power whose precision
  the language leaves open. Assumptions on these are named predicates (\<open>crypto_sound\<close>,
  \<open>documented_host\<close>, \<open>settles\<close>, and the like) and each property that has one comes with a concrete instance.

  \<^bold>\<open>The theories.\<close>
  \<^item> \<open>Anchor_Prelude\<close>: integers, operations, texts, the locale \<open>invariant_system\<close> with the
    reachable states of a step relation, and the locale \<open>data_refinement\<close>: operations on a detailed
    state that commute with an abstraction give runs with the same answers.
  \<^item> \<open>Contract_Types\<close> (\<open>src/types.rs\<close>, \<open>src/errors.rs\<close>, \<open>src/events.rs\<close>): the stored structures,
    error codes, events, and the record \<open>env\<close>: one field per storage key, the ledger clock, the
    authorisations of the running invocation, the published events and the rent requests made.
  \<^item> \<open>Storage\<close> (\<open>src/storage.rs\<close>): the rent window and every accessor. The locale \<open>append_log\<close> is
    the interface of a numbered log with forward and backward pages, interpreted on the stored
    history of a pair.
  \<^item> \<open>Multisig\<close> (\<open>src/multisig.rs\<close>, \<open>src/migrations.rs\<close>): the configuration of signers, the counting
    of signatures, rotation, message bytes, schema versions.
  \<^item> \<open>Contract\<close> (\<open>src/contract.rs\<close>): one definition per public method, its guards in the order of
    the source. \<open>Contract_Facts\<close> says for each when it succeeds and what it leaves; the locale
    \<open>admin_gated\<close> is the contract shared by the eight admin-only methods, interpreted on each.
  \<^item> \<open>Contract_Machine\<close>: the ledger as a step relation (a successful call, time passing, a new
    invocation), the storage invariant and its preservation, and the frame facts of a step.
  \<^item> \<open>Contract_Properties\<close> (C1, C5, C6, C8 to C15) and \<open>Governance_Properties\<close> (C19 to C22): consistency of the
    storage, append-only histories, the outcome and effect of issuing, batches as sequences,
    revocation, where validity comes from, the pause, authority over the settings, paging;
    and what the governance calls do and do not check.
  \<^item> \<open>Storage_Rent\<close> (C16 to C18): the contract machine with the number of the ledger and, for every
    persistent entry, the lease its rent has bought. What the network does with a request is the record
    \<open>rent_host\<close>; \<open>documented_host\<close> is what the comments of \<open>src/storage.rs\<close> and
    \<open>docs/storage-rent-cost-analysis.md\<close> say of it. Ledgers may close at any pace; C16 asks for the average
    of five seconds that the windows are computed from (\<open>nominal_pace\<close>). A bought window covers the lifetime
    up to the network's ceiling; a request above the threshold buys nothing and the entry can lapse early;
    the counter of a history is never paid for.
    \<open>Storage_Ttl_Tests\<close> (\<open>src/storage_ttl_tests.rs\<close>): the tests of the windows pass on every such network.
  \<^item> \<open>Registry_Spec\<close>: what the contract promises, as a registry without storage keys, sequence
    counters or host calls: per pair the list of its versions, who may issue, the limits, the
    signers, the number issued, and for each call its answer and the new registry.
    \<open>Registry_Refinement\<close> (C2, C7) proves, call by call, that the contract answers as the
    registry does and that its storage abstracts to the registry's state, and interprets
    \<open>data_refinement\<close> for whole runs with time and authorisations changing between the calls.
  \<^item> \<open>Test_World\<close>, \<open>Reference_Model\<close> (\<open>src/attestation_model_proptest.rs\<close>; C3), \<open>Invariant_Harness\<close>
    (\<open>src/invariant_state_machine_proptest.rs\<close>; C4), \<open>Expiry_Harness\<close> (\<open>src/ttl_overflow_proptest.rs\<close>): the
    property tests of the contract as functions of the generated input that say whether every
    assertion holds. The tests sample; here the harnesses are proved to succeed on everything their
    generators can produce, of any length that fits the counters.
  \<^item> \<open>Batch_Benchmark\<close> (\<open>src/batch_gas_benchmark.rs\<close>, \<open>src/test_util.rs\<close>, \<open>benches/hot_paths.rs\<close>): the
    benchmarks with the charges of the host as an argument. The two measurements of the batch
    benchmark leave the same ledger, with three new persistent keys per entry, and the hot paths
    never panic, however often they are repeated. \<open>Benchmark_Reports\<close> (with \<open>src/hash_benchmark.rs\<close>): the tables
    the benchmarks print, with their averages, ratios and rates in binary64.
  \<^item> \<open>Fuzz_Targets\<close> (\<open>fuzz/fuzz_targets/\<close>): the decoding of the fuzzer's bytes, with lossy UTF-8
    decoding and slicing as the standard library has them: when it panics, and what reaches the
    symbol constructor. \<open>Wasm_Artifact_Path\<close> (\<open>src/wasm_artifact_path.rs\<close>): the path of the artifact
    for every manifest directory.
  \<^item> \<open>Contract_Unit_Tests\<close>, \<open>Breaker_Unit_Tests\<close>, \<open>Webhook_Unit_Tests\<close>, \<open>Cli_Unit_Tests\<close>: the unit tests that
    stand in the source files, each a definition, with the proof that the model passes it. Where
    a test depends on a library, the fact says on exactly what.
  \<^item> \<open>Payload_Domain\<close> (\<open>src/hash.rs\<close>, \<open>src/domain_validator.rs\<close>; C23): payload digests, and the
    single pass over a domain against its label-by-label reading.
  \<^item> \<open>Webhook_Types\<close> (\<open>errors.rs\<close>, \<open>types.rs\<close> of the SDK): JSON values, errors, deliveries.
  \<^item> \<open>Circuit_Breaker\<close> (\<open>circuit_breaker.rs\<close>; C24, C25): breaker, permits and registry. Concurrent
    callers are an interleaving of whole operations, each of which the code runs under its lock.
    The locale \<open>call_gate\<close> is what one caller at a time relies on.
  \<^item> \<open>Float64\<close>: the binary64 operations that the crates use, with the correctness of rounding and of
    exact quotients. \<open>Retry\<close> (\<open>retry.rs\<close>), \<open>Log_Redaction\<close> (\<open>logging.rs\<close>; C26, C27): redaction described node
    by node, and what two log lines that are equal say of the values logged. \<open>Delivery\<close> (\<open>delivery.rs\<close>; C28,
    C30): the retry loop, its bounds, and the breakers around it.
  \<^item> \<open>Sql_Table\<close>, \<open>Idempotency\<close> (\<open>idempotency.rs\<close>, \<open>processor.rs\<close>; C29), \<open>Signature_Verification\<close>
    (\<open>verification.rs\<close>; C35), \<open>Dead_Letter\<close> (\<open>dead_letter.rs\<close>, \<open>monitor.rs\<close>; C36). The locale
    \<open>idem_store\<close> is what the processor relies on.
  \<^item> \<open>Processor_Interleaving\<close> (C31 to C33): concurrent calls of the processor as tasks that run from
    one \<open>await\<close> to the next in any order and can be dropped while they wait; \<open>interleave\<close> is the scheduler,
    which is not code of the repository. Run in sequence they are the calls of \<open>Idempotency\<close>
    (\<open>sequential_schedule\<close>); every schedule ends and no call is ever stuck; late calls are answered from
    the store; early ones can all deliver. \<open>Breaker_Concurrency\<close> (C34) carries the invariant of one breaker
    over to every host of such a schedule.
  \<^item> \<open>Webhook_Walkthroughs\<close>: the duplicate test of the processor and the example of the crate
    (\<open>webhook-sdk/src/lib.rs\<close>), which run through several of these parts.
  \<^item> \<open>Cli_Types\<close> (\<open>error.rs\<close>), \<open>Watch\<close> (\<open>watch.rs\<close>; C37, C38), \<open>Playground\<close> (\<open>args.rs\<close>, \<open>display.rs\<close>,
    \<open>rpc.rs\<close>, \<open>repl.rs\<close>; C39), \<open>Discovery\<close> (\<open>discovery/\<close>; C40), \<open>Cli_Main\<close> (\<open>main.rs\<close>) of the
    command-line tool.

  \<^bold>\<open>Loops.\<close> No fuel is used. The loops over lists are structural; the delivery loop, the
  white-space scanners, the lossy UTF-8 decoder and the decimal printer are total by a measure. The watch loop may run forever
  and is a partial function whose value is \<open>None\<close> then: C37 states when it returns, with a
  bound on its requests, and C38 what a returned value means.

  \<^bold>\<open>Not modelled.\<close> The fees of rent, and the lease of the contract instance, for which the
  contract requests nothing: the leases of persistent entries are followed, and a call that would touch
  an archived one waits for its restoration. The bytes of
  log sinks beyond their lines, the wording of errors that come from libraries, and the parsing of
  command-line flags. In a schedule a request and its reply are one step, after which the task waits
  to go on. Where the source leaves a value ill-typed, as \<open>?\<close> on an absent schema version, it is an
  argument. The other separate test files of the crates; the separators of Windows paths; the clock
  behind the timings of the benchmarks, which is an argument. The module roots, the TypeScript and UI parts of the repository and its
  scripts are outside the development.
\<close>

end
